theory Spec2Isabelle
  imports Complex_Main
begin

section \<open>The example tools (examples/tamims.py)\<close>

text \<open>
  \<^verbatim>\<open>capital\<close> and \<^verbatim>\<open>language\<close> build a dict literal and return
  \<^verbatim>\<open>d.get(country, "Unknown")\<close>. The dict literals are association lists read
  with \<open>map_of\<close>; their keys are distinct, so the first match is the only one.
\<close>

definition capitals :: "(string \<times> string) list" where
  "capitals =
     [(''France'', ''Paris''),
      (''Germany'', ''Berlin''),
      (''Italy'', ''Rome''),
      (''Japan'', ''Tokyo'')]"

definition languages :: "(string \<times> string) list" where
  "languages =
     [(''France'', ''French''),
      (''Germany'', ''German''),
      (''Italy'', ''Italian''),
      (''Japan'', ''Japanese'')]"

definition dict_get :: "(string \<times> string) list \<Rightarrow> string \<Rightarrow> string \<Rightarrow> string" where
  "dict_get d k dflt = (case map_of d k of None \<Rightarrow> dflt | Some v \<Rightarrow> v)"

definition capital :: "string \<Rightarrow> string" where
  "capital country = dict_get capitals country ''Unknown''"

definition language :: "string \<Rightarrow> string" where
  "language country = dict_get languages country ''Unknown''"

section \<open>Python values and the data of a conversation (tulip/tulip_agent.py)\<close>

text \<open>
  A value read by \<^verbatim>\<open>json.loads\<close>. A JSON object is the dict Python builds from it,
  kept as an association list in insertion order. A float is kept as the rational it
  denotes: the agent only passes such values on.
\<close>

datatype json =
    JNull
  | JBool bool
  | JInt int
  | JFloat rat
  | JStr string
  | JArr "json list"
  | JObj "(string \<times> json) list"

text \<open>
  The exceptions that leave \<^verbatim>\<open>query\<close>. The two assertions of the search phase keep
  the value their message is formatted from.
\<close>

datatype pyerr =
    AssertNotExactlyOne nat
  | AssertUnexpectedToolCall string
  | TypeError
  | JSONDecodeError
  | IndexError
  | OtherError string

text \<open>
  A tool call of a completion message (\<^verbatim>\<open>tool_call.id\<close>,
  \<^verbatim>\<open>tool_call.function.name\<close>, \<^verbatim>\<open>tool_call.function.arguments\<close>, the
  arguments being JSON text), and the message itself: \<^verbatim>\<open>content\<close> and
  \<^verbatim>\<open>tool_calls\<close> are both optional in the client library, \<open>None\<close> is Python's
  \<^verbatim>\<open>None\<close>.
\<close>

record tool_call =
  tc_id :: string
  tc_name :: string
  tc_arguments :: string

record response_message =
  content :: "string option"
  tool_calls :: "tool_call list option"

text \<open>
  The entries of \<^verbatim>\<open>self.messages\<close>: the dicts with role system, user and tool
  that the agent builds, and the completion messages it appends as they are.
  \<open>ToolMsg\<close> carries \<^verbatim>\<open>tool_call_id\<close>, \<^verbatim>\<open>name\<close> and \<^verbatim>\<open>content\<close>.
\<close>

datatype message =
    SystemMsg string
  | UserMsg string
  | AssistantMsg response_message
  | ToolMsg string string string

text \<open>The keyword arguments of one \<^verbatim>\<open>chat.completions.create\<close> call.\<close>

record request =
  rq_model :: string
  rq_messages :: "message list"
  rq_tools :: "json list option"
  rq_temperature :: rat
  rq_tool_choice :: json

text \<open>
  What the agent does to the outside world, in order: calls of the completion API,
  log records (the formatted text of an info record is kept as the values it is
  formatted from) and calls of the tool library.
\<close>

datatype info =
    QueryInfo string
  | ActionsInfo response_message
  | FunctionsForInfo json "json list"
  | ToolSearchInfo json
  | ToolsFoundInfo "json list"
  | FunctionReturnedInfo string string json

datatype event =
    ApiCall request
  | LogError string
  | LogInfo info
  | LibSearch json int
  | LibExecute string json

text \<open>
  The mutable state: \<^verbatim>\<open>self.messages\<close>, the trace of effects, and the number of
  completions obtained so far (the index of the next one in the environment).
\<close>

record state =
  messages :: "message list"
  trace :: "event list"
  answered :: nat

text \<open>
  One attempt of the completion API either raises \<^verbatim>\<open>OpenAIError\<close> or returns a
  completion, represented by its \<^verbatim>\<open>choices[0].message\<close>.
\<close>

datatype api_outcome =
    OpenAIError string
  | Completion response_message

text \<open>
  The tool library (\<^verbatim>\<open>tool_library.py\<close> is not part of the sources at hand, so its
  two methods are parameters). \<open>search\<close> gives the \<^verbatim>\<open>"documents"\<close> entry of the
  query result, \<open>execute\<close> the value the tool returned; either may raise.
\<close>

record 'v tool_library =
  search :: "json \<Rightarrow> int \<Rightarrow> pyerr + string list list"
  execute :: "string \<Rightarrow> json \<Rightarrow> pyerr + 'v"

text \<open>
  The fields of a \<^verbatim>\<open>TulipAgent\<close> that never change. \<^verbatim>\<open>TULIP_PROMPT\<close> is not
  defined in the prompts module at hand, so \<open>instructions\<close> is a parameter.
\<close>

record 'v agent =
  agent_model :: string
  temperature :: rat
  instructions :: string
  tool_library :: "'v tool_library"
  top_k_functions :: int

text \<open>
  The rest of the world: \<open>api j k\<close> is the outcome of attempt \<open>k\<close> of the \<open>j\<close>-th
  completion the agent asks for, \<open>json_loads\<close> is \<^verbatim>\<open>json.loads\<close> and \<open>py_str\<close> is
  \<^verbatim>\<open>str\<close> on the values tools return.
\<close>

record 'v env =
  api :: "nat \<Rightarrow> nat \<Rightarrow> api_outcome"
  json_loads :: "string \<Rightarrow> pyerr + json"
  py_str :: "'v \<Rightarrow> string"

definition append_message :: "message \<Rightarrow> state \<Rightarrow> state" where
  "append_message m st = st\<lparr>messages := messages st @ [m]\<rparr>"

definition emit :: "event \<Rightarrow> state \<Rightarrow> state" where
  "emit ev st = st\<lparr>trace := trace st @ [ev]\<rparr>"

subsection \<open>\<^verbatim>\<open>TulipAgent.__init__\<close>\<close>

definition init_state :: "'v agent \<Rightarrow> state" where
  "init_state self =
     \<lparr>messages = (if instructions self \<noteq> [] then [SystemMsg (instructions self)] else []),
      trace = [],
      answered = 0\<rparr>"

definition search_tools_description :: json where
  "search_tools_description =
     JObj [(''type'', JStr ''function''),
           (''function'',
            JObj [(''name'', JStr ''search_tools''),
                  (''description'', JStr ''Search for tools in your tool library.''),
                  (''parameters'',
                   JObj [(''type'', JStr ''object''),
                         (''properties'',
                          JObj [(''action_descriptions'',
                                 JObj [(''type'', JStr ''array''),
                                       (''items'', JObj [(''type'', JStr ''string'')]),
                                       (''description'',
                                        JStr ''A list of textual description for the actions you want to execute.'')])]),
                         (''required'', JArr [JStr ''problem_description''])])])]"

text \<open>Reading a published schema: \<^verbatim>\<open>d[k]\<close> on a dict, and the keys of a dict.\<close>

fun json_get :: "json \<Rightarrow> string \<Rightarrow> json option" where
  "json_get (JObj kvs) k = map_of kvs k"
| "json_get _ k = None"

fun json_keys :: "json \<Rightarrow> string list" where
  "json_keys (JObj kvs) = map fst kvs"
| "json_keys _ = []"

fun json_strings :: "json \<Rightarrow> string list" where
  "json_strings (JArr xs) = concat (map (\<lambda>x. case x of JStr s \<Rightarrow> [s] | _ \<Rightarrow> []) xs)"
| "json_strings _ = []"

definition schema_parameters :: "json \<Rightarrow> json" where
  "schema_parameters d =
     (case json_get d ''function'' of
        None \<Rightarrow> JNull
      | Some f \<Rightarrow> (case json_get f ''parameters'' of None \<Rightarrow> JNull | Some p \<Rightarrow> p))"

definition schema_properties :: "json \<Rightarrow> string list" where
  "schema_properties d =
     (case json_get (schema_parameters d) ''properties'' of
        None \<Rightarrow> []
      | Some ps \<Rightarrow> json_keys ps)"

definition schema_required :: "json \<Rightarrow> string list" where
  "schema_required d =
     (case json_get (schema_parameters d) ''required'' of
        None \<Rightarrow> []
      | Some r \<Rightarrow> json_strings r)"

subsection \<open>\<^verbatim>\<open>TulipAgent.search_tools\<close>\<close>

text \<open>
  \<^verbatim>\<open>for x in v\<close> on a value read from JSON: a list gives its elements, a string its
  characters, a dict its keys; anything else is not iterable.
\<close>

fun py_iter :: "json \<Rightarrow> pyerr + json list" where
  "py_iter (JArr xs) = Inr xs"
| "py_iter (JStr s) = Inr (map (\<lambda>c. JStr [c]) s)"
| "py_iter (JObj kvs) = Inr (map (\<lambda>kv. JStr (fst kv)) kvs)"
| "py_iter _ = Inl TypeError"

text \<open>The list comprehension \<^verbatim>\<open>[json.loads(e) for e in ...]\<close>: the first failure raises.\<close>

fun loads_all :: "(string \<Rightarrow> pyerr + json) \<Rightarrow> string list \<Rightarrow> pyerr + json list" where
  "loads_all loads [] = Inr []"
| "loads_all loads (e # es) =
     (case loads e of
        Inl err \<Rightarrow> Inl err
      | Inr v \<Rightarrow> (case loads_all loads es of Inl err \<Rightarrow> Inl err | Inr vs \<Rightarrow> Inr (v # vs)))"

text \<open>
  The loop of \<^verbatim>\<open>search_tools\<close> with its two accumulators: \<^verbatim>\<open>["documents"][0]\<close>
  raises on an empty list, \<open>hash_res\<close> is extended by the whole result after the new
  documents have been picked.
\<close>

fun search_loop ::
  "'v env \<Rightarrow> 'v agent \<Rightarrow> json list \<Rightarrow> json list \<Rightarrow> string list \<Rightarrow> state \<Rightarrow>
     (pyerr + json list) \<times> state" where
  "search_loop env self [] json_res hash_res st = (Inr json_res, st)"
| "search_loop env self (action_description # rest) json_res hash_res st =
     (let st1 = emit (LibSearch action_description (top_k_functions self)) st in
      case search (tool_library self) action_description (top_k_functions self) of
        Inl err \<Rightarrow> (Inl err, st1)
      | Inr documents \<Rightarrow>
          (case documents of
             [] \<Rightarrow> (Inl IndexError, st1)
           | res # _ \<Rightarrow>
               (case loads_all (json_loads env) (filter (\<lambda>e. e \<notin> set hash_res) res) of
                  Inl err \<Rightarrow> (Inl err, st1)
                | Inr json_res' \<Rightarrow>
                    search_loop env self rest (json_res @ json_res') (hash_res @ res)
                      (emit (LogInfo (FunctionsForInfo action_description json_res')) st1))))"

definition search_tools ::
  "'v env \<Rightarrow> 'v agent \<Rightarrow> json \<Rightarrow> state \<Rightarrow> (pyerr + json list) \<times> state" where
  "search_tools env self action_descriptions st =
     (case py_iter action_descriptions of
        Inl err \<Rightarrow> (Inl err, st)
      | Inr ads \<Rightarrow> search_loop env self ads [] [] st)"

text \<open>
  \<^verbatim>\<open>self.search_tools(**args)\<close>: \<open>args\<close> must be a dict, every key must be a parameter
  of \<^verbatim>\<open>search_tools\<close>, and its one parameter must be given.
\<close>

definition call_search_tools ::
  "'v env \<Rightarrow> 'v agent \<Rightarrow> json \<Rightarrow> state \<Rightarrow> (pyerr + json list) \<times> state" where
  "call_search_tools env self args st =
     (case args of
        JObj kvs \<Rightarrow>
          (if list_all (\<lambda>k. k = ''action_descriptions'') (map fst kvs) then
             (case map_of kvs ''action_descriptions'' of
                None \<Rightarrow> (Inl TypeError, st)
              | Some ads \<Rightarrow> search_tools env self ads st)
           else (Inl TypeError, st))
      | _ \<Rightarrow> (Inl TypeError, st))"

subsection \<open>\<^verbatim>\<open>TulipAgent.__get_response\<close>\<close>

text \<open>
  The loop \<^verbatim>\<open>while not response\<close>: every attempt sends the same keyword arguments;
  an \<^verbatim>\<open>OpenAIError\<close> is logged and the loop goes round again, a completion (an
  object, hence true) ends it. Nothing bounds the number of attempts, so the loop is a
  partial function: \<open>None\<close> is the run that never returns.
\<close>

partial_function (option) get_response_loop ::
  "'v env \<Rightarrow> request \<Rightarrow> nat \<Rightarrow> state \<Rightarrow> (response_message \<times> state) option" where
  "get_response_loop env rq k st =
     (case api env (answered st) k of
        OpenAIError e \<Rightarrow> get_response_loop env rq (Suc k) (emit (LogError e) (emit (ApiCall rq) st))
      | Completion r \<Rightarrow> Some (r, (emit (ApiCall rq) st)\<lparr>answered := Suc (answered st)\<rparr>))"

declare get_response_loop.simps [code]

text \<open>
  \<^verbatim>\<open>x if x else y\<close> takes \<open>y\<close> when \<open>x\<close> is \<^verbatim>\<open>None\<close>, empty or zero.
\<close>

definition make_request ::
  "'v agent \<Rightarrow> message list \<Rightarrow> string option \<Rightarrow> rat option \<Rightarrow> json list option \<Rightarrow> json \<Rightarrow> request" where
  "make_request self msgs model temp tools tool_choice =
     \<lparr>rq_model = (case model of None \<Rightarrow> agent_model self
                   | Some m \<Rightarrow> if m \<noteq> [] then m else agent_model self),
      rq_messages = msgs,
      rq_tools = tools,
      rq_temperature = (case temp of None \<Rightarrow> temperature self
                         | Some t \<Rightarrow> if t \<noteq> 0 then t else temperature self),
      rq_tool_choice = (case tools of None \<Rightarrow> JStr ''none''
                         | Some ts \<Rightarrow> if ts \<noteq> [] then tool_choice else JStr ''none'')\<rparr>"

definition get_response ::
  "'v env \<Rightarrow> 'v agent \<Rightarrow> message list \<Rightarrow> string option \<Rightarrow> rat option \<Rightarrow> json list option \<Rightarrow>
     json \<Rightarrow> state \<Rightarrow> (response_message \<times> state) option" where
  "get_response env self msgs model temp tools tool_choice st =
     get_response_loop env (make_request self msgs model temp tools tool_choice) 0 st"

subsection \<open>\<^verbatim>\<open>TulipAgent.query\<close>\<close>

definition decomposition_prompt :: "string \<Rightarrow> string" where
  "decomposition_prompt prompt =
     ''Considering the following user request, what are the necessary atomic actions you need to execute?''
     @ [CHR 0x0A] @ '' `'' @ prompt @ ''`'' @ [CHR 0x0A]
     @ ''Return a numbered list of steps.''"

definition search_prompt :: string where
  "search_prompt = ''Now search for appropriate tools for each of these steps.''"

text \<open>An f-string prints \<^verbatim>\<open>None\<close> for a missing content.\<close>

definition format_content :: "string option \<Rightarrow> string" where
  "format_content c = (case c of None \<Rightarrow> ''None'' | Some s \<Rightarrow> s)"

definition solve_prompt :: "string option \<Rightarrow> string" where
  "solve_prompt steps =
     ''Now use the tools to fulfill the user request. Adhere exactly to the following steps:''
     @ [CHR 0x0A] @ format_content steps @ [CHR 0x0A]
     @ ''Execute the tool calls one at a time.''"

definition search_tools_choice :: json where
  "search_tools_choice =
     JObj [(''type'', JStr ''function''), (''function'', JObj [(''name'', JStr ''search_tools'')])]"

text \<open>
  Lines 106 to 125, the Decompose state: the request is logged, wrapped in the
  instruction and sent with \<^verbatim>\<open>tool_choice="none"\<close>; the answer is appended and logged.
\<close>

definition decompose ::
  "'v env \<Rightarrow> 'v agent \<Rightarrow> string \<Rightarrow> state \<Rightarrow> (response_message \<times> state) option" where
  "decompose env self prompt st =
     (let st1 = append_message (UserMsg (decomposition_prompt prompt)) (emit (LogInfo (QueryInfo prompt)) st) in
      case get_response env self (messages st1) None None (Some [search_tools_description])
             (JStr ''none'') st1 of
        None \<Rightarrow> None
      | Some (actions_response_message, st2) \<Rightarrow>
          Some (actions_response_message,
                emit (LogInfo (ActionsInfo actions_response_message))
                  (append_message (AssistantMsg actions_response_message) st2)))"

text \<open>
  Lines 146 to 164, the loop over the tool calls of the search answer. The arguments
  are parsed before the name is asserted.
\<close>

fun search_calls ::
  "'v env \<Rightarrow> 'v agent \<Rightarrow> tool_call list \<Rightarrow> json list \<Rightarrow> state \<Rightarrow> (pyerr + json list) \<times> state" where
  "search_calls env self [] tools st = (Inr tools, st)"
| "search_calls env self (tc # tcs) tools st =
     (case json_loads env (tc_arguments tc) of
        Inl err \<Rightarrow> (Inl err, st)
      | Inr args \<Rightarrow>
          if tc_name tc \<noteq> ''search_tools'' then (Inl (AssertUnexpectedToolCall (tc_name tc)), st)
          else
            (case call_search_tools env self args (emit (LogInfo (ToolSearchInfo args)) st) of
               (Inl err, st1) \<Rightarrow> (Inl err, st1)
             | (Inr tools', st1) \<Rightarrow>
                 search_calls env self tcs (tools @ tools')
                   (append_message
                      (ToolMsg (tc_id tc) (tc_name tc) ''Successfully provided suitable tools.'')
                      (emit (LogInfo (ToolsFoundInfo tools')) st1))))"

text \<open>
  Lines 127 to 164, the SearchTools state. \<^verbatim>\<open>len(tool_calls)\<close> raises
  \<^verbatim>\<open>TypeError\<close> when the answer has no tool-call list.
\<close>

definition search_phase ::
  "'v env \<Rightarrow> 'v agent \<Rightarrow> state \<Rightarrow> ((pyerr + json list) \<times> state) option" where
  "search_phase env self st =
     (let st1 = append_message (UserMsg search_prompt) st in
      case get_response env self (messages st1) None None (Some [search_tools_description])
             search_tools_choice st1 of
        None \<Rightarrow> None
      | Some (response_message, st2) \<Rightarrow>
          (let st3 = append_message (AssistantMsg response_message) st2 in
           case tool_calls response_message of
             None \<Rightarrow> Some (Inl TypeError, st3)
           | Some tcs \<Rightarrow>
               if length tcs \<noteq> 1 then Some (Inl (AssertNotExactlyOne (length tcs)), st3)
               else Some (search_calls env self tcs [] st3)))"

text \<open>Lines 189 to 205, the loop over the tool calls of one answer.\<close>

fun exec_tool_calls ::
  "'v env \<Rightarrow> 'v agent \<Rightarrow> tool_call list \<Rightarrow> state \<Rightarrow> (pyerr + unit) \<times> state" where
  "exec_tool_calls env self [] st = (Inr (), st)"
| "exec_tool_calls env self (tc # tcs) st =
     (case json_loads env (tc_arguments tc) of
        Inl err \<Rightarrow> (Inl err, st)
      | Inr func_args \<Rightarrow>
          (case execute (tool_library self) (tc_name tc) func_args of
             Inl err \<Rightarrow> (Inl err, emit (LibExecute (tc_name tc) func_args) st)
           | Inr function_response \<Rightarrow>
               exec_tool_calls env self tcs
                 (emit (LogInfo (FunctionReturnedInfo (tc_name tc) (py_str env function_response) func_args))
                    (append_message (ToolMsg (tc_id tc) (tc_name tc) (py_str env function_response))
                       (emit (LibExecute (tc_name tc) func_args) st)))))"

text \<open>\<^verbatim>\<open>while tool_calls\<close>: \<^verbatim>\<open>None\<close> and the empty list are both false.\<close>

definition requested :: "response_message \<Rightarrow> tool_call list" where
  "requested rm = (case tool_calls rm of None \<Rightarrow> [] | Some tcs \<Rightarrow> tcs)"

text \<open>
  Lines 186 to 215, the states ExecuteTools, RespondWithTools and Done. The loop runs
  as long as answers request tool calls, so it is a partial function as well.
\<close>

partial_function (option) tool_loop ::
  "'v env \<Rightarrow> 'v agent \<Rightarrow> json list \<Rightarrow> response_message \<Rightarrow> state \<Rightarrow>
     ((pyerr + string option) \<times> state) option" where
  "tool_loop env self tools response_message st =
     (if requested response_message \<noteq> [] then
        (case exec_tool_calls env self (requested response_message)
                (append_message (AssistantMsg response_message) st) of
           (Inl err, st1) \<Rightarrow> Some (Inl err, st1)
         | (Inr u, st1) \<Rightarrow>
             (case get_response env self (messages st1) None None (Some tools) (JStr ''auto'') st1 of
                None \<Rightarrow> None
              | Some (response_message', st2) \<Rightarrow> tool_loop env self tools response_message' st2))
      else Some (Inr (content response_message), append_message (AssistantMsg response_message) st))"

declare tool_loop.simps [code]

text \<open>Lines 166 to 215: the request to use the tools found, then the loop.\<close>

definition solve ::
  "'v env \<Rightarrow> 'v agent \<Rightarrow> response_message \<Rightarrow> json list \<Rightarrow> state \<Rightarrow>
     ((pyerr + string option) \<times> state) option" where
  "solve env self actions_response_message tools st =
     (let st1 = append_message (UserMsg (solve_prompt (content actions_response_message))) st in
      case get_response env self (messages st1) None None (Some tools) (JStr ''auto'') st1 of
        None \<Rightarrow> None
      | Some (response_message, st2) \<Rightarrow> tool_loop env self tools response_message st2)"

definition query ::
  "'v env \<Rightarrow> 'v agent \<Rightarrow> string \<Rightarrow> state \<Rightarrow> ((pyerr + string option) \<times> state) option" where
  "query env self prompt st =
     (case decompose env self prompt st of
        None \<Rightarrow> None
      | Some (actions_response_message, st1) \<Rightarrow>
          (case search_phase env self st1 of
             None \<Rightarrow> None
           | Some (Inl err, st2) \<Rightarrow> Some (Inl err, st2)
           | Some (Inr tools, st2) \<Rightarrow> solve env self actions_response_message tools st2))"

subsection \<open>The decomposition template of the prompts module (tulip_agent/prompts.py)\<close>

text \<open>
  \<^verbatim>\<open>TASK_DECOMPOSITION.format(prompt=prompt)\<close>. \<^verbatim>\<open>query\<close> does not use the
  template: it builds its instruction itself.
\<close>

definition TASK_DECOMPOSITION :: "string \<Rightarrow> string" where
  "TASK_DECOMPOSITION prompt =
     ''Considering the following user request, what are the necessary atomic actions you need to execute?''
     @ [CHR 0x0A] @ ''`'' @ prompt @ ''`'' @ [CHR 0x0A]
     @ ''Return a numbered list of steps.'' @ [CHR 0x0A]"

section \<open>Vocabulary of the properties\<close>

text \<open>
  \<open>answers env j errs r\<close>: the \<open>j\<close>-th completion the agent asks for raises the
  errors \<open>errs\<close>, one per attempt, and then returns \<open>r\<close>.
\<close>

fun answers_from :: "'v env \<Rightarrow> nat \<Rightarrow> nat \<Rightarrow> string list \<Rightarrow> response_message \<Rightarrow> bool" where
  "answers_from env j k [] r = (api env j k = Completion r)"
| "answers_from env j k (e # es) r = (api env j k = OpenAIError e \<and> answers_from env j (Suc k) es r)"

definition answers :: "'v env \<Rightarrow> nat \<Rightarrow> string list \<Rightarrow> response_message \<Rightarrow> bool" where
  "answers env j errs r = answers_from env j 0 errs r"

text \<open>The effects of obtaining one completion: a call and a log record per error, then the call that succeeds.\<close>

definition attempts :: "request \<Rightarrow> string list \<Rightarrow> event list" where
  "attempts rq errs = concat (map (\<lambda>e. [ApiCall rq, LogError e]) errs) @ [ApiCall rq]"

text \<open>
  The documents of a search call as the specification words them: of the result for
  the \<open>i\<close>-th action description, those that no earlier result of the call contains.
\<close>

definition new_documents :: "string list list \<Rightarrow> nat \<Rightarrow> string list" where
  "new_documents rs i = filter (\<lambda>e. e \<notin> set (concat (take i rs))) (rs ! i)"

definition first_occurrences :: "string list list \<Rightarrow> string list" where
  "first_occurrences rs = concat (map (new_documents rs) [0..<length rs])"

text \<open>The same list, computed from the front with the documents seen so far.\<close>

fun first_occurrences_from :: "string list \<Rightarrow> string list list \<Rightarrow> string list" where
  "first_occurrences_from seen [] = []"
| "first_occurrences_from seen (r # rs) =
     filter (\<lambda>e. e \<notin> set seen) r @ first_occurrences_from (seen @ r) rs"

text \<open>\<open>res\<close> is what \<^verbatim>\<open>search(...)["documents"][0]\<close> evaluates to for \<open>ad\<close>.\<close>

definition search_result :: "'v agent \<Rightarrow> json \<Rightarrow> string list \<Rightarrow> bool" where
  "search_result self ad res =
     (case search (tool_library self) ad (top_k_functions self) of
        Inl err \<Rightarrow> False
      | Inr documents \<Rightarrow> (case documents of [] \<Rightarrow> False | r # _ \<Rightarrow> res = r))"

text \<open>
  What one requested tool call evaluates to: its arguments are parsed and the tool is
  executed on them. \<open>tool_reply tc m\<close>: \<open>m\<close> is the tool message that answers \<open>tc\<close>;
  \<open>tool_invocation tc ev\<close>: \<open>ev\<close> is the call of the library that \<open>tc\<close> asks for.
\<close>

definition tool_result :: "'v env \<Rightarrow> 'v agent \<Rightarrow> tool_call \<Rightarrow> pyerr + 'v" where
  "tool_result env self tc =
     (case json_loads env (tc_arguments tc) of
        Inl err \<Rightarrow> Inl err
      | Inr func_args \<Rightarrow> execute (tool_library self) (tc_name tc) func_args)"

definition tool_call_ok :: "'v env \<Rightarrow> 'v agent \<Rightarrow> tool_call \<Rightarrow> bool" where
  "tool_call_ok env self tc = (case tool_result env self tc of Inl err \<Rightarrow> False | Inr v \<Rightarrow> True)"

definition tool_reply :: "'v env \<Rightarrow> 'v agent \<Rightarrow> tool_call \<Rightarrow> message \<Rightarrow> bool" where
  "tool_reply env self tc m =
     (case tool_result env self tc of
        Inl err \<Rightarrow> False
      | Inr v \<Rightarrow> m = ToolMsg (tc_id tc) (tc_name tc) (py_str env v))"

definition tool_invocation :: "'v env \<Rightarrow> tool_call \<Rightarrow> event \<Rightarrow> bool" where
  "tool_invocation env tc ev =
     (case json_loads env (tc_arguments tc) of
        Inl err \<Rightarrow> False
      | Inr func_args \<Rightarrow> ev = LibExecute (tc_name tc) func_args)"

text \<open>
  What \<^verbatim>\<open>self.search_tools(**args)\<close> returns or raises; the state it runs in only
  collects its effects.
\<close>

definition tools_found :: "'v env \<Rightarrow> 'v agent \<Rightarrow> json \<Rightarrow> pyerr + json list" where
  "tools_found env self args =
     fst (call_search_tools env self args \<lparr>messages = [], trace = [], answered = 0\<rparr>)"

text \<open>
  \<open>served env j later\<close>: the completions \<open>j\<close>, \<open>j + 1\<close>, ... are answered by the
  messages of \<open>later\<close>, each after the errors listed with it. \<open>asks_ok r\<close>: the answer \<open>r\<close>
  requests tool calls, and each of them parses and executes without raising.
\<close>

fun served :: "'v env \<Rightarrow> nat \<Rightarrow> (string list \<times> response_message) list \<Rightarrow> bool" where
  "served env j [] = True"
| "served env j ((errs, r) # later) = (answers env j errs r \<and> served env (Suc j) later)"

definition asks_ok :: "'v env \<Rightarrow> 'v agent \<Rightarrow> response_message \<Rightarrow> bool" where
  "asks_ok env self r = (requested r \<noteq> [] \<and> list_all (tool_call_ok env self) (requested r))"

text \<open>
  How the search phase ends on the search answer \<open>rm\<close>: with the tools found, or with
  the exception that aborts the query.
\<close>

definition search_outcome :: "'v env \<Rightarrow> 'v agent \<Rightarrow> response_message \<Rightarrow> pyerr + json list" where
  "search_outcome env self rm =
     (case tool_calls rm of
        None \<Rightarrow> Inl TypeError
      | Some tcs \<Rightarrow>
          if length tcs \<noteq> 1 then Inl (AssertNotExactlyOne (length tcs))
          else (case json_loads env (tc_arguments (hd tcs)) of
                  Inl err \<Rightarrow> Inl err
                | Inr args \<Rightarrow>
                    if tc_name (hd tcs) \<noteq> ''search_tools''
                    then Inl (AssertUnexpectedToolCall (tc_name (hd tcs)))
                    else tools_found env self args))"

text \<open>
  Of the tool calls \<open>tcs\<close> of one answer: \<open>first_failure\<close> is the exception of the first
  call that raises, if any; \<open>attempted\<close> are the calls the library is called for, those
  before the first that raises and that one too when its arguments parse.
\<close>

definition first_failure :: "'v env \<Rightarrow> 'v agent \<Rightarrow> tool_call list \<Rightarrow> pyerr option" where
  "first_failure env self tcs =
     (case dropWhile (tool_call_ok env self) tcs of
        [] \<Rightarrow> None
      | tc # _ \<Rightarrow> (case tool_result env self tc of Inl err \<Rightarrow> Some err | Inr v \<Rightarrow> None))"

definition attempted :: "'v env \<Rightarrow> 'v agent \<Rightarrow> tool_call list \<Rightarrow> tool_call list" where
  "attempted env self tcs =
     takeWhile (tool_call_ok env self) tcs @
     (case dropWhile (tool_call_ok env self) tcs of
        [] \<Rightarrow> []
      | tc # _ \<Rightarrow> (case json_loads env (tc_arguments tc) of Inl err \<Rightarrow> [] | Inr args \<Rightarrow> [tc]))"

fun is_execution :: "event \<Rightarrow> bool" where
  "is_execution (LibExecute n a) = True"
| "is_execution _ = False"

fun is_library_call :: "event \<Rightarrow> bool" where
  "is_library_call (LibExecute n a) = True"
| "is_library_call (LibSearch d k) = True"
| "is_library_call _ = False"

text \<open>
  \<open>rounds ms\<close>: the transcript of the tool loop on the answers \<open>ms\<close>; each answer is
  followed by the messages in \<open>blocks\<close> at the same position.
\<close>

fun rounds :: "response_message list \<Rightarrow> message list list \<Rightarrow> message list" where
  "rounds (r # rs) (b # bs) = AssistantMsg r # b @ rounds rs bs"
| "rounds _ _ = []"

text \<open>
  \<open>extends st st'\<close>: from \<open>st\<close> to \<open>st'\<close> messages and effects were only appended;
  every completion asked for on the way was sent the messages of \<open>st\<close> first, and the
  messages it was sent are still the front of the messages of \<open>st'\<close>.
\<close>

fun sends_prefix :: "message list \<Rightarrow> event \<Rightarrow> bool" where
  "sends_prefix ms (ApiCall rq) = (take (length ms) (rq_messages rq) = ms)"
| "sends_prefix ms _ = True"

fun sent_within :: "message list \<Rightarrow> event \<Rightarrow> bool" where
  "sent_within final (ApiCall rq) = (take (length (rq_messages rq)) final = rq_messages rq)"
| "sent_within final _ = True"

definition extends :: "state \<Rightarrow> state \<Rightarrow> bool" where
  "extends st st' \<longleftrightarrow>
     take (length (messages st)) (messages st') = messages st \<and>
     take (length (trace st)) (trace st') = trace st \<and>
     list_all (sends_prefix (messages st)) (drop (length (trace st)) (trace st')) \<and>
     list_all (sent_within (messages st')) (drop (length (trace st)) (trace st'))"

text \<open>The message lists sent with the completion requests of a trace, in order.\<close>

fun sent_messages :: "event list \<Rightarrow> message list list" where
  "sent_messages [] = []"
| "sent_messages (ApiCall rq # evs) = rq_messages rq # sent_messages evs"
| "sent_messages (ev # evs) = sent_messages evs"

section \<open>A concrete agent: the example of examples/tamim.py\<close>

text \<open>
  The library holds the two example tools; a tool returns a string, whose \<^verbatim>\<open>str\<close>
  is itself. The documents of the two tools are short JSON texts.
\<close>

definition capital_doc :: string where
  \<open>capital_doc = ''{"name": "capital"}''\<close>

definition language_doc :: string where
  \<open>language_doc = ''{"name": "language"}''\<close>

definition capital_task :: string where
  "capital_task = ''find the capital of a country''"

definition language_task :: string where
  "language_task = ''find the language of a country''"

definition example_search :: "json \<Rightarrow> int \<Rightarrow> pyerr + string list list" where
  "example_search problem_description top_k =
     (if problem_description = JStr capital_task then Inr [take (nat top_k) [capital_doc, language_doc]]
      else if problem_description = JStr language_task then Inr [take (nat top_k) [language_doc, capital_doc]]
      else Inr [[]])"

definition call_with_country :: "(string \<Rightarrow> string) \<Rightarrow> json \<Rightarrow> pyerr + string" where
  "call_with_country f args =
     (case args of
        JObj kvs \<Rightarrow>
          (if map fst kvs = [''country''] then
             (case map_of kvs ''country'' of
                Some (JStr c) \<Rightarrow> Inr (f c)
              | _ \<Rightarrow> Inl TypeError)
           else Inl TypeError)
      | _ \<Rightarrow> Inl TypeError)"

definition example_execute :: "string \<Rightarrow> json \<Rightarrow> pyerr + string" where
  "example_execute function_name function_args =
     (if function_name = ''capital'' then call_with_country capital function_args
      else if function_name = ''language'' then call_with_country language function_args
      else Inl (OtherError function_name))"

definition example_agent :: "string agent" where
  "example_agent =
     \<lparr>agent_model = ''gpt-4-0125-preview'',
      temperature = 0,
      instructions = ''You are a helpful agent.'',
      tool_library = \<lparr>search = example_search, execute = example_execute\<rparr>,
      top_k_functions = 3\<rparr>"

text \<open>
  \<^verbatim>\<open>json.loads\<close> on the texts the examples use: the table gives the value of each
  well-formed text; \<open>truncated_arguments\<close>, a text cut off after its first key, is
  not JSON and raises. The stand-in raises on every text outside the table; the examples
  apply it to the texts of the table and to \<open>truncated_arguments\<close> only.
\<close>

definition search_arguments :: string where
  \<open>search_arguments = ''{"action_descriptions": ["find the capital of a country"]}''\<close>

definition overlapping_search_arguments :: string where
  \<open>overlapping_search_arguments =
     ''{"action_descriptions": ["find the capital of a country", "find the language of a country"]}''\<close>

definition required_only_arguments :: string where
  \<open>required_only_arguments = ''{"problem_description": "find the capital of a country"}''\<close>

definition france_arguments :: string where
  \<open>france_arguments = ''{"country": "France"}''\<close>

definition italy_arguments :: string where
  \<open>italy_arguments = ''{"country": "Italy"}''\<close>

definition truncated_arguments :: string where
  \<open>truncated_arguments = ''{"country": ''\<close>

definition example_json :: "(string \<times> json) list" where
  "example_json =
     [(capital_doc, JObj [(''name'', JStr ''capital'')]),
      (language_doc, JObj [(''name'', JStr ''language'')]),
      (search_arguments, JObj [(''action_descriptions'', JArr [JStr capital_task])]),
      (overlapping_search_arguments,
       JObj [(''action_descriptions'', JArr [JStr capital_task, JStr language_task])]),
      (required_only_arguments, JObj [(''problem_description'', JStr capital_task)]),
      (france_arguments, JObj [(''country'', JStr ''France'')]),
      (italy_arguments, JObj [(''country'', JStr ''Italy'')])]"

definition example_loads :: "string \<Rightarrow> pyerr + json" where
  "example_loads s = (case map_of example_json s of None \<Rightarrow> Inl JSONDecodeError | Some v \<Rightarrow> Inr v)"

text \<open>
  A scripted API: the \<open>j\<close>-th list holds the outcomes of the attempts for the \<open>j\<close>-th
  completion; past the end of the script every attempt raises.
\<close>

fun scripted_attempt :: "api_outcome list \<Rightarrow> nat \<Rightarrow> api_outcome" where
  "scripted_attempt [] k = OpenAIError ''Connection error.''"
| "scripted_attempt (x # xs) 0 = x"
| "scripted_attempt (x # xs) (Suc k) = scripted_attempt xs k"

fun scripted_api :: "api_outcome list list \<Rightarrow> nat \<Rightarrow> nat \<Rightarrow> api_outcome" where
  "scripted_api [] j k = OpenAIError ''Connection error.''"
| "scripted_api (s # ss) 0 k = scripted_attempt s k"
| "scripted_api (s # ss) (Suc j) k = scripted_api ss j k"

definition example_env :: "api_outcome list list \<Rightarrow> string env" where
  "example_env script = \<lparr>api = scripted_api script, json_loads = example_loads, py_str = (\<lambda>s. s)\<rparr>"

definition text_answer :: "string \<Rightarrow> response_message" where
  "text_answer s = \<lparr>content = Some s, tool_calls = None\<rparr>"

definition calls_answer :: "tool_call list \<Rightarrow> response_message" where
  "calls_answer tcs = \<lparr>content = None, tool_calls = Some tcs\<rparr>"

definition steps_answer :: response_message where
  "steps_answer = text_answer ''1. Find the capital of France.''"

definition search_call :: "string \<Rightarrow> tool_call" where
  "search_call args = \<lparr>tc_id = ''call_1'', tc_name = ''search_tools'', tc_arguments = args\<rparr>"

definition capital_call :: "string \<Rightarrow> tool_call" where
  "capital_call args = \<lparr>tc_id = ''call_2'', tc_name = ''capital'', tc_arguments = args\<rparr>"

definition language_call :: "string \<Rightarrow> tool_call" where
  "language_call args = \<lparr>tc_id = ''call_3'', tc_name = ''language'', tc_arguments = args\<rparr>"

definition paris_answer :: response_message where
  "paris_answer = text_answer ''The capital of France is Paris.''"

text \<open>
  The run of the example: the search is answered after one API error, the model then
  asks for \<open>capital\<close> on France and answers. A second query follows on the same agent.
\<close>

definition example_script :: "api_outcome list list" where
  "example_script =
     [[Completion steps_answer],
      [OpenAIError ''Rate limit reached.'', Completion (calls_answer [search_call search_arguments])],
      [Completion (calls_answer [capital_call france_arguments])],
      [Completion paris_answer],
      [Completion (text_answer ''1. Find the language of Italy.'')],
      [Completion (calls_answer [search_call overlapping_search_arguments])],
      [Completion (calls_answer [language_call italy_arguments])],
      [Completion (text_answer ''Italian is spoken in Italy.'')]]"

text \<open>
  A run in which the answer to the decomposition request carries a tool call of its own,
  for \<open>language\<close> on Italy, next to the list of steps.
\<close>

definition eager_steps_answer :: response_message where
  "eager_steps_answer =
     \<lparr>content = Some ''1. Find the capital of France.'',
      tool_calls = Some [language_call italy_arguments]\<rparr>"

definition eager_script :: "api_outcome list list" where
  "eager_script =
     [[OpenAIError ''Rate limit reached.'', Completion eager_steps_answer],
      [Completion (calls_answer [search_call search_arguments])],
      [Completion (calls_answer [capital_call france_arguments])],
      [Completion paris_answer]]"

section \<open>The example tools return Unknown for other countries\<close>

text \<open>
  Claim C9. For every country string that is not one of France, Germany, Italy and
  Japan, both \<open>capital\<close> and \<open>language\<close> return the string Unknown (they are total:
  no input makes them fail); for the four listed countries they return the capital and
  the language of the table.
\<close>

theorem capital_language_lookup:
  "(country \<notin> {''France'', ''Germany'', ''Italy'', ''Japan''} \<longrightarrow>
      capital country = ''Unknown'' \<and> language country = ''Unknown'') \<and>
   capital ''France'' = ''Paris'' \<and> language ''France'' = ''French'' \<and>
   capital ''Germany'' = ''Berlin'' \<and> language ''Germany'' = ''German'' \<and>
   capital ''Italy'' = ''Rome'' \<and> language ''Italy'' = ''Italian'' \<and>
   capital ''Japan'' = ''Tokyo'' \<and> language ''Japan'' = ''Japanese''"
  by (simp add: capital_def language_def dict_get_def capitals_def languages_def)

theorem capital_language_lookup_witness:
  "''Spain'' \<notin> {''France'', ''Germany'', ''Italy'', ''Japan''} \<and>
   capital ''Spain'' = ''Unknown'' \<and> language ''Spain'' = ''Unknown''"
  using capital_language_lookup [of "''Spain''"] by simp

section \<open>Obtaining a completion\<close>

lemma attempts_Nil: "attempts rq [] = [ApiCall rq]"
  by (simp add: attempts_def)

lemma attempts_Cons: "attempts rq (e # es) = ApiCall rq # LogError e # attempts rq es"
  by (simp add: attempts_def)

lemma get_response_loop_answers:
  "answers_from env (answered st) k errs r \<Longrightarrow>
   get_response_loop env rq k st =
     Some (r, st\<lparr>trace := trace st @ attempts rq errs, answered := Suc (answered st)\<rparr>)"
proof (induction errs arbitrary: k st)
  case Nil
  then show ?case by (subst get_response_loop.simps) (simp add: emit_def attempts_Nil)
next
  case (Cons e es)
  let ?st = "emit (LogError e) (emit (ApiCall rq) st)"
  have a: "answered ?st = answered st" by (simp add: emit_def)
  have "get_response_loop env rq (Suc k) ?st =
     Some (r, ?st\<lparr>trace := trace ?st @ attempts rq es, answered := Suc (answered ?st)\<rparr>)"
    by (rule Cons.IH) (use Cons.prems a in simp)
  then show ?case using Cons.prems
    by (subst get_response_loop.simps) (simp add: emit_def attempts_Cons)
qed

lemma get_response_loop_sound_aux:
  assumes "get_response_loop env rq k st = Some y"
  shows "\<exists>errs. answers_from env (answered st) k errs (fst y) \<and>
          snd y = st\<lparr>trace := trace st @ attempts rq errs, answered := Suc (answered st)\<rparr>"
proof (rule get_response_loop.raw_induct[OF _ assms])
  fix loop :: "'a env \<Rightarrow> request \<Rightarrow> nat \<Rightarrow> state \<Rightarrow> (response_message \<times> state) option"
    and env rq k st y
  assume 1: "\<And>env rq k st y. loop env rq k st = Some y \<Longrightarrow>
       \<exists>errs. answers_from env (answered st) k errs (fst y) \<and>
          snd y = st\<lparr>trace := trace st @ attempts rq errs, answered := Suc (answered st)\<rparr>"
    "(case api env (answered st) k of
        OpenAIError e \<Rightarrow> loop env rq (Suc k) (emit (LogError e) (emit (ApiCall rq) st))
      | Completion r \<Rightarrow> Some (r, (emit (ApiCall rq) st)\<lparr>answered := Suc (answered st)\<rparr>)) = Some y"
  show "\<exists>errs. answers_from env (answered st) k errs (fst y) \<and>
          snd y = st\<lparr>trace := trace st @ attempts rq errs, answered := Suc (answered st)\<rparr>"
  proof (cases "api env (answered st) k")
    case (OpenAIError e)
    let ?st = "emit (LogError e) (emit (ApiCall rq) st)"
    from OpenAIError 1(2) have "loop env rq (Suc k) ?st = Some y" by simp
    from 1(1)[OF this] obtain errs where
      A: "answers_from env (answered ?st) (Suc k) errs (fst y)" and
      B: "snd y = ?st\<lparr>trace := trace ?st @ attempts rq errs, answered := Suc (answered ?st)\<rparr>"
      by blast
    from A have "answers_from env (answered st) k (e # errs) (fst y)"
      using OpenAIError by (simp add: emit_def)
    moreover from B have "snd y = st\<lparr>trace := trace st @ attempts rq (e # errs), answered := Suc (answered st)\<rparr>"
      by (simp add: emit_def attempts_Cons)
    ultimately show ?thesis by blast
  next
    case (Completion r')
    with 1(2) have "answers_from env (answered st) k [] (fst y)"
      "snd y = st\<lparr>trace := trace st @ attempts rq [], answered := Suc (answered st)\<rparr>"
      by (auto simp: emit_def attempts_Nil)
    then show ?thesis by blast
  qed
qed

lemma never_answers:
  assumes "\<forall>k. \<exists>e. api env j k = OpenAIError e"
  shows "\<not> answers_from env j k errs r"
proof (induction errs arbitrary: k)
  case Nil
  from assms obtain e where "api env j k = OpenAIError e" by blast
  then show ?case by simp
next
  case (Cons e es)
  then show ?case by simp
qed

lemma get_response_answers:
  "answers env (answered st) errs r \<Longrightarrow>
   get_response env self msgs model temp tools tool_choice st =
     Some (r, st\<lparr>trace := trace st @ attempts (make_request self msgs model temp tools tool_choice) errs,
                 answered := Suc (answered st)\<rparr>)"
  unfolding get_response_def answers_def by (rule get_response_loop_answers)

lemma get_response_sound:
  assumes "get_response env self msgs model temp tools tool_choice st = Some (r, st')"
  shows "\<exists>errs. answers env (answered st) errs r \<and>
     st' = st\<lparr>trace := trace st @ attempts (make_request self msgs model temp tools tool_choice) errs,
               answered := Suc (answered st)\<rparr>"
  using get_response_loop_sound_aux[OF assms[unfolded get_response_def]]
  by (simp add: answers_def)

text \<open>
  Claim C4. When the completion API raises an API error, \<open>get_response\<close> logs it and
  repeats the same call: whatever the number of errors before the first completion, the
  completion is returned, after one identical call and one log record per error and
  nothing else. What it returns is always a completion the API gave, never an error;
  and when every attempt raises, it never returns.
\<close>

theorem get_response_retries_until_answered:
  "(answers env (answered st) errs r \<longrightarrow>
      get_response env self msgs model temp tools tool_choice st =
        Some (r, st\<lparr>trace := trace st @ attempts (make_request self msgs model temp tools tool_choice) errs,
                    answered := Suc (answered st)\<rparr>)) \<and>
   (get_response env self msgs model temp tools tool_choice st = Some (r', st') \<longrightarrow>
      (\<exists>errs'. answers env (answered st) errs' r')) \<and>
   ((\<forall>k. \<exists>e. api env (answered st) k = OpenAIError e) \<longrightarrow>
      get_response env self msgs model temp tools tool_choice st = None)"
proof (intro conjI impI)
  assume "answers env (answered st) errs r"
  then show "get_response env self msgs model temp tools tool_choice st =
        Some (r, st\<lparr>trace := trace st @ attempts (make_request self msgs model temp tools tool_choice) errs,
                    answered := Suc (answered st)\<rparr>)"
    by (rule get_response_answers)
next
  assume "get_response env self msgs model temp tools tool_choice st = Some (r', st')"
  from get_response_sound[OF this] show "\<exists>errs'. answers env (answered st) errs' r'" by blast
next
  assume never: "\<forall>k. \<exists>e. api env (answered st) k = OpenAIError e"
  show "get_response env self msgs model temp tools tool_choice st = None"
  proof (cases "get_response env self msgs model temp tools tool_choice st")
    case None
    then show ?thesis .
  next
    case (Some y)
    then have "get_response env self msgs model temp tools tool_choice st = Some (fst y, snd y)" by simp
    from get_response_sound[OF this] never_answers[OF never] show ?thesis
      by (auto simp: answers_def)
  qed
qed


theorem get_response_retries_until_answered_witness:
  "answers (example_env [[OpenAIError ''Rate limit reached.'', OpenAIError ''Connection error.'',
                          Completion steps_answer]])
     (answered (init_state example_agent)) [''Rate limit reached.'', ''Connection error.''] steps_answer \<and>
   (let rq = \<lparr>rq_model = ''gpt-4-0125-preview'',
              rq_messages = [SystemMsg ''You are a helpful agent.''],
              rq_tools = Some [search_tools_description],
              rq_temperature = 0,
              rq_tool_choice = JStr ''auto''\<rparr>
    in get_response
         (example_env [[OpenAIError ''Rate limit reached.'', OpenAIError ''Connection error.'',
                        Completion steps_answer]])
         example_agent [SystemMsg ''You are a helpful agent.''] None None
         (Some [search_tools_description]) (JStr ''auto'') (init_state example_agent) =
       Some (steps_answer,
             \<lparr>messages = [SystemMsg ''You are a helpful agent.''],
              trace = [ApiCall rq, LogError ''Rate limit reached.'',
                       ApiCall rq, LogError ''Connection error.'', ApiCall rq],
              answered = 1\<rparr>)) \<and>
   (\<forall>k. \<exists>e. api (example_env []) (answered (init_state example_agent)) k = OpenAIError e) \<and>
   get_response (example_env []) example_agent [SystemMsg ''You are a helpful agent.''] None None
     (Some [search_tools_description]) (JStr ''none'') (init_state example_agent) = None"
proof -
  let ?env = "example_env [[OpenAIError ''Rate limit reached.'', OpenAIError ''Connection error.'',
                          Completion steps_answer]]"
  have a: "answers ?env (answered (init_state example_agent))
       [''Rate limit reached.'', ''Connection error.''] steps_answer"
    by (simp add: answers_def example_env_def init_state_def)
  have n: "\<forall>k. \<exists>e. api (example_env []) (answered (init_state example_agent)) k = OpenAIError e"
    by (simp add: example_env_def)
  note t1 = get_response_retries_until_answered
      [of ?env "init_state example_agent" "[''Rate limit reached.'', ''Connection error.'']" steps_answer
          example_agent "[SystemMsg ''You are a helpful agent.'']" None None
          "Some [search_tools_description]" "JStr ''auto''", THEN conjunct1, THEN mp, OF a]
  note t2 = get_response_retries_until_answered
      [of "example_env []" "init_state example_agent" _ _
          example_agent "[SystemMsg ''You are a helpful agent.'']" None None
          "Some [search_tools_description]" "JStr ''none''", THEN conjunct2, THEN conjunct2, THEN mp, OF n]
  from t1 have r1: "get_response ?env example_agent [SystemMsg ''You are a helpful agent.''] None None
         (Some [search_tools_description]) (JStr ''auto'') (init_state example_agent) =
       Some (steps_answer,
             \<lparr>messages = [SystemMsg ''You are a helpful agent.''],
              trace = attempts \<lparr>rq_model = ''gpt-4-0125-preview'',
                rq_messages = [SystemMsg ''You are a helpful agent.''],
                rq_tools = Some [search_tools_description],
                rq_temperature = 0,
                rq_tool_choice = JStr ''auto''\<rparr> [''Rate limit reached.'', ''Connection error.''],
              answered = 1\<rparr>)"
    by (simp add: init_state_def example_agent_def make_request_def)
  show ?thesis
    using a n t2 by (simp add: r1 Let_def attempts_def)
qed

section \<open>Decompose\<close>

lemma decompose_answers:
  assumes "answers env (answered st) errs r"
  shows "decompose env self prompt st =
     Some (r, st\<lparr>messages := messages st @ [UserMsg (decomposition_prompt prompt), AssistantMsg r],
                 trace := trace st @ [LogInfo (QueryInfo prompt)]
                    @ attempts \<lparr>rq_model = agent_model self,
                                rq_messages = messages st @ [UserMsg (decomposition_prompt prompt)],
                                rq_tools = Some [search_tools_description],
                                rq_temperature = temperature self,
                                rq_tool_choice = JStr ''none''\<rparr> errs
                    @ [LogInfo (ActionsInfo r)],
                 answered := Suc (answered st)\<rparr>)"
proof -
  let ?st1 = "append_message (UserMsg (decomposition_prompt prompt)) (emit (LogInfo (QueryInfo prompt)) st)"
  have "answers env (answered ?st1) errs r"
    using assms by (simp add: append_message_def emit_def)
  from get_response_answers[OF this]
  show ?thesis
    by (simp add: decompose_def Let_def append_message_def emit_def make_request_def)
qed

lemma no_library_call_in_attempts: "filter is_library_call (attempts rq errs) = []"
  by (induction errs) (simp_all add: attempts_Nil attempts_Cons)

lemma decomposition_prompt_differs: "decomposition_prompt prompt \<noteq> TASK_DECOMPOSITION prompt"
  by (simp add: decomposition_prompt_def TASK_DECOMPOSITION_def)

section \<open>The search for tools\<close>

lemma search_loop_result_state:
  "fst (search_loop env self ads json_res hash_res st) =
   fst (search_loop env self ads json_res hash_res st0)"
proof (induction ads arbitrary: json_res hash_res st st0)
  case Nil
  show ?case by simp
next
  case (Cons ad ads)
  show ?case
    by (simp add: Let_def Cons.IH[of _ _ "emit _ (emit _ st)" "emit _ (emit _ st0)"]
             split: sum.split list.split)
qed

lemma call_search_tools_found:
  "fst (call_search_tools env self args st) = tools_found env self args"
  by (simp add: tools_found_def call_search_tools_def search_tools_def
        search_loop_result_state[of env self _ "[]" "[]" st "\<lparr>messages = [], trace = [], answered = 0\<rparr>"]
      split: json.split option.split sum.split)

lemma search_calls_single:
  "fst (search_calls env self [tc] tools st) =
     (case json_loads env (tc_arguments tc) of
        Inl err \<Rightarrow> Inl err
      | Inr args \<Rightarrow>
          if tc_name tc \<noteq> ''search_tools'' then Inl (AssertUnexpectedToolCall (tc_name tc))
          else (case tools_found env self args of Inl err \<Rightarrow> Inl err | Inr found \<Rightarrow> Inr (tools @ found)))"
proof (cases "json_loads env (tc_arguments tc)")
  case (Inl err)
  then show ?thesis by simp
next
  case (Inr args)
  let ?st = "emit (LogInfo (ToolSearchInfo args)) st"
  have "fst (call_search_tools env self args ?st) = tools_found env self args"
    by (rule call_search_tools_found)
  then show ?thesis using Inr
    by (cases "call_search_tools env self args ?st") (auto split: sum.split)
qed

lemma search_phase_answers:
  assumes "answers env (answered st) errs rm"
  shows "map_option fst (search_phase env self st) =
     Some (case tool_calls rm of
             None \<Rightarrow> Inl TypeError
           | Some tcs \<Rightarrow>
               if length tcs \<noteq> 1 then Inl (AssertNotExactlyOne (length tcs))
               else (case json_loads env (tc_arguments (hd tcs)) of
                       Inl err \<Rightarrow> Inl err
                     | Inr args \<Rightarrow>
                         if tc_name (hd tcs) \<noteq> ''search_tools''
                         then Inl (AssertUnexpectedToolCall (tc_name (hd tcs)))
                         else tools_found env self args))"
proof -
  let ?st1 = "append_message (UserMsg search_prompt) st"
  have "answers env (answered ?st1) errs rm"
    using assms by (simp add: append_message_def)
  note g = get_response_answers[OF this, of self "messages ?st1" None None
      "Some [search_tools_description]" search_tools_choice]
  show ?thesis
  proof (cases "tool_calls rm")
    case None
    then show ?thesis by (simp add: search_phase_def Let_def g)
  next
    case (Some tcs)
    show ?thesis
    proof (cases "length tcs = 1")
      case False
      then show ?thesis using Some by (simp add: search_phase_def Let_def g)
    next
      case True
      then obtain tc where tcs: "tcs = [tc]"
        by (cases tcs) auto
      have "map_option fst (search_phase env self st) =
          Some (fst (search_calls env self [tc] [] (append_message (AssistantMsg rm)
             (?st1\<lparr>trace := trace ?st1 @ attempts (make_request self (messages ?st1) None None
                 (Some [search_tools_description]) search_tools_choice) errs,
                 answered := Suc (answered ?st1)\<rparr>))))"
        using Some tcs by (simp add: search_phase_def Let_def g)
      then show ?thesis using Some tcs
        by (simp only: search_calls_single) (simp split: sum.split)
    qed
  qed
qed


text \<open>
  Claim C1, as amended. Once the search answer \<open>rm\<close> has arrived, the phase aborts the
  query unless \<open>rm\<close> carries exactly one tool call named \<^verbatim>\<open>search_tools\<close>: with no
  tool-call list by the \<^verbatim>\<open>TypeError\<close> of \<^verbatim>\<open>len(None)\<close>, with a list of another
  length by the first assertion, with one call of another name by the second assertion
  (or, before it, by the error of parsing its arguments). With exactly one
  \<^verbatim>\<open>search_tools\<close> call no assertion fails, and the phase ends as parsing the
  arguments and searching with them ends: with the tools found, or with the exception
  that either of them raises.
\<close>

theorem search_phase_assertions:
  "answers env (answered st) errs rm \<Longrightarrow>
   (tool_calls rm = None \<longrightarrow>
      map_option fst (search_phase env self st) = Some (Inl TypeError)) \<and>
   (tool_calls rm = Some tcs \<and> length tcs \<noteq> 1 \<longrightarrow>
      map_option fst (search_phase env self st) = Some (Inl (AssertNotExactlyOne (length tcs)))) \<and>
   (tool_calls rm = Some [tc] \<and> tc_name tc \<noteq> ''search_tools'' \<longrightarrow>
      map_option fst (search_phase env self st) =
        Some (Inl (case json_loads env (tc_arguments tc) of
                     Inl err \<Rightarrow> err
                   | Inr args \<Rightarrow> AssertUnexpectedToolCall (tc_name tc)))) \<and>
   (tool_calls rm = Some [tc] \<and> tc_name tc = ''search_tools'' \<longrightarrow>
      map_option fst (search_phase env self st) =
        Some (case json_loads env (tc_arguments tc) of
                Inl err \<Rightarrow> Inl err
              | Inr args \<Rightarrow> tools_found env self args))"
  by (simp add: search_phase_answers split: sum.split)

lemma example_tools_found:
  "tools_found (example_env script) example_agent (JObj [(''action_descriptions'', JArr [JStr capital_task])]) =
     Inr [JObj [(''name'', JStr ''capital'')], JObj [(''name'', JStr ''language'')]]"
  by (simp add: tools_found_def call_search_tools_def search_tools_def example_env_def example_agent_def
        example_search_def example_loads_def example_json_def capital_doc_def language_doc_def
        search_arguments_def overlapping_search_arguments_def required_only_arguments_def
        france_arguments_def italy_arguments_def capital_task_def language_task_def emit_def Let_def)

lemma example_loads_search_arguments:
  "example_loads search_arguments = Inr (JObj [(''action_descriptions'', JArr [JStr capital_task])])"
  by (simp add: example_loads_def example_json_def capital_doc_def language_doc_def
        search_arguments_def)

lemma example_loads_france_arguments:
  "example_loads france_arguments = Inr (JObj [(''country'', JStr ''France'')])"
  by (simp add: example_loads_def example_json_def capital_doc_def language_doc_def
        search_arguments_def overlapping_search_arguments_def required_only_arguments_def
        france_arguments_def)

theorem search_phase_assertions_witness:
  "answers (example_env [[Completion steps_answer]]) (answered (init_state example_agent)) [] steps_answer \<and>
   tool_calls steps_answer = None \<and>
   map_option fst (search_phase (example_env [[Completion steps_answer]]) example_agent
     (init_state example_agent)) = Some (Inl TypeError) \<and>
   answers (example_env [[Completion (calls_answer [])]]) (answered (init_state example_agent)) []
     (calls_answer []) \<and>
   tool_calls (calls_answer []) = Some [] \<and> length ([] :: tool_call list) \<noteq> 1 \<and>
   map_option fst (search_phase (example_env [[Completion (calls_answer [])]]) example_agent
     (init_state example_agent)) = Some (Inl (AssertNotExactlyOne 0)) \<and>
   answers (example_env [[Completion (calls_answer [capital_call france_arguments])]])
     (answered (init_state example_agent)) [] (calls_answer [capital_call france_arguments]) \<and>
   tool_calls (calls_answer [capital_call france_arguments]) = Some [capital_call france_arguments] \<and>
   tc_name (capital_call france_arguments) \<noteq> ''search_tools'' \<and>
   map_option fst (search_phase (example_env [[Completion (calls_answer [capital_call france_arguments])]])
     example_agent (init_state example_agent)) = Some (Inl (AssertUnexpectedToolCall ''capital'')) \<and>
   answers (example_env [[Completion (calls_answer [search_call search_arguments])]])
     (answered (init_state example_agent)) [] (calls_answer [search_call search_arguments]) \<and>
   tool_calls (calls_answer [search_call search_arguments]) = Some [search_call search_arguments] \<and>
   tc_name (search_call search_arguments) = ''search_tools'' \<and>
   map_option fst (search_phase (example_env [[Completion (calls_answer [search_call search_arguments])]])
     example_agent (init_state example_agent)) =
     Some (Inr [JObj [(''name'', JStr ''capital'')], JObj [(''name'', JStr ''language'')]])"
proof -
  have a: "answers (example_env [[Completion r]]) (answered (init_state example_agent)) [] r" for r
    by (simp add: answers_def example_env_def init_state_def)
  have l: "json_loads (example_env script) = example_loads" for script
    by (simp add: example_env_def)
  have 1: "map_option fst (search_phase (example_env [[Completion steps_answer]]) example_agent
     (init_state example_agent)) = Some (Inl TypeError)"
    using search_phase_assertions[OF a[of steps_answer], where self = example_agent] by (simp add: steps_answer_def text_answer_def)
  have 2: "map_option fst (search_phase (example_env [[Completion (calls_answer [])]]) example_agent
     (init_state example_agent)) = Some (Inl (AssertNotExactlyOne 0))"
    using search_phase_assertions[OF a[of "calls_answer []"], where self = example_agent and tcs = "[]"] by (simp add: calls_answer_def)
  have 3: "map_option fst (search_phase (example_env [[Completion (calls_answer [capital_call france_arguments])]])
     example_agent (init_state example_agent)) = Some (Inl (AssertUnexpectedToolCall ''capital''))"
    using search_phase_assertions[OF a[of "calls_answer [capital_call france_arguments]"],
        where self = example_agent and tc = "capital_call france_arguments"]
    by (simp add: calls_answer_def l capital_call_def example_loads_france_arguments)
  have 4: "map_option fst (search_phase (example_env [[Completion (calls_answer [search_call search_arguments])]])
     example_agent (init_state example_agent)) =
     Some (Inr [JObj [(''name'', JStr ''capital'')], JObj [(''name'', JStr ''language'')]])"
    using search_phase_assertions[OF a[of "calls_answer [search_call search_arguments]"],
        where self = example_agent and tc = "search_call search_arguments"]
    by (simp add: calls_answer_def l search_call_def example_loads_search_arguments example_tools_found)
  show ?thesis
    using a 1 2 3 4
    by (simp add: steps_answer_def text_answer_def calls_answer_def capital_call_def search_call_def)
qed

theorem one_search_call_may_abort:
  "tool_calls (calls_answer [search_call required_only_arguments]) = Some [search_call required_only_arguments] \<and>
   tc_name (search_call required_only_arguments) = ''search_tools'' \<and>
   map_option fst
     (search_phase (example_env [[Completion (calls_answer [search_call required_only_arguments])]])
        example_agent (init_state example_agent)) = Some (Inl TypeError)"
  by code_simp

section \<open>The published schema of the tool search\<close>

lemma call_search_tools_other_key:
  "\<exists>k \<in> set (map fst kvs). k \<noteq> ''action_descriptions'' \<Longrightarrow>
   call_search_tools env self (JObj kvs) st = (Inl TypeError, st)"
  by (auto simp: call_search_tools_def list_all_iff)

lemma schema_required_value:
  "schema_required search_tools_description = [''problem_description'']"
  by (simp add: schema_required_def schema_parameters_def search_tools_description_def)

lemma schema_properties_value:
  "schema_properties search_tools_description = [''action_descriptions'']"
  by (simp add: schema_properties_def schema_parameters_def search_tools_description_def)

text \<open>
  Claim C10. The published schema of \<^verbatim>\<open>search_tools\<close> requires
  \<^verbatim>\<open>problem_description\<close>, which is not among its properties (only
  \<^verbatim>\<open>action_descriptions\<close> is), and \<^verbatim>\<open>search_tools\<close> accepts no other keyword than
  \<^verbatim>\<open>action_descriptions\<close>. So unpacking an argument object whose keys are exactly the
  required ones fails with \<^verbatim>\<open>TypeError\<close>, and a search answer whose one
  \<^verbatim>\<open>search_tools\<close> call carries such arguments aborts the query.
\<close>

theorem search_tools_schema_inconsistent:
  "schema_required search_tools_description = [''problem_description''] \<and>
   schema_properties search_tools_description = [''action_descriptions''] \<and>
   ((\<exists>k \<in> set (map fst kvs). k \<noteq> ''action_descriptions'') \<longrightarrow>
      call_search_tools env self (JObj kvs) st = (Inl TypeError, st)) \<and>
   (set (map fst kvs) = set (schema_required search_tools_description) \<longrightarrow>
      call_search_tools env self (JObj kvs) st = (Inl TypeError, st) \<and>
      (answers env (answered st) errs rm \<and> tool_calls rm = Some [tc] \<and>
       tc_name tc = ''search_tools'' \<and> json_loads env (tc_arguments tc) = Inr (JObj kvs) \<longrightarrow>
         map_option fst (search_phase env self st) = Some (Inl TypeError)))"
proof (intro conjI impI)
  show "schema_required search_tools_description = [''problem_description'']"
    by (rule schema_required_value)
  show "schema_properties search_tools_description = [''action_descriptions'']"
    by (rule schema_properties_value)
  show "call_search_tools env self (JObj kvs) st = (Inl TypeError, st)"
    if "\<exists>k \<in> set (map fst kvs). k \<noteq> ''action_descriptions''"
    using that by (rule call_search_tools_other_key)
  assume keys: "set (map fst kvs) = set (schema_required search_tools_description)"
  then have other: "\<exists>k \<in> set (map fst kvs). k \<noteq> ''action_descriptions''"
    by (simp add: schema_required_value)
  then show "call_search_tools env self (JObj kvs) st = (Inl TypeError, st)"
    by (rule call_search_tools_other_key)
  assume h: "answers env (answered st) errs rm \<and> tool_calls rm = Some [tc] \<and>
       tc_name tc = ''search_tools'' \<and> json_loads env (tc_arguments tc) = Inr (JObj kvs)"
  then have a: "answers env (answered st) errs rm" by simp
  have "tools_found env self (JObj kvs) = Inl TypeError"
    by (simp add: tools_found_def call_search_tools_other_key[OF other])
  with h search_phase_answers[OF a, of self]
  show "map_option fst (search_phase env self st) = Some (Inl TypeError)"
    by simp
qed

lemma example_loads_required_only_arguments:
  "example_loads required_only_arguments = Inr (JObj [(''problem_description'', JStr capital_task)])"
  by (simp add: example_loads_def example_json_def capital_doc_def language_doc_def
        search_arguments_def overlapping_search_arguments_def required_only_arguments_def)

theorem search_tools_schema_inconsistent_witness:
  "set (map fst [(''problem_description'', JStr capital_task)]) = set (schema_required search_tools_description) \<and>
   (\<exists>k \<in> set (map fst [(''problem_description'', JStr capital_task)]). k \<noteq> ''action_descriptions'') \<and>
   answers (example_env [[Completion (calls_answer [search_call required_only_arguments])]])
     (answered (init_state example_agent)) [] (calls_answer [search_call required_only_arguments]) \<and>
   tool_calls (calls_answer [search_call required_only_arguments]) = Some [search_call required_only_arguments] \<and>
   tc_name (search_call required_only_arguments) = ''search_tools'' \<and>
   json_loads (example_env [[Completion (calls_answer [search_call required_only_arguments])]])
     (tc_arguments (search_call required_only_arguments)) = Inr (JObj [(''problem_description'', JStr capital_task)]) \<and>
   call_search_tools (example_env [[Completion (calls_answer [search_call required_only_arguments])]])
     example_agent (JObj [(''problem_description'', JStr capital_task)]) (init_state example_agent) =
     (Inl TypeError, init_state example_agent) \<and>
   map_option fst (search_phase (example_env [[Completion (calls_answer [search_call required_only_arguments])]])
     example_agent (init_state example_agent)) = Some (Inl TypeError)"
proof -
  let ?rm = "calls_answer [search_call required_only_arguments]"
  let ?env = "example_env [[Completion ?rm]]"
  let ?kvs = "[(''problem_description'', JStr capital_task)]"
  have k: "set (map fst ?kvs) = set (schema_required search_tools_description)"
    by (simp add: schema_required_value)
  have a: "answers ?env (answered (init_state example_agent)) [] ?rm \<and>
     tool_calls ?rm = Some [search_call required_only_arguments] \<and>
     tc_name (search_call required_only_arguments) = ''search_tools'' \<and>
     json_loads ?env (tc_arguments (search_call required_only_arguments)) = Inr (JObj ?kvs)"
    by (simp add: answers_def example_env_def init_state_def calls_answer_def search_call_def
          example_loads_required_only_arguments)
  note t = search_tools_schema_inconsistent[where kvs = ?kvs and env = ?env and self = example_agent
      and st = "init_state example_agent" and errs = "[]" and rm = ?rm
      and tc = "search_call required_only_arguments"]
  from t k a show ?thesis by simp
qed

section \<open>Deduplication in the tool search\<close>

lemma loads_all_parsed:
  "loads_all loads ds = Inr vs \<Longrightarrow> list_all2 (\<lambda>d v. loads d = Inr v) ds vs"
  by (induction ds arbitrary: vs) (auto split: sum.splits)

lemma parsed_loads_all:
  "list_all2 (\<lambda>d v. loads d = Inr v) ds vs \<Longrightarrow> loads_all loads ds = Inr vs"
  by (induction ds vs rule: list_all2_induct) simp_all

lemma loads_all_iff:
  "loads_all loads ds = Inr vs \<longleftrightarrow> list_all2 (\<lambda>d v. loads d = Inr v) ds vs"
  using loads_all_parsed parsed_loads_all by blast

lemma loads_all_append_eq:
  "loads_all loads (xs @ ys) =
     (case loads_all loads xs of
        Inl err \<Rightarrow> Inl err
      | Inr as \<Rightarrow> (case loads_all loads ys of Inl err \<Rightarrow> Inl err | Inr bs \<Rightarrow> Inr (as @ bs)))"
  by (induction xs) (simp_all split: sum.split)

lemma loads_all_append:
  "loads_all loads (xs @ ys) = Inr vs \<longleftrightarrow>
     (\<exists>as bs. loads_all loads xs = Inr as \<and> loads_all loads ys = Inr bs \<and> vs = as @ bs)"
  by (auto simp: loads_all_append_eq split: sum.splits)

lemma first_occurrences_from_eq:
  "first_occurrences_from seen rs =
     concat (map (\<lambda>i. filter (\<lambda>e. e \<notin> set seen \<and> e \<notin> set (concat (take i rs))) (rs ! i)) [0..<length rs])"
proof (induction rs arbitrary: seen)
  case Nil
  show ?case by simp
next
  case (Cons r rs)
  have "[0..<length (r # rs)] = 0 # map Suc [0..<length rs]"
    by (simp add: upt_conv_Cons map_Suc_upt del: upt_Suc)
  then show ?case
    by (simp add: Cons.IH o_def conj_ac del: upt_Suc)
qed

lemma first_occurrences_from_Nil: "first_occurrences_from [] rs = first_occurrences rs"
proof -
  have "new_documents rs = (\<lambda>i. filter (\<lambda>e. e \<notin> set (concat (take i rs))) (rs ! i))"
    by (rule ext) (simp add: new_documents_def)
  then show ?thesis
    by (simp add: first_occurrences_from_eq first_occurrences_def)
qed

lemma new_documents_fresh:
  "i < length rs \<Longrightarrow> j < i \<Longrightarrow> e \<in> set (new_documents rs i) \<Longrightarrow> e \<notin> set (rs ! j)"
proof -
  assume "i < length rs" "j < i" "e \<in> set (new_documents rs i)"
  then have "e \<notin> set (concat (take i rs))" by (simp add: new_documents_def)
  moreover have "rs ! j \<in> set (take i rs)"
    using \<open>i < length rs\<close> \<open>j < i\<close> by (metis in_set_conv_nth length_take min.absorb2 nth_take less_imp_le_nat)
  ultimately show ?thesis by auto
qed

lemma first_occurrences_from_set:
  "set (first_occurrences_from seen rs) = set (concat rs) - set seen"
  by (induction rs arbitrary: seen) auto

lemma search_loop_sound:
  "fst (search_loop env self ads json_res hash_res st) = Inr out \<Longrightarrow>
   \<exists>rs new. list_all2 (search_result self) ads rs \<and>
      loads_all (json_loads env) (first_occurrences_from hash_res rs) = Inr new \<and>
      out = json_res @ new"
proof (induction ads arbitrary: json_res hash_res st)
  case Nil
  then show ?case by simp
next
  case (Cons ad ads)
  from Cons.prems obtain documents where d: "search (tool_library self) ad (top_k_functions self) = Inr documents"
    by (cases "search (tool_library self) ad (top_k_functions self)") (auto simp: Let_def)
  from Cons.prems d obtain res more where r: "documents = res # more"
    by (cases documents) (auto simp: Let_def)
  from Cons.prems d r obtain vs where
    v: "loads_all (json_loads env) (filter (\<lambda>e. e \<notin> set hash_res) res) = Inr vs"
    by (cases "loads_all (json_loads env) (filter (\<lambda>e. e \<notin> set hash_res) res)") (auto simp: Let_def)
  from Cons.prems d r v have
    "fst (search_loop env self ads (json_res @ vs) (hash_res @ res)
       (emit (LogInfo (FunctionsForInfo ad vs)) (emit (LibSearch ad (top_k_functions self)) st))) = Inr out"
    by (simp add: Let_def)
  from Cons.IH[OF this] obtain rs new where
    IH: "list_all2 (search_result self) ads rs"
      "loads_all (json_loads env) (first_occurrences_from (hash_res @ res) rs) = Inr new"
      "out = (json_res @ vs) @ new"
    by blast
  have "search_result self ad res" using d r by (simp add: search_result_def)
  with IH v have "list_all2 (search_result self) (ad # ads) (res # rs) \<and>
      loads_all (json_loads env) (first_occurrences_from hash_res (res # rs)) = Inr (vs @ new) \<and>
      out = json_res @ (vs @ new)"
    by (simp add: loads_all_append)
  then show ?case by blast
qed

lemma search_loop_complete:
  "list_all2 (search_result self) ads rs \<Longrightarrow>
   loads_all (json_loads env) (first_occurrences_from hash_res rs) = Inr new \<Longrightarrow>
   fst (search_loop env self ads json_res hash_res st) = Inr (json_res @ new)"
proof (induction ads rs arbitrary: json_res hash_res st new rule: list_all2_induct)
  case Nil
  then show ?case by simp
next
  case (Cons ad ads res rs)
  from Cons.hyps(1) obtain more where
    d: "search (tool_library self) ad (top_k_functions self) = Inr (res # more)"
    by (auto simp: search_result_def split: sum.splits list.splits)
  from Cons.prems obtain vs new' where
    v: "loads_all (json_loads env) (filter (\<lambda>e. e \<notin> set hash_res) res) = Inr vs" and
    n: "loads_all (json_loads env) (first_occurrences_from (hash_res @ res) rs) = Inr new'" and
    e: "new = vs @ new'"
    by (auto simp: loads_all_append)
  show ?case
    using d v e Cons.IH[OF n] by (simp add: Let_def)
qed

text \<open>
  Claim C3. When \<^verbatim>\<open>search_tools\<close> returns, the list it returns is the parsed form of
  the documents the library gave for the action descriptions, in order, where a document
  is kept only in the result of the first action description it was returned for: no
  document of a later result that an earlier result of the same call contains is
  returned again, and no document is lost. Conversely, whenever the library answers
  every description and the kept documents parse, \<^verbatim>\<open>search_tools\<close> returns that list.
\<close>

theorem search_tools_deduplicates:
  "(fst (search_tools env self action_descriptions st) = Inr out \<longrightarrow>
      (\<exists>ads rs docs.
         py_iter action_descriptions = Inr ads \<and>
         list_all2 (search_result self) ads rs \<and>
         docs = first_occurrences rs \<and>
         list_all2 (\<lambda>d v. json_loads env d = Inr v) docs out \<and>
         (\<forall>i<length rs. \<forall>j<i. \<forall>e \<in> set (new_documents rs i). e \<notin> set (rs ! j)) \<and>
         set docs = set (concat rs))) \<and>
   (py_iter action_descriptions = Inr ads \<and>
    list_all2 (search_result self) ads rs \<and>
    list_all2 (\<lambda>d v. json_loads env d = Inr v) (first_occurrences rs) out \<longrightarrow>
      fst (search_tools env self action_descriptions st) = Inr out)"
proof (intro conjI impI)
  assume r: "fst (search_tools env self action_descriptions st) = Inr out"
  then obtain ads where a: "py_iter action_descriptions = Inr ads"
    by (cases "py_iter action_descriptions") (auto simp: search_tools_def)
  with r have "fst (search_loop env self ads [] [] st) = Inr out"
    by (simp add: search_tools_def)
  from search_loop_sound[OF this] obtain rs where
    rs: "list_all2 (search_result self) ads rs"
      "loads_all (json_loads env) (first_occurrences rs) = Inr out"
    by (auto simp: first_occurrences_from_Nil)
  have "set (first_occurrences rs) = set (concat rs)"
    using first_occurrences_from_set[of "[]" rs] by (simp add: first_occurrences_from_Nil)
  with a rs show "\<exists>ads rs docs.
         py_iter action_descriptions = Inr ads \<and>
         list_all2 (search_result self) ads rs \<and>
         docs = first_occurrences rs \<and>
         list_all2 (\<lambda>d v. json_loads env d = Inr v) docs out \<and>
         (\<forall>i<length rs. \<forall>j<i. \<forall>e \<in> set (new_documents rs i). e \<notin> set (rs ! j)) \<and>
         set docs = set (concat rs)"
    using new_documents_fresh by (auto simp: loads_all_iff)
next
  assume "py_iter action_descriptions = Inr ads \<and>
    list_all2 (search_result self) ads rs \<and>
    list_all2 (\<lambda>d v. json_loads env d = Inr v) (first_occurrences rs) out"
  then have a: "py_iter action_descriptions = Inr ads"
    and rs: "list_all2 (search_result self) ads rs"
    and l: "loads_all (json_loads env) (first_occurrences_from [] rs) = Inr out"
    by (simp_all add: loads_all_iff first_occurrences_from_Nil)
  from search_loop_complete[OF rs l, of "[]" st] a
  show "fst (search_tools env self action_descriptions st) = Inr out"
    by (simp add: search_tools_def)
qed


theorem search_tools_deduplicates_witness:
  "py_iter (JArr [JStr capital_task, JStr language_task]) = Inr [JStr capital_task, JStr language_task] \<and>
   list_all2 (search_result example_agent) [JStr capital_task, JStr language_task]
     [[capital_doc, language_doc], [language_doc, capital_doc]] \<and>
   first_occurrences [[capital_doc, language_doc], [language_doc, capital_doc]] = [capital_doc, language_doc] \<and>
   list_all2 (\<lambda>d v. json_loads (example_env []) d = Inr v) [capital_doc, language_doc]
     [JObj [(''name'', JStr ''capital'')], JObj [(''name'', JStr ''language'')]] \<and>
   fst (search_tools (example_env []) example_agent (JArr [JStr capital_task, JStr language_task])
          (init_state example_agent)) =
     Inr [JObj [(''name'', JStr ''capital'')], JObj [(''name'', JStr ''language'')]]"
proof -
  let ?rs = "[[capital_doc, language_doc], [language_doc, capital_doc]]"
  let ?ads = "[JStr capital_task, JStr language_task]"
  let ?out = "[JObj [(''name'', JStr ''capital'')], JObj [(''name'', JStr ''language'')]]"
  have 1: "py_iter (JArr ?ads) = Inr ?ads" by simp
  have 2: "list_all2 (search_result example_agent) ?ads ?rs" by code_simp
  have 3: "first_occurrences ?rs = [capital_doc, language_doc]" by code_simp
  have 4: "list_all2 (\<lambda>d v. json_loads (example_env []) d = Inr v) [capital_doc, language_doc] ?out"
    by code_simp
  from 3 4 have 5: "list_all2 (\<lambda>d v. json_loads (example_env []) d = Inr v) (first_occurrences ?rs) ?out"
    by simp
  note t = search_tools_deduplicates[where env = "example_env []" and self = example_agent
      and action_descriptions = "JArr ?ads" and ads = ?ads and rs = ?rs and out = ?out
      and st = "init_state example_agent", THEN conjunct2, THEN mp]
  from 1 2 3 4 t[OF conjI[OF 1 conjI[OF 2 5]]] show ?thesis by blast
qed

section \<open>Executing the requested tool calls\<close>

lemma first_failure_Nil: "first_failure env self [] = None"
  by (simp add: first_failure_def)

lemma first_failure_Cons:
  "first_failure env self (tc # tcs) =
     (case tool_result env self tc of Inl err \<Rightarrow> Some err | Inr v \<Rightarrow> first_failure env self tcs)"
  by (simp add: first_failure_def tool_call_ok_def split: sum.split)

lemma attempted_Nil: "attempted env self [] = []"
  by (simp add: attempted_def)

lemma attempted_Cons:
  "attempted env self (tc # tcs) =
     (case json_loads env (tc_arguments tc) of
        Inl err \<Rightarrow> []
      | Inr args \<Rightarrow>
          tc # (case execute (tool_library self) (tc_name tc) args of
                  Inl err \<Rightarrow> []
                | Inr v \<Rightarrow> attempted env self tcs))"
  by (simp add: attempted_def tool_call_ok_def tool_result_def split: sum.split)

lemma first_failure_None_iff:
  "first_failure env self tcs = None \<longleftrightarrow> list_all (tool_call_ok env self) tcs"
  by (induction tcs) (simp_all add: first_failure_Nil first_failure_Cons tool_call_ok_def split: sum.split)

lemma all_ok_answered: "list_all (tool_call_ok env self) tcs \<Longrightarrow> takeWhile (tool_call_ok env self) tcs = tcs"
  by (induction tcs) simp_all

lemma all_ok_attempted: "list_all (tool_call_ok env self) tcs \<Longrightarrow> attempted env self tcs = tcs"
  by (induction tcs) (auto simp: attempted_Nil attempted_Cons tool_call_ok_def tool_result_def split: sum.splits)

lemma exec_tool_calls_effect:
  "\<exists>replies evs.
     exec_tool_calls env self tcs st =
       (case first_failure env self tcs of None \<Rightarrow> Inr () | Some err \<Rightarrow> Inl err,
        st\<lparr>messages := messages st @ replies, trace := trace st @ evs\<rparr>) \<and>
     list_all2 (tool_reply env self) (takeWhile (tool_call_ok env self) tcs) replies \<and>
     list_all2 (tool_invocation env) (attempted env self tcs) (filter is_execution evs) \<and>
     sent_messages evs = []"
proof (induction tcs arbitrary: st)
  case Nil
  have "exec_tool_calls env self [] st =
      (case first_failure env self [] of None \<Rightarrow> Inr () | Some err \<Rightarrow> Inl err,
       st\<lparr>messages := messages st @ [], trace := trace st @ []\<rparr>)"
    by (simp add: first_failure_Nil)
  then show ?case
    by (intro exI[of _ "[]"]) (simp add: attempted_Nil del: exec_tool_calls.simps)
next
  case (Cons tc tcs)
  show ?case
  proof (cases "json_loads env (tc_arguments tc)")
    case (Inl err)
    then have "exec_tool_calls env self (tc # tcs) st =
        (case first_failure env self (tc # tcs) of None \<Rightarrow> Inr () | Some err \<Rightarrow> Inl err,
         st\<lparr>messages := messages st @ [], trace := trace st @ []\<rparr>)"
      by (simp add: first_failure_Cons tool_result_def)
    moreover have "takeWhile (tool_call_ok env self) (tc # tcs) = []" "attempted env self (tc # tcs) = []"
      using Inl by (simp_all add: attempted_Cons tool_call_ok_def tool_result_def)
    ultimately show ?thesis
      by (intro exI[of _ "[]"]) (simp del: exec_tool_calls.simps)
  next
    case (Inr func_args)
    note p = Inr
    let ?e1 = "LibExecute (tc_name tc) func_args"
    show ?thesis
    proof (cases "execute (tool_library self) (tc_name tc) func_args")
      case (Inl err)
      with p have "exec_tool_calls env self (tc # tcs) st =
          (case first_failure env self (tc # tcs) of None \<Rightarrow> Inr () | Some err \<Rightarrow> Inl err,
           st\<lparr>messages := messages st @ [], trace := trace st @ [?e1]\<rparr>)"
        by (simp add: first_failure_Cons tool_result_def emit_def)
      moreover have "takeWhile (tool_call_ok env self) (tc # tcs) = []" "attempted env self (tc # tcs) = [tc]"
        using p Inl by (simp_all add: attempted_Cons tool_call_ok_def tool_result_def)
      moreover have "tool_invocation env tc ?e1"
        using p by (simp add: tool_invocation_def)
      ultimately show ?thesis
        by (intro exI[of _ "[]"] exI[of _ "[?e1]"]) (simp del: exec_tool_calls.simps)
    next
      case (Inr v)
      note x = Inr
      let ?m = "ToolMsg (tc_id tc) (tc_name tc) (py_str env v)"
      let ?e2 = "LogInfo (FunctionReturnedInfo (tc_name tc) (py_str env v) func_args)"
      let ?st = "emit ?e2 (append_message ?m (emit ?e1 st))"
      from Cons.IH[of ?st] obtain replies evs where
        IH: "exec_tool_calls env self tcs ?st =
           (case first_failure env self tcs of None \<Rightarrow> Inr () | Some err \<Rightarrow> Inl err,
            ?st\<lparr>messages := messages ?st @ replies, trace := trace ?st @ evs\<rparr>)"
          "list_all2 (tool_reply env self) (takeWhile (tool_call_ok env self) tcs) replies"
          "list_all2 (tool_invocation env) (attempted env self tcs) (filter is_execution evs)"
          "sent_messages evs = []"
        by blast
      have ok: "tool_call_ok env self tc" using p x by (simp add: tool_call_ok_def tool_result_def)
      have "exec_tool_calls env self (tc # tcs) st =
           (case first_failure env self (tc # tcs) of None \<Rightarrow> Inr () | Some err \<Rightarrow> Inl err,
            st\<lparr>messages := messages st @ (?m # replies), trace := trace st @ (?e1 # ?e2 # evs)\<rparr>)"
        using p x IH(1) by (simp add: first_failure_Cons tool_result_def emit_def append_message_def)
      moreover have "list_all2 (tool_reply env self) (takeWhile (tool_call_ok env self) (tc # tcs)) (?m # replies)"
        using ok p x IH(2) by (simp add: tool_reply_def tool_result_def)
      moreover have "list_all2 (tool_invocation env) (attempted env self (tc # tcs))
          (filter is_execution (?e1 # ?e2 # evs))"
        using p x IH(3) by (simp add: attempted_Cons tool_invocation_def)
      moreover have "sent_messages (?e1 # ?e2 # evs) = []"
        using IH(4) by simp
      ultimately show ?thesis by blast
    qed
  qed
qed


section \<open>The tool loop\<close>

lemma no_execution_in_attempts: "filter is_execution (attempts rq errs) = []"
  by (induction errs) (simp_all add: attempts_Nil attempts_Cons)

lemma asks_ok_iff:
  "asks_ok env self r \<longleftrightarrow> requested r \<noteq> [] \<and> first_failure env self (requested r) = None"
  by (simp add: asks_ok_def first_failure_None_iff)

lemma tool_loop_stop:
  assumes "\<not> asks_ok env self rm"
  shows "\<exists>st' replies evs.
     tool_loop env self tools rm st =
       Some (case first_failure env self (requested rm) of
               None \<Rightarrow> Inr (content rm) | Some err \<Rightarrow> Inl err, st') \<and>
     answered st' = answered st \<and>
     messages st' = messages st @ AssistantMsg rm # replies \<and>
     list_all2 (tool_reply env self) (takeWhile (tool_call_ok env self) (requested rm)) replies \<and>
     trace st' = trace st @ evs \<and>
     list_all2 (tool_invocation env) (attempted env self (requested rm)) (filter is_execution evs)"
proof (cases "requested rm = []")
  case True
  let ?st' = "append_message (AssistantMsg rm) st"
  have "tool_loop env self tools rm st =
       Some (case first_failure env self (requested rm) of
               None \<Rightarrow> Inr (content rm) | Some err \<Rightarrow> Inl err, ?st')"
    using True by (subst tool_loop.simps) (simp add: first_failure_Nil)
  moreover have "answered ?st' = answered st" "messages ?st' = messages st @ AssistantMsg rm # []"
    "trace ?st' = trace st @ []"
    by (simp_all add: append_message_def)
  moreover have "list_all2 (tool_reply env self) (takeWhile (tool_call_ok env self) (requested rm)) []"
    "list_all2 (tool_invocation env) (attempted env self (requested rm)) (filter is_execution [])"
    using True by (simp_all add: attempted_Nil)
  ultimately show ?thesis by blast
next
  case False
  with assms obtain err where f: "first_failure env self (requested rm) = Some err"
    by (auto simp: asks_ok_iff)
  let ?st0 = "append_message (AssistantMsg rm) st"
  from exec_tool_calls_effect[of env self "requested rm" ?st0] f obtain replies evs where
    x: "exec_tool_calls env self (requested rm) ?st0 =
         (Inl err, ?st0\<lparr>messages := messages ?st0 @ replies, trace := trace ?st0 @ evs\<rparr>)" and
    r: "list_all2 (tool_reply env self) (takeWhile (tool_call_ok env self) (requested rm)) replies" and
    i: "list_all2 (tool_invocation env) (attempted env self (requested rm)) (filter is_execution evs)"
    by auto
  let ?st' = "?st0\<lparr>messages := messages ?st0 @ replies, trace := trace ?st0 @ evs\<rparr>"
  have "tool_loop env self tools rm st =
       Some (case first_failure env self (requested rm) of
               None \<Rightarrow> Inr (content rm) | Some err \<Rightarrow> Inl err, ?st')"
    using False f by (subst tool_loop.simps) (simp add: x del: exec_tool_calls.simps)
  moreover have "answered ?st' = answered st" "messages ?st' = messages st @ AssistantMsg rm # replies"
    "trace ?st' = trace st @ evs"
    by (simp_all add: append_message_def)
  ultimately show ?thesis using r i by blast
qed

lemma tool_loop_round:
  assumes ok: "asks_ok env self rm" and a: "answers env (answered st) errs r"
  shows "\<exists>replies evs st2.
     tool_loop env self tools rm st = tool_loop env self tools r st2 \<and>
     answered st2 = Suc (answered st) \<and>
     messages st2 = messages st @ AssistantMsg rm # replies \<and>
     trace st2 = trace st @ evs \<and>
     list_all2 (tool_reply env self) (takeWhile (tool_call_ok env self) (requested rm)) replies \<and>
     list_all2 (tool_invocation env) (attempted env self (requested rm)) (filter is_execution evs)"
proof -
  let ?st0 = "append_message (AssistantMsg rm) st"
  from ok have nonempty: "requested rm \<noteq> []" and f: "first_failure env self (requested rm) = None"
    by (simp_all add: asks_ok_iff)
  from exec_tool_calls_effect[of env self "requested rm" ?st0] f obtain replies evs where
    x: "exec_tool_calls env self (requested rm) ?st0 =
         (Inr (), ?st0\<lparr>messages := messages ?st0 @ replies, trace := trace ?st0 @ evs\<rparr>)" and
    r: "list_all2 (tool_reply env self) (takeWhile (tool_call_ok env self) (requested rm)) replies" and
    i: "list_all2 (tool_invocation env) (attempted env self (requested rm)) (filter is_execution evs)"
    by auto
  let ?st1 = "?st0\<lparr>messages := messages ?st0 @ replies, trace := trace ?st0 @ evs\<rparr>"
  let ?rq = "make_request self (messages ?st1) None None (Some tools) (JStr ''auto'')"
  let ?st2 = "?st1\<lparr>trace := trace ?st1 @ attempts ?rq errs, answered := Suc (answered ?st1)\<rparr>"
  have "answers env (answered ?st1) errs r"
    using a by (simp add: append_message_def)
  from get_response_answers[OF this, of self "messages ?st1" None None "Some tools" "JStr ''auto''"]
  have g: "get_response env self (messages ?st1) None None (Some tools) (JStr ''auto'') ?st1 = Some (r, ?st2)" .
  have "tool_loop env self tools rm st = tool_loop env self tools r ?st2"
    using g by (subst tool_loop.simps) (simp add: nonempty x del: exec_tool_calls.simps)
  moreover have "answered ?st2 = Suc (answered st)"
    "messages ?st2 = messages st @ AssistantMsg rm # replies"
    "trace ?st2 = trace st @ (evs @ attempts ?rq errs)"
    by (simp_all add: append_message_def)
  moreover have "list_all2 (tool_invocation env) (attempted env self (requested rm))
      (filter is_execution (evs @ attempts ?rq errs))"
    using i by (simp add: no_execution_in_attempts)
  ultimately show ?thesis using r by blast
qed

lemma tool_loop_run:
  "served env (answered st) later \<Longrightarrow>
   list_all (asks_ok env self) (butlast (rm # map snd later)) \<Longrightarrow>
   \<not> asks_ok env self (last (rm # map snd later)) \<Longrightarrow>
   \<exists>st' blocks evs.
     tool_loop env self tools rm st =
       Some (case first_failure env self (requested (last (rm # map snd later))) of
               None \<Rightarrow> Inr (content (last (rm # map snd later))) | Some err \<Rightarrow> Inl err, st') \<and>
     answered st' = answered st + length later \<and>
     messages st' = messages st @ rounds (rm # map snd later) blocks \<and>
     list_all2 (\<lambda>r b. list_all2 (tool_reply env self) (takeWhile (tool_call_ok env self) (requested r)) b)
       (rm # map snd later) blocks \<and>
     trace st' = trace st @ evs \<and>
     list_all2 (tool_invocation env)
       (concat (map (\<lambda>r. attempted env self (requested r)) (rm # map snd later)))
       (filter is_execution evs)"
proof (induction later arbitrary: rm st)
  case Nil
  then have "\<not> asks_ok env self rm" by simp
  from tool_loop_stop[OF this, of tools st] obtain st' replies evs where
    s: "tool_loop env self tools rm st =
       Some (case first_failure env self (requested rm) of
               None \<Rightarrow> Inr (content rm) | Some err \<Rightarrow> Inl err, st')"
      "answered st' = answered st"
      "messages st' = messages st @ AssistantMsg rm # replies"
      "list_all2 (tool_reply env self) (takeWhile (tool_call_ok env self) (requested rm)) replies"
      "trace st' = trace st @ evs"
      "list_all2 (tool_invocation env) (attempted env self (requested rm)) (filter is_execution evs)"
    by blast
  have "tool_loop env self tools rm st =
       Some (case first_failure env self (requested (last (rm # map snd []))) of
               None \<Rightarrow> Inr (content (last (rm # map snd []))) | Some err \<Rightarrow> Inl err, st') \<and>
     answered st' = answered st + length ([] :: (string list \<times> response_message) list) \<and>
     messages st' = messages st @ rounds (rm # map snd []) [replies] \<and>
     list_all2 (\<lambda>r b. list_all2 (tool_reply env self) (takeWhile (tool_call_ok env self) (requested r)) b)
       (rm # map snd []) [replies] \<and>
     trace st' = trace st @ evs \<and>
     list_all2 (tool_invocation env)
       (concat (map (\<lambda>r. attempted env self (requested r)) (rm # map snd [])))
       (filter is_execution evs)"
    using s by (simp cong: option.case_cong)
  then show ?case by blast
next
  case (Cons p later)
  obtain errs r where p: "p = (errs, r)" by (cases p)
  from Cons.prems p have a: "answers env (answered st) errs r"
    and s: "served env (Suc (answered st)) later"
    and ok: "asks_ok env self rm"
    and oks: "list_all (asks_ok env self) (butlast (r # map snd later))"
    and l: "\<not> asks_ok env self (last (r # map snd later))"
    by simp_all
  from tool_loop_round[OF ok a, of tools] obtain replies evs st2 where
    step: "tool_loop env self tools rm st = tool_loop env self tools r st2"
      "answered st2 = Suc (answered st)"
      "messages st2 = messages st @ AssistantMsg rm # replies"
      "trace st2 = trace st @ evs"
      "list_all2 (tool_reply env self) (takeWhile (tool_call_ok env self) (requested rm)) replies"
      "list_all2 (tool_invocation env) (attempted env self (requested rm)) (filter is_execution evs)"
    by blast
  from s step(2) have "served env (answered st2) later" by simp
  from Cons.IH[OF this oks l] obtain st' blocks evs' where
    IH: "tool_loop env self tools r st2 =
       Some (case first_failure env self (requested (last (r # map snd later))) of
               None \<Rightarrow> Inr (content (last (r # map snd later))) | Some err \<Rightarrow> Inl err, st')"
      "answered st' = answered st2 + length later"
      "messages st' = messages st2 @ rounds (r # map snd later) blocks"
      "list_all2 (\<lambda>r b. list_all2 (tool_reply env self) (takeWhile (tool_call_ok env self) (requested r)) b)
         (r # map snd later) blocks"
      "trace st' = trace st2 @ evs'"
      "list_all2 (tool_invocation env)
         (concat (map (\<lambda>r. attempted env self (requested r)) (r # map snd later)))
         (filter is_execution evs')"
    by blast
  have "tool_loop env self tools rm st =
       Some (case first_failure env self (requested (last (rm # map snd (p # later)))) of
               None \<Rightarrow> Inr (content (last (rm # map snd (p # later)))) | Some err \<Rightarrow> Inl err, st')"
    using step(1) IH(1) p by (simp cong: option.case_cong)
  moreover have "answered st' = answered st + length (p # later)"
    using step(2) IH(2) by simp
  moreover have "messages st' = messages st @ rounds (rm # map snd (p # later)) (replies # blocks)"
    using step(3) IH(3) p by simp
  moreover have "list_all2 (\<lambda>r b. list_all2 (tool_reply env self) (takeWhile (tool_call_ok env self) (requested r)) b)
      (rm # map snd (p # later)) (replies # blocks)"
    using step(5) IH(4) p by simp
  moreover have "trace st' = trace st @ (evs @ evs')"
    using step(4) IH(5) by simp
  moreover have "list_all2 (tool_invocation env)
      (concat (map (\<lambda>r. attempted env self (requested r)) (rm # map snd (p # later))))
      (filter is_execution (evs @ evs'))"
    using step(6) IH(6) p by (simp add: list_all2_appendI)
  ultimately show ?case by blast
qed


lemma exec_tool_calls_asks_ok:
  assumes "asks_ok env self rm"
  shows "\<exists>st1. exec_tool_calls env self (requested rm) st0 = (Inr (), st1) \<and>
     answered st1 = answered st0"
proof -
  from assms have "first_failure env self (requested rm) = None" by (simp add: asks_ok_iff)
  with exec_tool_calls_effect[of env self "requested rm" st0] obtain replies evs where
    "exec_tool_calls env self (requested rm) st0 =
       (Inr (), st0\<lparr>messages := messages st0 @ replies, trace := trace st0 @ evs\<rparr>)"
    by auto
  moreover have "answered (st0\<lparr>messages := messages st0 @ replies, trace := trace st0 @ evs\<rparr>) = answered st0"
    by simp
  ultimately show ?thesis by blast
qed

lemma tool_loop_script:
  assumes ret: "tool_loop env self tools rm st = Some y"
  shows "\<exists>later. served env (answered st) later \<and>
     list_all (asks_ok env self) (butlast (rm # map snd later)) \<and>
     \<not> asks_ok env self (last (rm # map snd later))"
proof (rule tool_loop.raw_induct[OF _ ret])
  fix loop :: "'a env \<Rightarrow> 'a agent \<Rightarrow> json list \<Rightarrow> response_message \<Rightarrow> state \<Rightarrow>
       ((pyerr + string option) \<times> state) option"
    and env self tools rm st y
  assume IH: "\<And>env self tools rm st y. loop env self tools rm st = Some y \<Longrightarrow>
      \<exists>later. served env (answered st) later \<and>
        list_all (asks_ok env self) (butlast (rm # map snd later)) \<and>
        \<not> asks_ok env self (last (rm # map snd later))"
    and body: "(if requested rm \<noteq> [] then
        (case exec_tool_calls env self (requested rm) (append_message (AssistantMsg rm) st) of
           (Inl err, st1) \<Rightarrow> Some (Inl err, st1)
         | (Inr u, st1) \<Rightarrow>
             (case get_response env self (messages st1) None None (Some tools) (JStr ''auto'') st1 of
                None \<Rightarrow> None
              | Some (response_message', st2) \<Rightarrow> loop env self tools response_message' st2))
      else Some (Inr (content rm), append_message (AssistantMsg rm) st)) = Some y"
  show "\<exists>later. served env (answered st) later \<and>
        list_all (asks_ok env self) (butlast (rm # map snd later)) \<and>
        \<not> asks_ok env self (last (rm # map snd later))"
  proof (cases "asks_ok env self rm")
    case False
    then have "served env (answered st) [] \<and>
        list_all (asks_ok env self) (butlast (rm # map snd [])) \<and>
        \<not> asks_ok env self (last (rm # map snd []))"
      by simp
    then show ?thesis by blast
  next
    case True
    let ?st0 = "append_message (AssistantMsg rm) st"
    from True have nonempty: "requested rm \<noteq> []" by (simp add: asks_ok_def)
    from exec_tool_calls_asks_ok[OF True, of ?st0] obtain st1 where
      x: "exec_tool_calls env self (requested rm) ?st0 = (Inr (), st1)" and
      a1: "answered st1 = answered st"
      by (auto simp: append_message_def)
    from body nonempty x obtain rm' st2 where
      g: "get_response env self (messages st1) None None (Some tools) (JStr ''auto'') st1 = Some (rm', st2)"
      and l: "loop env self tools rm' st2 = Some y"
      by (auto split: option.splits)
    from get_response_sound[OF g] a1 obtain errs where
      a: "answers env (answered st) errs rm'" and a2: "answered st2 = Suc (answered st)"
      by auto
    from IH[OF l] a2 obtain later where
      "served env (Suc (answered st)) later"
      "list_all (asks_ok env self) (butlast (rm' # map snd later))"
      "\<not> asks_ok env self (last (rm' # map snd later))"
      by auto
    with a True have "served env (answered st) ((errs, rm') # later) \<and>
        list_all (asks_ok env self) (butlast (rm # map snd ((errs, rm') # later))) \<and>
        \<not> asks_ok env self (last (rm # map snd ((errs, rm') # later)))"
      by simp
    then show ?thesis by blast
  qed
qed

lemma tool_loop_returns_aux:
  assumes ok: "\<forall>n. asks_ok env self (rs n)"
    and a: "\<forall>n. answers env (c + n) (errs n) (rs (Suc n))"
    and ret: "tool_loop env' self' tools rm st = Some y"
  shows "env' = env \<longrightarrow> self' = self \<longrightarrow> (\<forall>n. rm = rs n \<longrightarrow> answered st \<noteq> c + n)"
proof (rule tool_loop.raw_induct[OF _ ret])
  fix loop :: "'a env \<Rightarrow> 'a agent \<Rightarrow> json list \<Rightarrow> response_message \<Rightarrow> state \<Rightarrow>
       ((pyerr + string option) \<times> state) option"
    and env' self' tools rm st y
  assume IH: "\<And>env' self' tools rm st y. loop env' self' tools rm st = Some y \<Longrightarrow>
      env' = env \<longrightarrow> self' = self \<longrightarrow> (\<forall>n. rm = rs n \<longrightarrow> answered st \<noteq> c + n)"
    and body: "(if requested rm \<noteq> [] then
        (case exec_tool_calls env' self' (requested rm) (append_message (AssistantMsg rm) st) of
           (Inl err, st1) \<Rightarrow> Some (Inl err, st1)
         | (Inr u, st1) \<Rightarrow>
             (case get_response env' self' (messages st1) None None (Some tools) (JStr ''auto'') st1 of
                None \<Rightarrow> None
              | Some (response_message', st2) \<Rightarrow> loop env' self' tools response_message' st2))
      else Some (Inr (content rm), append_message (AssistantMsg rm) st)) = Some y"
  show "env' = env \<longrightarrow> self' = self \<longrightarrow> (\<forall>n. rm = rs n \<longrightarrow> answered st \<noteq> c + n)"
  proof (intro impI allI notI)
    fix n
    assume e: "env' = env" "self' = self" and rm: "rm = rs n" and c: "answered st = c + n"
    let ?st0 = "append_message (AssistantMsg rm) st"
    from ok rm have asks: "asks_ok env self rm" by simp
    then have nonempty: "requested rm \<noteq> []" by (simp add: asks_ok_def)
    from exec_tool_calls_asks_ok[OF asks, of ?st0] obtain st1 where
      x: "exec_tool_calls env self (requested rm) ?st0 = (Inr (), st1)" and
      a1: "answered st1 = answered st"
      by (auto simp: append_message_def)
    let ?rq = "make_request self (messages st1) None None (Some tools) (JStr ''auto'')"
    let ?st2 = "st1\<lparr>trace := trace st1 @ attempts ?rq (errs n), answered := Suc (answered st1)\<rparr>"
    have "answers env (answered st1) (errs n) (rs (Suc n))"
      using a c a1 by simp
    from get_response_answers[OF this, of self "messages st1" None None "Some tools" "JStr ''auto''"]
    have g: "get_response env self (messages st1) None None (Some tools) (JStr ''auto'') st1 =
        Some (rs (Suc n), ?st2)" .
    from body e have "loop env self tools (rs (Suc n)) ?st2 = Some y"
      using g by (simp add: nonempty x del: exec_tool_calls.simps)
    from IH[OF this] have "answered ?st2 \<noteq> c + Suc n" by blast
    then show False using c a1 by simp
  qed
qed

lemma tool_loop_diverges:
  assumes "\<forall>n. asks_ok env self (rs n)"
    and "\<forall>n. answers env (answered st + n) (errs n) (rs (Suc n))"
  shows "tool_loop env self tools (rs 0) st = None"
proof (cases "tool_loop env self tools (rs 0) st")
  case None
  then show ?thesis .
next
  case (Some y)
  from tool_loop_returns_aux[OF assms Some] have "answered st \<noteq> answered st + 0" by blast
  then show ?thesis by simp
qed


lemma plain_not_asks_ok: "requested r = [] \<Longrightarrow> \<not> asks_ok env self r"
  by (simp add: asks_ok_def)

lemma failing_not_asks_ok: "first_failure env self (requested r) = Some err \<Longrightarrow> \<not> asks_ok env self r"
  by (simp add: asks_ok_iff)

lemma asks_ok_answered: "asks_ok env self r \<Longrightarrow> takeWhile (tool_call_ok env self) (requested r) = requested r"
  by (simp add: asks_ok_def all_ok_answered)

lemma asks_ok_attempted: "asks_ok env self r \<Longrightarrow> attempted env self (requested r) = requested r"
  by (simp add: asks_ok_def all_ok_attempted)

lemma attempted_split:
  assumes "xs \<noteq> []" and "list_all (asks_ok env self) (butlast xs)"
  shows "concat (map (\<lambda>r. attempted env self (requested r)) xs) =
     concat (map requested (butlast xs)) @ attempted env self (requested (last xs))"
proof -
  from assms(1) obtain ys y where xs: "xs = ys @ [y]"
    by (cases xs rule: rev_cases) auto
  with assms(2) have "list_all (asks_ok env self) ys" by simp
  then have m: "map (\<lambda>r. attempted env self (requested r)) ys = map requested ys"
    by (intro map_cong refl) (simp add: list_all_iff asks_ok_attempted)
  show ?thesis unfolding xs by (simp add: m)
qed

lemma answered_all:
  assumes "xs \<noteq> []" and "list_all (asks_ok env self) (butlast xs)" and "requested (last xs) = []"
  shows "map (\<lambda>r. takeWhile (tool_call_ok env self) (requested r)) xs = map requested xs"
proof -
  from assms(1) obtain ys y where xs: "xs = ys @ [y]"
    by (cases xs rule: rev_cases) auto
  with assms(2,3) have "list_all (asks_ok env self) ys" and y: "requested y = []" by simp_all
  then have m: "map (\<lambda>r. takeWhile (tool_call_ok env self) (requested r)) ys = map requested ys"
    by (intro map_cong refl) (simp add: list_all_iff asks_ok_answered)
  show ?thesis unfolding xs using y by (simp add: m)
qed

text \<open>
  Claim C2, as amended. Let the answers to the completion requests of the tool loop be
  \<open>rm\<close> and then those of \<open>later\<close>, each obtained after any number of API errors, and let
  every answer but the last ask for tool calls that all succeed (their arguments parse
  and \<^verbatim>\<open>execute\<close> does not raise). If the last answer carries no tool calls, the loop
  returns at it, with its content as the final answer, after exactly the completions of
  \<open>later\<close>. If a tool call of the last answer raises, the loop ends there too: the query
  aborts with the exception of the first such call, whichever exception it is. While the
  answers keep asking for tool calls that succeed the loop continues: on an endless
  sequence of such answers it never returns. Conversely, every run of the loop that ends
  is of one of the first two kinds: a content is returned only at an answer without tool
  calls, before which every answer asked for tool calls that succeeded, and an abort is
  the exception of the first failing tool call of the last answer.
\<close>

theorem tool_loop_ends_at_first_plain_answer:
  "(served env (answered st) later \<and>
    list_all (asks_ok env self) (butlast (rm # map snd later)) \<and>
    requested (last (rm # map snd later)) = [] \<longrightarrow>
      (\<exists>st'. tool_loop env self tools rm st = Some (Inr (content (last (rm # map snd later))), st') \<and>
             answered st' = answered st + length later)) \<and>
   (served env (answered st) later \<and>
    list_all (asks_ok env self) (butlast (rm # map snd later)) \<and>
    first_failure env self (requested (last (rm # map snd later))) = Some err \<longrightarrow>
      (\<exists>st'. tool_loop env self tools rm st = Some (Inl err, st') \<and>
             answered st' = answered st + length later)) \<and>
   ((\<forall>n. asks_ok env self (rs n)) \<and> (\<forall>n. answers env (answered st + n) (errs n) (rs (Suc n))) \<longrightarrow>
      tool_loop env self tools (rs 0) st = None) \<and>
   (tool_loop env self tools rm st = Some (res, st1) \<longrightarrow>
      (\<exists>script.
         served env (answered st) script \<and>
         list_all (asks_ok env self) (butlast (rm # map snd script)) \<and>
         answered st1 = answered st + length script \<and>
         (case first_failure env self (requested (last (rm # map snd script))) of
            None \<Rightarrow> requested (last (rm # map snd script)) = [] \<and>
                     res = Inr (content (last (rm # map snd script)))
          | Some err' \<Rightarrow> res = Inl err')))"
proof (intro conjI impI)
  assume h: "served env (answered st) later \<and>
    list_all (asks_ok env self) (butlast (rm # map snd later)) \<and>
    requested (last (rm # map snd later)) = []"
  then have 1: "served env (answered st) later"
    and 2: "list_all (asks_ok env self) (butlast (rm # map snd later))"
    and 3: "\<not> asks_ok env self (last (rm # map snd later))"
    and 4: "first_failure env self (requested (last (rm # map snd later))) = None"
    by (simp_all add: plain_not_asks_ok first_failure_Nil)
  from tool_loop_run[OF 1 2 3, of tools] 4
  show "\<exists>st'. tool_loop env self tools rm st = Some (Inr (content (last (rm # map snd later))), st') \<and>
             answered st' = answered st + length later"
    by auto
next
  assume h: "served env (answered st) later \<and>
    list_all (asks_ok env self) (butlast (rm # map snd later)) \<and>
    first_failure env self (requested (last (rm # map snd later))) = Some err"
  then have 1: "served env (answered st) later"
    and 2: "list_all (asks_ok env self) (butlast (rm # map snd later))"
    and 3: "\<not> asks_ok env self (last (rm # map snd later))"
    and 4: "first_failure env self (requested (last (rm # map snd later))) = Some err"
    by (simp_all add: failing_not_asks_ok)
  from tool_loop_run[OF 1 2 3, of tools] 4
  show "\<exists>st'. tool_loop env self tools rm st = Some (Inl err, st') \<and>
             answered st' = answered st + length later"
    by auto
next
  assume "(\<forall>n. asks_ok env self (rs n)) \<and> (\<forall>n. answers env (answered st + n) (errs n) (rs (Suc n)))"
  then have "\<forall>n. asks_ok env self (rs n)" "\<forall>n. answers env (answered st + n) (errs n) (rs (Suc n))"
    by simp_all
  then show "tool_loop env self tools (rs 0) st = None"
    by (rule tool_loop_diverges)
next
  assume r: "tool_loop env self tools rm st = Some (res, st1)"
  from tool_loop_script[OF r] obtain script where
    1: "served env (answered st) script" and
    2: "list_all (asks_ok env self) (butlast (rm # map snd script))" and
    3: "\<not> asks_ok env self (last (rm # map snd script))"
    by blast
  from tool_loop_run[OF 1 2 3, of tools] r have
    res: "res = (case first_failure env self (requested (last (rm # map snd script))) of
               None \<Rightarrow> Inr (content (last (rm # map snd script))) | Some err \<Rightarrow> Inl err)"
    and a: "answered st1 = answered st + length script"
    by auto
  have "case first_failure env self (requested (last (rm # map snd script))) of
            None \<Rightarrow> requested (last (rm # map snd script)) = [] \<and>
                     res = Inr (content (last (rm # map snd script)))
          | Some err' \<Rightarrow> res = Inl err'"
  proof (cases "first_failure env self (requested (last (rm # map snd script)))")
    case None
    with 3 have "requested (last (rm # map snd script)) = []" by (simp add: asks_ok_iff)
    with None res show ?thesis by simp
  next
    case (Some e)
    with res show ?thesis by simp
  qed
  with 1 2 a show "\<exists>script.
         served env (answered st) script \<and>
         list_all (asks_ok env self) (butlast (rm # map snd script)) \<and>
         answered st1 = answered st + length script \<and>
         (case first_failure env self (requested (last (rm # map snd script))) of
            None \<Rightarrow> requested (last (rm # map snd script)) = [] \<and>
                     res = Inr (content (last (rm # map snd script)))
          | Some err' \<Rightarrow> res = Inl err')"
    by blast
qed


lemma capital_call_ok: "tool_call_ok (example_env script) example_agent (capital_call france_arguments)"
  by (simp add: tool_call_ok_def tool_result_def example_env_def example_agent_def capital_call_def
        example_loads_france_arguments example_execute_def call_with_country_def)

lemma truncated_call_failure:
  "first_failure (example_env script) example_agent
     (requested (calls_answer [capital_call truncated_arguments])) = Some JSONDecodeError"
  by code_simp

theorem tool_loop_ends_at_first_plain_answer_witness:
  "served (example_env [[OpenAIError ''Rate limit reached.'', Completion paris_answer]])
     (answered (init_state example_agent)) [([''Rate limit reached.''], paris_answer)] \<and>
   list_all (asks_ok (example_env [[OpenAIError ''Rate limit reached.'', Completion paris_answer]]) example_agent)
     (butlast (calls_answer [capital_call france_arguments] # map snd [([''Rate limit reached.''], paris_answer)])) \<and>
   requested (last (calls_answer [capital_call france_arguments] # map snd [([''Rate limit reached.''], paris_answer)])) = [] \<and>
   (\<exists>st'. tool_loop (example_env [[OpenAIError ''Rate limit reached.'', Completion paris_answer]]) example_agent
            [JObj [(''name'', JStr ''capital'')]] (calls_answer [capital_call france_arguments])
            (init_state example_agent) = Some (Inr (Some ''The capital of France is Paris.''), st') \<and>
          answered st' = 1) \<and>
   served (example_env [[OpenAIError ''Rate limit reached.'',
                         Completion (calls_answer [capital_call truncated_arguments])]])
     (answered (init_state example_agent))
     [([''Rate limit reached.''], calls_answer [capital_call truncated_arguments])] \<and>
   first_failure (example_env [[OpenAIError ''Rate limit reached.'',
                                Completion (calls_answer [capital_call truncated_arguments])]]) example_agent
     (requested (last (calls_answer [capital_call france_arguments] #
                       map snd [([''Rate limit reached.''], calls_answer [capital_call truncated_arguments])]))) =
     Some JSONDecodeError \<and>
   (\<exists>st'. tool_loop (example_env [[OpenAIError ''Rate limit reached.'',
                                   Completion (calls_answer [capital_call truncated_arguments])]]) example_agent
            [JObj [(''name'', JStr ''capital'')]] (calls_answer [capital_call france_arguments])
            (init_state example_agent) = Some (Inl JSONDecodeError, st') \<and>
          answered st' = 1) \<and>
   asks_ok \<lparr>api = (\<lambda>j k. Completion (calls_answer [capital_call france_arguments])),
            json_loads = example_loads, py_str = (\<lambda>s. s)\<rparr> example_agent
     (calls_answer [capital_call france_arguments]) \<and>
   (\<forall>n. answers \<lparr>api = (\<lambda>j k. Completion (calls_answer [capital_call france_arguments])),
                  json_loads = example_loads, py_str = (\<lambda>s. s)\<rparr>
           (answered (init_state example_agent) + n) [] (calls_answer [capital_call france_arguments])) \<and>
   tool_loop \<lparr>api = (\<lambda>j k. Completion (calls_answer [capital_call france_arguments])),
              json_loads = example_loads, py_str = (\<lambda>s. s)\<rparr> example_agent
     [JObj [(''name'', JStr ''capital'')]] (calls_answer [capital_call france_arguments])
     (init_state example_agent) = None \<and>
   tool_loop (example_env [[Completion paris_answer]]) example_agent [] paris_answer (init_state example_agent) =
     Some (Inr (Some ''The capital of France is Paris.''),
           \<lparr>messages = [SystemMsg ''You are a helpful agent.'', AssistantMsg paris_answer],
            trace = [], answered = 0\<rparr>) \<and>
   (\<exists>script.
      served (example_env [[Completion paris_answer]]) (answered (init_state example_agent)) script \<and>
      list_all (asks_ok (example_env [[Completion paris_answer]]) example_agent)
        (butlast (paris_answer # map snd script)) \<and>
      answered \<lparr>messages = [SystemMsg ''You are a helpful agent.'', AssistantMsg paris_answer],
                trace = [], answered = 0\<rparr> = answered (init_state example_agent) + length script \<and>
      (case first_failure (example_env [[Completion paris_answer]]) example_agent
              (requested (last (paris_answer # map snd script))) of
         None \<Rightarrow> requested (last (paris_answer # map snd script)) = [] \<and>
                  Inr (Some ''The capital of France is Paris.'') =
                    (Inr (content (last (paris_answer # map snd script))) :: pyerr + string option)
       | Some err' \<Rightarrow> Inr (Some ''The capital of France is Paris.'') = (Inl err' :: pyerr + string option)))"
proof -
  let ?env = "example_env [[OpenAIError ''Rate limit reached.'', Completion paris_answer]]"
  let ?env2 = "example_env [[OpenAIError ''Rate limit reached.'',
                             Completion (calls_answer [capital_call truncated_arguments])]]"
  let ?rm = "calls_answer [capital_call france_arguments]"
  let ?later = "[([''Rate limit reached.''], paris_answer)]"
  let ?later2 = "[([''Rate limit reached.''], calls_answer [capital_call truncated_arguments])]"
  let ?busy = "\<lparr>api = (\<lambda>j k. Completion ?rm), json_loads = example_loads, py_str = (\<lambda>s. s)\<rparr> :: string env"
  let ?tools = "[JObj [(''name'', JStr ''capital'')]]"
  have s: "served ?env (answered (init_state example_agent)) ?later"
    by (simp add: answers_def example_env_def init_state_def)
  have o: "list_all (asks_ok ?env example_agent) (butlast (?rm # map snd ?later))"
    by (simp add: asks_ok_def requested_def calls_answer_def capital_call_ok)
  have r: "requested (last (?rm # map snd ?later)) = []"
    by (simp add: requested_def paris_answer_def text_answer_def)
  have c: "content (last (?rm # map snd ?later)) = Some ''The capital of France is Paris.''"
    by (simp add: paris_answer_def text_answer_def)
  have s2: "served ?env2 (answered (init_state example_agent)) ?later2"
    by (simp add: answers_def example_env_def init_state_def)
  have o2: "list_all (asks_ok ?env2 example_agent) (butlast (?rm # map snd ?later2))"
    by (simp add: asks_ok_def requested_def calls_answer_def capital_call_ok)
  have f2: "first_failure ?env2 example_agent (requested (last (?rm # map snd ?later2))) = Some JSONDecodeError"
    by (simp add: truncated_call_failure)
  have b1: "\<forall>n. asks_ok ?busy example_agent ((\<lambda>n. ?rm) n)"
    by (simp add: asks_ok_def requested_def calls_answer_def tool_call_ok_def tool_result_def
          example_agent_def capital_call_def example_loads_france_arguments example_execute_def
          call_with_country_def)
  have b2: "\<forall>n. answers ?busy (answered (init_state example_agent) + n) ((\<lambda>n. []) n) ((\<lambda>n. ?rm) (Suc n))"
    by (simp add: answers_def)
  have run: "tool_loop (example_env [[Completion paris_answer]]) example_agent [] paris_answer
       (init_state example_agent) =
     Some (Inr (Some ''The capital of France is Paris.''),
           \<lparr>messages = [SystemMsg ''You are a helpful agent.'', AssistantMsg paris_answer],
            trace = [], answered = 0\<rparr>)"
    by code_simp
  note t1 = tool_loop_ends_at_first_plain_answer[where env = ?env and st = "init_state example_agent"
      and later = ?later and self = example_agent and rm = ?rm and tools = ?tools,
      THEN conjunct1, THEN mp, OF conjI[OF s conjI[OF o r]]]
  note t2 = tool_loop_ends_at_first_plain_answer[where env = ?env2 and st = "init_state example_agent"
      and later = ?later2 and self = example_agent and rm = ?rm and tools = ?tools
      and err = JSONDecodeError,
      THEN conjunct2, THEN conjunct1, THEN mp, OF conjI[OF s2 conjI[OF o2 f2]]]
  note t3 = tool_loop_ends_at_first_plain_answer[where env = ?busy and st = "init_state example_agent"
      and self = example_agent and rs = "\<lambda>n. ?rm" and errs = "\<lambda>n. []" and tools = ?tools,
      THEN conjunct2, THEN conjunct2, THEN conjunct1, THEN mp, OF conjI[OF b1 b2]]
  note t4 = tool_loop_ends_at_first_plain_answer[where env = "example_env [[Completion paris_answer]]"
      and st = "init_state example_agent" and self = example_agent and rm = paris_answer and tools = "[]",
      THEN conjunct2, THEN conjunct2, THEN conjunct2, THEN mp, OF run]
  from t1 c have 1: "\<exists>st'. tool_loop ?env example_agent ?tools ?rm
            (init_state example_agent) = Some (Inr (Some ''The capital of France is Paris.''), st') \<and>
          answered st' = 1"
    by (simp add: init_state_def)
  from t2 have 2: "\<exists>st'. tool_loop ?env2 example_agent ?tools ?rm
            (init_state example_agent) = Some (Inl JSONDecodeError, st') \<and> answered st' = 1"
    by (simp add: init_state_def)
  from b1 have b1': "asks_ok ?busy example_agent ?rm" by simp
  from b2 have b2': "\<forall>n. answers ?busy (answered (init_state example_agent) + n) [] ?rm" by simp
  from t3 have 3: "tool_loop ?busy example_agent ?tools ?rm (init_state example_agent) = None" by simp
  show ?thesis
    by (intro conjI s o r 1 s2 f2 2 b1' b2' 3 run t4)
qed

theorem tool_loop_aborts_before_plain_answer:
  "requested (calls_answer [capital_call truncated_arguments]) \<noteq> [] \<and>
   requested paris_answer = [] \<and>
   served (example_env [[Completion paris_answer]]) (answered (init_state example_agent)) [([], paris_answer)] \<and>
   tool_loop (example_env [[Completion paris_answer]]) example_agent [JObj [(''name'', JStr ''capital'')]]
     (calls_answer [capital_call truncated_arguments]) (init_state example_agent) =
     Some (Inl JSONDecodeError,
           \<lparr>messages = [SystemMsg ''You are a helpful agent.'',
                        AssistantMsg (calls_answer [capital_call truncated_arguments])],
            trace = [], answered = 0\<rparr>)"
  by code_simp

text \<open>
  Claim C5, as amended. The tool calls of an answer are handled in order. When none of
  them raises, \<^verbatim>\<open>execute\<close> of the library is called once for each, in order, with the
  name of the call and its parsed arguments, and for each a message with role tool, the
  identifier of the call and the string form of the result is appended. When one of them
  raises, the query aborts with the exception of the first such call: the calls before it
  are executed and answered as above, the failing call is executed, without an answer,
  if it is \<^verbatim>\<open>execute\<close> that raises and not at all if its arguments do not parse, and the
  calls after it are neither executed nor answered. This repeats for every answer of the
  tool loop that asks for tool calls: in a run that returns, the executions are those of
  all tool calls of all answers, in order, each with its tool message; in a run that
  aborts, those of the answers before the last, and of the last answer the calls up to
  the failing one.
\<close>

theorem tool_calls_executed_and_answered:
  "(list_all (tool_call_ok env self) tcs \<longrightarrow>
      (\<exists>replies evs.
         exec_tool_calls env self tcs st =
           (Inr (), st\<lparr>messages := messages st @ replies, trace := trace st @ evs\<rparr>) \<and>
         list_all2 (tool_reply env self) tcs replies \<and>
         list_all2 (tool_invocation env) tcs (filter is_execution evs))) \<and>
   (\<not> list_all (tool_call_ok env self) tcs \<longrightarrow>
      (\<exists>err replies evs.
         exec_tool_calls env self tcs st =
           (Inl err, st\<lparr>messages := messages st @ replies, trace := trace st @ evs\<rparr>) \<and>
         first_failure env self tcs = Some err \<and>
         list_all2 (tool_reply env self) (takeWhile (tool_call_ok env self) tcs) replies \<and>
         list_all2 (tool_invocation env) (attempted env self tcs) (filter is_execution evs))) \<and>
   (served env (answered st) later \<and>
    list_all (asks_ok env self) (butlast (rm # map snd later)) \<and>
    requested (last (rm # map snd later)) = [] \<longrightarrow>
      (\<exists>st' blocks evs.
         tool_loop env self tools rm st = Some (Inr (content (last (rm # map snd later))), st') \<and>
         messages st' = messages st @ rounds (rm # map snd later) blocks \<and>
         list_all2 (\<lambda>r b. list_all2 (tool_reply env self) (requested r) b) (rm # map snd later) blocks \<and>
         trace st' = trace st @ evs \<and>
         list_all2 (tool_invocation env) (concat (map requested (rm # map snd later)))
           (filter is_execution evs))) \<and>
   (served env (answered st) later \<and>
    list_all (asks_ok env self) (butlast (rm # map snd later)) \<and>
    first_failure env self (requested (last (rm # map snd later))) = Some err \<longrightarrow>
      (\<exists>st' blocks evs.
         tool_loop env self tools rm st = Some (Inl err, st') \<and>
         messages st' = messages st @ rounds (rm # map snd later) blocks \<and>
         list_all2 (\<lambda>r b. list_all2 (tool_reply env self)
                              (takeWhile (tool_call_ok env self) (requested r)) b)
           (rm # map snd later) blocks \<and>
         trace st' = trace st @ evs \<and>
         list_all2 (tool_invocation env)
           (concat (map requested (butlast (rm # map snd later))) @
            attempted env self (requested (last (rm # map snd later))))
           (filter is_execution evs)))"
proof (intro conjI impI)
  assume ok: "list_all (tool_call_ok env self) tcs"
  then have "first_failure env self tcs = None" by (simp add: first_failure_None_iff)
  with exec_tool_calls_effect[of env self tcs st] ok
  show "\<exists>replies evs.
         exec_tool_calls env self tcs st =
           (Inr (), st\<lparr>messages := messages st @ replies, trace := trace st @ evs\<rparr>) \<and>
         list_all2 (tool_reply env self) tcs replies \<and>
         list_all2 (tool_invocation env) tcs (filter is_execution evs)"
    by (auto simp: all_ok_answered all_ok_attempted)
next
  assume "\<not> list_all (tool_call_ok env self) tcs"
  then obtain err where "first_failure env self tcs = Some err"
    using first_failure_None_iff[of env self tcs] by (cases "first_failure env self tcs") auto
  with exec_tool_calls_effect[of env self tcs st]
  show "\<exists>err replies evs.
         exec_tool_calls env self tcs st =
           (Inl err, st\<lparr>messages := messages st @ replies, trace := trace st @ evs\<rparr>) \<and>
         first_failure env self tcs = Some err \<and>
         list_all2 (tool_reply env self) (takeWhile (tool_call_ok env self) tcs) replies \<and>
         list_all2 (tool_invocation env) (attempted env self tcs) (filter is_execution evs)"
    by auto
next
  assume "served env (answered st) later \<and>
    list_all (asks_ok env self) (butlast (rm # map snd later)) \<and>
    requested (last (rm # map snd later)) = []"
  then have 1: "served env (answered st) later"
    and 2: "list_all (asks_ok env self) (butlast (rm # map snd later))"
    and 3: "\<not> asks_ok env self (last (rm # map snd later))"
    and 4: "first_failure env self (requested (last (rm # map snd later))) = None"
    and 5: "requested (last (rm # map snd later)) = []"
    by (simp_all add: plain_not_asks_ok first_failure_Nil)
  from tool_loop_run[OF 1 2 3, of tools] 4 obtain st' blocks evs where
    run: "tool_loop env self tools rm st = Some (Inr (content (last (rm # map snd later))), st')"
      "messages st' = messages st @ rounds (rm # map snd later) blocks"
      "list_all2 (\<lambda>r b. list_all2 (tool_reply env self) (takeWhile (tool_call_ok env self) (requested r)) b)
         (rm # map snd later) blocks"
      "trace st' = trace st @ evs"
      "list_all2 (tool_invocation env)
         (concat (map (\<lambda>r. attempted env self (requested r)) (rm # map snd later)))
         (filter is_execution evs)"
    by auto
  have ne: "rm # map snd later \<noteq> []" by simp
  from run(3) have "list_all2 (list_all2 (tool_reply env self))
      (map (\<lambda>r. takeWhile (tool_call_ok env self) (requested r)) (rm # map snd later)) blocks"
    by (simp only: list_all2_map1)
  then have b: "list_all2 (\<lambda>r b. list_all2 (tool_reply env self) (requested r) b) (rm # map snd later) blocks"
    by (simp only: answered_all[OF ne 2 5] list_all2_map1)
  have "attempted env self (requested (last (rm # map snd later))) = []"
    using 5 by (simp add: attempted_Nil)
  with attempted_split[OF ne 2] have
    "concat (map (\<lambda>r. attempted env self (requested r)) (rm # map snd later)) =
     concat (map requested (butlast (rm # map snd later)) @ [requested (last (rm # map snd later))])"
    using 5 by simp
  also have "map requested (butlast (rm # map snd later)) @ [requested (last (rm # map snd later))] =
     map requested (butlast (rm # map snd later) @ [last (rm # map snd later)])"
    by simp
  also have "butlast (rm # map snd later) @ [last (rm # map snd later)] = rm # map snd later"
    using ne by (rule append_butlast_last_id)
  finally have "list_all2 (tool_invocation env) (concat (map requested (rm # map snd later)))
      (filter is_execution evs)"
    using run(5) by simp
  with run(1,2,4) b
  show "\<exists>st' blocks evs.
         tool_loop env self tools rm st = Some (Inr (content (last (rm # map snd later))), st') \<and>
         messages st' = messages st @ rounds (rm # map snd later) blocks \<and>
         list_all2 (\<lambda>r b. list_all2 (tool_reply env self) (requested r) b) (rm # map snd later) blocks \<and>
         trace st' = trace st @ evs \<and>
         list_all2 (tool_invocation env) (concat (map requested (rm # map snd later)))
           (filter is_execution evs)"
    by blast
next
  assume "served env (answered st) later \<and>
    list_all (asks_ok env self) (butlast (rm # map snd later)) \<and>
    first_failure env self (requested (last (rm # map snd later))) = Some err"
  then have 1: "served env (answered st) later"
    and 2: "list_all (asks_ok env self) (butlast (rm # map snd later))"
    and 3: "\<not> asks_ok env self (last (rm # map snd later))"
    and 4: "first_failure env self (requested (last (rm # map snd later))) = Some err"
    by (simp_all add: failing_not_asks_ok)
  have ne: "rm # map snd later \<noteq> []" by simp
  from tool_loop_run[OF 1 2 3, of tools] 4 attempted_split[OF ne 2]
  show "\<exists>st' blocks evs.
         tool_loop env self tools rm st = Some (Inl err, st') \<and>
         messages st' = messages st @ rounds (rm # map snd later) blocks \<and>
         list_all2 (\<lambda>r b. list_all2 (tool_reply env self)
                              (takeWhile (tool_call_ok env self) (requested r)) b)
           (rm # map snd later) blocks \<and>
         trace st' = trace st @ evs \<and>
         list_all2 (tool_invocation env)
           (concat (map requested (butlast (rm # map snd later))) @
            attempted env self (requested (last (rm # map snd later))))
           (filter is_execution evs)"
    by auto
qed


lemma language_call_ok: "tool_call_ok (example_env script) example_agent (language_call italy_arguments)"
  by code_simp

lemma truncated_call_fails: "\<not> tool_call_ok (example_env script) example_agent (capital_call truncated_arguments)"
  by code_simp

theorem tool_calls_executed_and_answered_witness:
  "list_all (tool_call_ok (example_env [[OpenAIError ''Connection error.'', Completion paris_answer]]) example_agent) [capital_call france_arguments, language_call italy_arguments] \<and>
   (\<exists>replies evs.
      exec_tool_calls (example_env [[OpenAIError ''Connection error.'', Completion paris_answer]]) example_agent [capital_call france_arguments, language_call italy_arguments] (init_state example_agent) =
        (Inr (), (init_state example_agent)\<lparr>messages := messages (init_state example_agent) @ replies, trace := trace (init_state example_agent) @ evs\<rparr>) \<and>
      list_all2 (tool_reply (example_env [[OpenAIError ''Connection error.'', Completion paris_answer]]) example_agent) [capital_call france_arguments, language_call italy_arguments] replies \<and>
      list_all2 (tool_invocation (example_env [[OpenAIError ''Connection error.'', Completion paris_answer]])) [capital_call france_arguments, language_call italy_arguments] (filter is_execution evs)) \<and>
   exec_tool_calls (example_env [[OpenAIError ''Connection error.'', Completion paris_answer]]) example_agent [capital_call france_arguments, language_call italy_arguments] (init_state example_agent) =
     (Inr (),
      \<lparr>messages = [SystemMsg ''You are a helpful agent.'',
                   ToolMsg ''call_2'' ''capital'' ''Paris'',
                   ToolMsg ''call_3'' ''language'' ''Italian''],
       trace = [LibExecute ''capital'' (JObj [(''country'', JStr ''France'')]),
                LogInfo (FunctionReturnedInfo ''capital'' ''Paris'' (JObj [(''country'', JStr ''France'')])),
                LibExecute ''language'' (JObj [(''country'', JStr ''Italy'')]),
                LogInfo (FunctionReturnedInfo ''language'' ''Italian'' (JObj [(''country'', JStr ''Italy'')]))],
       answered = 0\<rparr>) \<and>
   \<not> list_all (tool_call_ok (example_env [[OpenAIError ''Connection error.'', Completion paris_answer]]) example_agent) [capital_call truncated_arguments, language_call italy_arguments] \<and>
   (\<exists>err replies evs.
      exec_tool_calls (example_env [[OpenAIError ''Connection error.'', Completion paris_answer]]) example_agent [capital_call truncated_arguments, language_call italy_arguments] (init_state example_agent) =
        (Inl err, (init_state example_agent)\<lparr>messages := messages (init_state example_agent) @ replies, trace := trace (init_state example_agent) @ evs\<rparr>) \<and>
      first_failure (example_env [[OpenAIError ''Connection error.'', Completion paris_answer]]) example_agent [capital_call truncated_arguments, language_call italy_arguments] = Some err \<and>
      list_all2 (tool_reply (example_env [[OpenAIError ''Connection error.'', Completion paris_answer]]) example_agent) (takeWhile (tool_call_ok (example_env [[OpenAIError ''Connection error.'', Completion paris_answer]]) example_agent) [capital_call truncated_arguments, language_call italy_arguments]) replies \<and>
      list_all2 (tool_invocation (example_env [[OpenAIError ''Connection error.'', Completion paris_answer]])) (attempted (example_env [[OpenAIError ''Connection error.'', Completion paris_answer]]) example_agent [capital_call truncated_arguments, language_call italy_arguments]) (filter is_execution evs)) \<and>
   first_failure (example_env [[OpenAIError ''Connection error.'', Completion paris_answer]]) example_agent [capital_call truncated_arguments, language_call italy_arguments] = Some JSONDecodeError \<and>
   attempted (example_env [[OpenAIError ''Connection error.'', Completion paris_answer]]) example_agent [capital_call truncated_arguments, language_call italy_arguments] = [] \<and>
   served (example_env [[OpenAIError ''Connection error.'', Completion paris_answer]]) (answered (init_state example_agent)) [([''Connection error.''], paris_answer)] \<and>
   list_all (asks_ok (example_env [[OpenAIError ''Connection error.'', Completion paris_answer]]) example_agent) (butlast (calls_answer [capital_call france_arguments, language_call italy_arguments] # map snd [([''Connection error.''], paris_answer)])) \<and>
   requested (last (calls_answer [capital_call france_arguments, language_call italy_arguments] # map snd [([''Connection error.''], paris_answer)])) = [] \<and>
   (\<exists>st' blocks evs.
      tool_loop (example_env [[OpenAIError ''Connection error.'', Completion paris_answer]]) example_agent [] (calls_answer [capital_call france_arguments, language_call italy_arguments]) (init_state example_agent) =
        Some (Inr (content (last (calls_answer [capital_call france_arguments, language_call italy_arguments] # map snd [([''Connection error.''], paris_answer)]))), st') \<and>
      messages st' = messages (init_state example_agent) @ rounds (calls_answer [capital_call france_arguments, language_call italy_arguments] # map snd [([''Connection error.''], paris_answer)]) blocks \<and>
      list_all2 (\<lambda>r b. list_all2 (tool_reply (example_env [[OpenAIError ''Connection error.'', Completion paris_answer]]) example_agent) (requested r) b) (calls_answer [capital_call france_arguments, language_call italy_arguments] # map snd [([''Connection error.''], paris_answer)]) blocks \<and>
      trace st' = trace (init_state example_agent) @ evs \<and>
      list_all2 (tool_invocation (example_env [[OpenAIError ''Connection error.'', Completion paris_answer]])) (concat (map requested (calls_answer [capital_call france_arguments, language_call italy_arguments] # map snd [([''Connection error.''], paris_answer)]))) (filter is_execution evs)) \<and>
   served (example_env [[OpenAIError ''Connection error.'', Completion (calls_answer [capital_call truncated_arguments, language_call italy_arguments])]]) (answered (init_state example_agent)) [([''Connection error.''], calls_answer [capital_call truncated_arguments, language_call italy_arguments])] \<and>
   list_all (asks_ok (example_env [[OpenAIError ''Connection error.'', Completion (calls_answer [capital_call truncated_arguments, language_call italy_arguments])]]) example_agent) (butlast (calls_answer [capital_call france_arguments, language_call italy_arguments] # map snd [([''Connection error.''], calls_answer [capital_call truncated_arguments, language_call italy_arguments])])) \<and>
   first_failure (example_env [[OpenAIError ''Connection error.'', Completion (calls_answer [capital_call truncated_arguments, language_call italy_arguments])]]) example_agent (requested (last (calls_answer [capital_call france_arguments, language_call italy_arguments] # map snd [([''Connection error.''], calls_answer [capital_call truncated_arguments, language_call italy_arguments])]))) = Some JSONDecodeError \<and>
   (\<exists>st' blocks evs.
      tool_loop (example_env [[OpenAIError ''Connection error.'', Completion (calls_answer [capital_call truncated_arguments, language_call italy_arguments])]]) example_agent [] (calls_answer [capital_call france_arguments, language_call italy_arguments]) (init_state example_agent) = Some (Inl JSONDecodeError, st') \<and>
      messages st' = messages (init_state example_agent) @ rounds (calls_answer [capital_call france_arguments, language_call italy_arguments] # map snd [([''Connection error.''], calls_answer [capital_call truncated_arguments, language_call italy_arguments])]) blocks \<and>
      list_all2 (\<lambda>r b. list_all2 (tool_reply (example_env [[OpenAIError ''Connection error.'', Completion (calls_answer [capital_call truncated_arguments, language_call italy_arguments])]]) example_agent)
                           (takeWhile (tool_call_ok (example_env [[OpenAIError ''Connection error.'', Completion (calls_answer [capital_call truncated_arguments, language_call italy_arguments])]]) example_agent) (requested r)) b) (calls_answer [capital_call france_arguments, language_call italy_arguments] # map snd [([''Connection error.''], calls_answer [capital_call truncated_arguments, language_call italy_arguments])]) blocks \<and>
      trace st' = trace (init_state example_agent) @ evs \<and>
      list_all2 (tool_invocation (example_env [[OpenAIError ''Connection error.'', Completion (calls_answer [capital_call truncated_arguments, language_call italy_arguments])]]))
        (concat (map requested (butlast (calls_answer [capital_call france_arguments, language_call italy_arguments] # map snd [([''Connection error.''], calls_answer [capital_call truncated_arguments, language_call italy_arguments])]))) @ attempted (example_env [[OpenAIError ''Connection error.'', Completion (calls_answer [capital_call truncated_arguments, language_call italy_arguments])]]) example_agent (requested (last (calls_answer [capital_call france_arguments, language_call italy_arguments] # map snd [([''Connection error.''], calls_answer [capital_call truncated_arguments, language_call italy_arguments])]))))
        (filter is_execution evs))"
proof -
  have 1: "list_all (tool_call_ok (example_env [[OpenAIError ''Connection error.'', Completion paris_answer]]) example_agent) [capital_call france_arguments, language_call italy_arguments]"
    by (simp add: capital_call_ok language_call_ok)
  have 2: "\<not> list_all (tool_call_ok (example_env [[OpenAIError ''Connection error.'', Completion paris_answer]]) example_agent) [capital_call truncated_arguments, language_call italy_arguments]"
    by (simp add: truncated_call_fails)
  have e: "exec_tool_calls (example_env [[OpenAIError ''Connection error.'', Completion paris_answer]]) example_agent [capital_call france_arguments, language_call italy_arguments] (init_state example_agent) =
     (Inr (),
      \<lparr>messages = [SystemMsg ''You are a helpful agent.'',
                   ToolMsg ''call_2'' ''capital'' ''Paris'',
                   ToolMsg ''call_3'' ''language'' ''Italian''],
       trace = [LibExecute ''capital'' (JObj [(''country'', JStr ''France'')]),
                LogInfo (FunctionReturnedInfo ''capital'' ''Paris'' (JObj [(''country'', JStr ''France'')])),
                LibExecute ''language'' (JObj [(''country'', JStr ''Italy'')]),
                LogInfo (FunctionReturnedInfo ''language'' ''Italian'' (JObj [(''country'', JStr ''Italy'')]))],
       answered = 0\<rparr>)"
    by code_simp
  have f: "first_failure (example_env [[OpenAIError ''Connection error.'', Completion paris_answer]]) example_agent [capital_call truncated_arguments, language_call italy_arguments] = Some JSONDecodeError"
    by code_simp
  have f2: "attempted (example_env [[OpenAIError ''Connection error.'', Completion paris_answer]]) example_agent [capital_call truncated_arguments, language_call italy_arguments] = []"
    by code_simp
  have h1: "served (example_env [[OpenAIError ''Connection error.'', Completion paris_answer]]) (answered (init_state example_agent)) [([''Connection error.''], paris_answer)]"
    by (simp add: answers_def example_env_def init_state_def)
  have h2: "list_all (asks_ok (example_env [[OpenAIError ''Connection error.'', Completion paris_answer]]) example_agent) (butlast (calls_answer [capital_call france_arguments, language_call italy_arguments] # map snd [([''Connection error.''], paris_answer)]))"
    by (simp add: asks_ok_def requested_def calls_answer_def capital_call_ok language_call_ok)
  have h3: "requested (last (calls_answer [capital_call france_arguments, language_call italy_arguments] # map snd [([''Connection error.''], paris_answer)])) = []"
    by (simp add: requested_def paris_answer_def text_answer_def)
  have k1: "served (example_env [[OpenAIError ''Connection error.'', Completion (calls_answer [capital_call truncated_arguments, language_call italy_arguments])]]) (answered (init_state example_agent)) [([''Connection error.''], calls_answer [capital_call truncated_arguments, language_call italy_arguments])]"
    by (simp add: answers_def example_env_def init_state_def)
  have k2: "list_all (asks_ok (example_env [[OpenAIError ''Connection error.'', Completion (calls_answer [capital_call truncated_arguments, language_call italy_arguments])]]) example_agent) (butlast (calls_answer [capital_call france_arguments, language_call italy_arguments] # map snd [([''Connection error.''], calls_answer [capital_call truncated_arguments, language_call italy_arguments])]))"
    by (simp add: asks_ok_def requested_def calls_answer_def capital_call_ok language_call_ok)
  have k3: "first_failure (example_env [[OpenAIError ''Connection error.'', Completion (calls_answer [capital_call truncated_arguments, language_call italy_arguments])]]) example_agent (requested (last (calls_answer [capital_call france_arguments, language_call italy_arguments] # map snd [([''Connection error.''], calls_answer [capital_call truncated_arguments, language_call italy_arguments])]))) = Some JSONDecodeError"
    by code_simp
  note a = tool_calls_executed_and_answered[where env = "example_env [[OpenAIError ''Connection error.'', Completion paris_answer]]" and self = example_agent
      and st = "init_state example_agent" and tcs = "[capital_call france_arguments, language_call italy_arguments]", THEN conjunct1, THEN mp, OF 1]
  note b = tool_calls_executed_and_answered[where env = "example_env [[OpenAIError ''Connection error.'', Completion paris_answer]]" and self = example_agent
      and st = "init_state example_agent" and tcs = "[capital_call truncated_arguments, language_call italy_arguments]", THEN conjunct2, THEN conjunct1, THEN mp, OF 2]
  note c = tool_calls_executed_and_answered[where env = "example_env [[OpenAIError ''Connection error.'', Completion paris_answer]]" and self = example_agent
      and st = "init_state example_agent" and later = "[([''Connection error.''], paris_answer)]"
      and rm = "calls_answer [capital_call france_arguments, language_call italy_arguments]" and tools = "[]",
      THEN conjunct2, THEN conjunct2, THEN conjunct1, THEN mp, OF conjI[OF h1 conjI[OF h2 h3]]]
  note d = tool_calls_executed_and_answered[where env = "example_env [[OpenAIError ''Connection error.'', Completion (calls_answer [capital_call truncated_arguments, language_call italy_arguments])]]" and self = example_agent
      and st = "init_state example_agent" and later = "[([''Connection error.''], calls_answer [capital_call truncated_arguments, language_call italy_arguments])]"
      and rm = "calls_answer [capital_call france_arguments, language_call italy_arguments]" and tools = "[]" and err = JSONDecodeError,
      THEN conjunct2, THEN conjunct2, THEN conjunct2, THEN mp, OF conjI[OF k1 conjI[OF k2 k3]]]
  show ?thesis
    by (intro conjI 1 a e 2 b f f2 h1 h2 h3 c k1 k2 k3 d)
qed

theorem later_tool_call_not_executed:
  "tool_calls (calls_answer [capital_call truncated_arguments, language_call italy_arguments]) =
     Some [capital_call truncated_arguments, language_call italy_arguments] \<and>
   tool_call_ok (example_env [[Completion paris_answer]]) example_agent (language_call italy_arguments) \<and>
   tool_loop (example_env [[Completion paris_answer]]) example_agent []
     (calls_answer [capital_call truncated_arguments, language_call italy_arguments])
     (init_state example_agent) =
     Some (Inl JSONDecodeError,
           \<lparr>messages = [SystemMsg ''You are a helpful agent.'',
                        AssistantMsg (calls_answer [capital_call truncated_arguments,
                                                    language_call italy_arguments])],
            trace = [], answered = 0\<rparr>)"
  by code_simp

section \<open>The messages are only appended to, and kept between queries\<close>

lemma extends_iff:
  "extends st st' \<longleftrightarrow>
     (\<exists>ms evs. messages st' = messages st @ ms \<and> trace st' = trace st @ evs \<and>
        list_all (sends_prefix (messages st)) evs \<and> list_all (sent_within (messages st')) evs)"
proof
  assume e: "extends st st'"
  then have "messages st' = messages st @ drop (length (messages st)) (messages st')"
    "trace st' = trace st @ drop (length (trace st)) (trace st')"
    unfolding extends_def by (metis append_take_drop_id)+
  with e show "\<exists>ms evs. messages st' = messages st @ ms \<and> trace st' = trace st @ evs \<and>
        list_all (sends_prefix (messages st)) evs \<and> list_all (sent_within (messages st')) evs"
    unfolding extends_def by blast
next
  assume "\<exists>ms evs. messages st' = messages st @ ms \<and> trace st' = trace st @ evs \<and>
        list_all (sends_prefix (messages st)) evs \<and> list_all (sent_within (messages st')) evs"
  then show "extends st st'" by (auto simp: extends_def)
qed

lemma extends_refl: "extends st st"
  by (simp add: extends_def)

lemma sends_prefix_shorter: "sends_prefix (ms @ ms') ev \<Longrightarrow> sends_prefix ms ev"
proof (cases ev)
  case (ApiCall rq)
  assume "sends_prefix (ms @ ms') ev"
  with ApiCall have "take (length ms + length ms') (rq_messages rq) = ms @ ms'" by simp
  then have "take (length ms) (take (length ms + length ms') (rq_messages rq)) = ms" by simp
  then have "take (length ms) (rq_messages rq) = ms" by (simp add: min_def)
  with ApiCall show ?thesis by simp
qed simp_all

lemma sent_within_longer: "sent_within ms ev \<Longrightarrow> sent_within (ms @ ms') ev"
proof (cases ev)
  case (ApiCall rq)
  assume "sent_within ms ev"
  with ApiCall have t: "take (length (rq_messages rq)) ms = rq_messages rq" by simp
  then have "length (take (length (rq_messages rq)) ms) = length (rq_messages rq)" by simp
  then have "length (rq_messages rq) \<le> length ms" by simp
  with t have "take (length (rq_messages rq)) (ms @ ms') = rq_messages rq" by simp
  with ApiCall show ?thesis by simp
qed simp_all

lemma extends_trans:
  assumes "extends st st1" and "extends st1 st2"
  shows "extends st st2"
proof -
  from assms(1) obtain ms evs where
    1: "messages st1 = messages st @ ms" "trace st1 = trace st @ evs"
       "list_all (sends_prefix (messages st)) evs" "list_all (sent_within (messages st1)) evs"
    unfolding extends_iff by blast
  from assms(2) obtain ms' evs' where
    2: "messages st2 = messages st1 @ ms'" "trace st2 = trace st1 @ evs'"
       "list_all (sends_prefix (messages st1)) evs'" "list_all (sent_within (messages st2)) evs'"
    unfolding extends_iff by blast
  from 2(3) 1(1) have "list_all (sends_prefix (messages st)) evs'"
    by (auto simp: list_all_iff intro: sends_prefix_shorter)
  moreover from 1(4) 2(1) have "list_all (sent_within (messages st2)) evs"
    by (auto simp: list_all_iff intro: sent_within_longer)
  ultimately have "messages st2 = messages st @ (ms @ ms')" "trace st2 = trace st @ (evs @ evs')"
    "list_all (sends_prefix (messages st)) (evs @ evs')"
    "list_all (sent_within (messages st2)) (evs @ evs')"
    using 1 2 by simp_all
  then show ?thesis unfolding extends_iff by blast
qed

lemma extends_append_message: "extends st (append_message m st)"
  by (simp add: extends_def append_message_def)

lemma extends_emit_info: "extends st (emit (LogInfo i) st)"
  by (simp add: extends_def emit_def)

lemma extends_emit_search: "extends st (emit (LibSearch d k) st)"
  by (simp add: extends_def emit_def)

lemma extends_emit_execute: "extends st (emit (LibExecute n a) st)"
  by (simp add: extends_def emit_def)

lemmas extends_step =
  extends_trans[OF _ extends_append_message] extends_trans[OF _ extends_emit_info]
  extends_trans[OF _ extends_emit_search] extends_trans[OF _ extends_emit_execute]

lemma sends_prefix_attempts:
  "take (length ms) (rq_messages rq) = ms \<Longrightarrow> list_all (sends_prefix ms) (attempts rq errs)"
  by (induction errs) (simp_all add: attempts_Nil attempts_Cons)

lemma sent_within_attempts:
  "take (length (rq_messages rq)) ms = rq_messages rq \<Longrightarrow> list_all (sent_within ms) (attempts rq errs)"
  by (induction errs) (simp_all add: attempts_Nil attempts_Cons)

lemma get_response_extends:
  assumes "get_response env self (messages st) model temp tools tool_choice st = Some (r, st')"
  shows "extends st st'"
proof -
  let ?rq = "make_request self (messages st) model temp tools tool_choice"
  from get_response_sound[OF assms] obtain errs where
    s: "st' = st\<lparr>trace := trace st @ attempts ?rq errs, answered := Suc (answered st)\<rparr>"
    by blast
  have "list_all (sends_prefix (messages st)) (attempts ?rq errs)"
    by (rule sends_prefix_attempts) (simp add: make_request_def)
  moreover have "list_all (sent_within (messages st)) (attempts ?rq errs)"
    by (rule sent_within_attempts) (simp add: make_request_def)
  ultimately show ?thesis unfolding extends_iff s by simp
qed

lemma search_loop_extends:
  "extends st (snd (search_loop env self ads json_res hash_res st))"
proof (induction ads arbitrary: json_res hash_res st)
  case Nil
  show ?case by (simp add: extends_refl)
next
  case (Cons ad ads)
  let ?st1 = "emit (LibSearch ad (top_k_functions self)) st"
  have 1: "extends st ?st1" by (rule extends_emit_search)
  have 2: "extends st (emit (LogInfo i) ?st1)" for i
    by (rule extends_trans[OF 1 extends_emit_info])
  show ?case
    using 1 extends_trans[OF 2 Cons.IH]
    by (simp add: Let_def split: sum.split list.split)
qed

lemma call_search_tools_extends:
  "extends st (snd (call_search_tools env self args st))"
  by (simp add: call_search_tools_def search_tools_def extends_refl search_loop_extends
      split: json.split option.split sum.split)

lemma search_calls_extends:
  "extends st (snd (search_calls env self tcs tools st))"
proof (induction tcs arbitrary: tools st)
  case Nil
  show ?case by (simp add: extends_refl)
next
  case (Cons tc tcs)
  show ?case
  proof (cases "json_loads env (tc_arguments tc)")
    case (Inl err)
    then show ?thesis by (simp add: extends_refl)
  next
    case (Inr args)
    let ?st0 = "emit (LogInfo (ToolSearchInfo args)) st"
    obtain res st1 where c: "call_search_tools env self args ?st0 = (res, st1)"
      by (cases "call_search_tools env self args ?st0")
    have "extends ?st0 st1"
      using call_search_tools_extends[of ?st0 env self args] c by simp
    then have 1: "extends st st1"
      by (rule extends_trans[OF extends_emit_info])
    show ?thesis
    proof (cases res)
      case (Inl err)
      with Inr c 1 show ?thesis by (simp add: extends_refl)
    next
      case (Inr found)
      let ?st2 = "append_message (ToolMsg (tc_id tc) (tc_name tc) ''Successfully provided suitable tools.'')
                      (emit (LogInfo (ToolsFoundInfo found)) st1)"
      have "extends st ?st2"
        by (intro extends_step 1)
      from extends_trans[OF this Cons.IH] \<open>json_loads env (tc_arguments tc) = Inr args\<close> c Inr
      show ?thesis by (cases "tc_name tc = ''search_tools''") (simp_all add: extends_refl)
    qed
  qed
qed

lemma exec_tool_calls_extends:
  "extends st (snd (exec_tool_calls env self tcs st))"
proof (induction tcs arbitrary: st)
  case Nil
  show ?case by (simp add: extends_refl)
next
  case (Cons tc tcs)
  have 1: "extends st (emit (LogInfo i) (append_message m (emit (LibExecute n a) st)))" for i m n a
    by (intro extends_step extends_refl)
  show ?case
    using extends_trans[OF 1 Cons.IH]
    by (simp add: extends_refl extends_emit_execute split: sum.split)
qed


lemma decompose_extends:
  assumes "decompose env self prompt st = Some (r, st')"
  shows "extends st st'"
proof -
  let ?st1 = "append_message (UserMsg (decomposition_prompt prompt)) (emit (LogInfo (QueryInfo prompt)) st)"
  from assms obtain st2 where
    g: "get_response env self (messages ?st1) None None (Some [search_tools_description]) (JStr ''none'') ?st1 =
          Some (r, st2)" and
    s: "st' = emit (LogInfo (ActionsInfo r)) (append_message (AssistantMsg r) st2)"
    by (auto simp: decompose_def Let_def split: option.splits)
  have "extends st ?st1" by (intro extends_step extends_refl)
  from extends_trans[OF this get_response_extends[OF g]]
  have "extends st st2" .
  then show ?thesis unfolding s by (intro extends_step)
qed

lemma search_phase_extends:
  assumes "search_phase env self st = Some (res, st')"
  shows "extends st st'"
proof -
  let ?st1 = "append_message (UserMsg search_prompt) st"
  from assms obtain rm st2 where
    g: "get_response env self (messages ?st1) None None (Some [search_tools_description])
          search_tools_choice ?st1 = Some (rm, st2)"
    by (auto simp: search_phase_def Let_def split: option.splits)
  let ?st3 = "append_message (AssistantMsg rm) st2"
  have "extends st ?st1" by (rule extends_append_message)
  from extends_trans[OF this get_response_extends[OF g]]
  have 3: "extends st ?st3" by (intro extends_step)
  from assms g have "st' = ?st3 \<or> (\<exists>tcs. st' = snd (search_calls env self tcs [] ?st3))"
    by (auto simp: search_phase_def Let_def split: option.splits if_splits) (metis snd_conv)
  then show ?thesis
    using 3 extends_trans[OF 3 search_calls_extends] by auto
qed

lemma tool_loop_extends:
  assumes ret: "tool_loop env self tools rm st = Some y"
  shows "extends st (snd y)"
proof (rule tool_loop.raw_induct[OF _ ret])
  fix loop :: "'a env \<Rightarrow> 'a agent \<Rightarrow> json list \<Rightarrow> response_message \<Rightarrow> state \<Rightarrow>
       ((pyerr + string option) \<times> state) option"
    and env self tools rm st y
  assume IH: "\<And>env self tools rm st y. loop env self tools rm st = Some y \<Longrightarrow> extends st (snd y)"
    and body: "(if requested rm \<noteq> [] then
        (case exec_tool_calls env self (requested rm) (append_message (AssistantMsg rm) st) of
           (Inl err, st1) \<Rightarrow> Some (Inl err, st1)
         | (Inr u, st1) \<Rightarrow>
             (case get_response env self (messages st1) None None (Some tools) (JStr ''auto'') st1 of
                None \<Rightarrow> None
              | Some (response_message', st2) \<Rightarrow> loop env self tools response_message' st2))
      else Some (Inr (content rm), append_message (AssistantMsg rm) st)) = Some y"
  let ?st0 = "append_message (AssistantMsg rm) st"
  show "extends st (snd y)"
  proof (cases "requested rm = []")
    case True
    with body have "snd y = ?st0" by auto
    then show ?thesis by (simp add: extends_append_message)
  next
    case False
    obtain res st1 where x: "exec_tool_calls env self (requested rm) ?st0 = (res, st1)"
      by (cases "exec_tool_calls env self (requested rm) ?st0")
    have "extends ?st0 st1"
      using exec_tool_calls_extends[of ?st0 env self "requested rm"] x by simp
    from extends_trans[OF extends_append_message this] have 1: "extends st st1" .
    show ?thesis
    proof (cases res)
      case (Inl err)
      with body False x have "snd y = st1" by auto
      with 1 show ?thesis by simp
    next
      case (Inr u)
      with body False x obtain rm' st2 where
        g: "get_response env self (messages st1) None None (Some tools) (JStr ''auto'') st1 = Some (rm', st2)"
        and l: "loop env self tools rm' st2 = Some y"
        by (auto split: option.splits)
      from extends_trans[OF 1 get_response_extends[OF g]] have "extends st st2" .
      from extends_trans[OF this IH[OF l]] show ?thesis .
    qed
  qed
qed

lemma solve_extends:
  assumes "solve env self am tools st = Some (res, st')"
  shows "extends st st'"
proof -
  let ?st1 = "append_message (UserMsg (solve_prompt (content am))) st"
  from assms obtain rm st2 where
    g: "get_response env self (messages ?st1) None None (Some tools) (JStr ''auto'') ?st1 = Some (rm, st2)"
    and l: "tool_loop env self tools rm st2 = Some (res, st')"
    by (auto simp: solve_def Let_def split: option.splits)
  from extends_trans[OF extends_append_message get_response_extends[OF g]]
  have "extends st st2" .
  from extends_trans[OF this tool_loop_extends[OF l]] show ?thesis by simp
qed

lemma query_extends:
  assumes "query env self prompt st = Some (res, st')"
  shows "extends st st'"
proof -
  from assms obtain am st1 where d: "decompose env self prompt st = Some (am, st1)"
    by (auto simp: query_def split: option.splits)
  with assms obtain sres st2 where s: "search_phase env self st1 = Some (sres, st2)"
    by (auto simp: query_def split: option.splits)
  from extends_trans[OF decompose_extends[OF d] search_phase_extends[OF s]]
  have 2: "extends st st2" .
  show ?thesis
  proof (cases sres)
    case (Inl err)
    with assms d s have "st' = st2" by (simp add: query_def)
    with 2 show ?thesis by simp
  next
    case (Inr tools)
    with assms d s have "solve env self am tools st2 = Some (res, st')" by (simp add: query_def)
    from extends_trans[OF 2 solve_extends[OF this]] show ?thesis .
  qed
qed

section \<open>The transcript of a query\<close>

lemma decompose_sound:
  assumes "decompose env self prompt st = Some (am, st1)"
  shows "\<exists>errs. answers env (answered st) errs am \<and>
     st1 = st\<lparr>messages := messages st @ [UserMsg (decomposition_prompt prompt), AssistantMsg am],
              trace := trace st @ [LogInfo (QueryInfo prompt)]
                 @ attempts \<lparr>rq_model = agent_model self,
                             rq_messages = messages st @ [UserMsg (decomposition_prompt prompt)],
                             rq_tools = Some [search_tools_description],
                             rq_temperature = temperature self,
                             rq_tool_choice = JStr ''none''\<rparr> errs
                 @ [LogInfo (ActionsInfo am)],
              answered := Suc (answered st)\<rparr>"
proof -
  let ?st0 = "append_message (UserMsg (decomposition_prompt prompt)) (emit (LogInfo (QueryInfo prompt)) st)"
  from assms obtain st2 where
    g: "get_response env self (messages ?st0) None None (Some [search_tools_description]) (JStr ''none'') ?st0 =
          Some (am, st2)"
    by (auto simp: decompose_def Let_def split: option.splits)
  from get_response_sound[OF g] obtain errs where "answers env (answered ?st0) errs am" by blast
  then have a: "answers env (answered st) errs am" by (simp add: append_message_def emit_def)
  from decompose_answers[OF a, of self prompt] assms a show ?thesis by auto
qed

lemma search_loop_state:
  "messages (snd (search_loop env self ads json_res hash_res st)) = messages st \<and>
   answered (snd (search_loop env self ads json_res hash_res st)) = answered st"
proof (induction ads arbitrary: json_res hash_res st)
  case Nil
  show ?case by simp
next
  case (Cons ad ads)
  show ?case
    by (simp add: Let_def Cons.IH emit_def split: sum.split list.split)
qed

lemma call_search_tools_state:
  "messages (snd (call_search_tools env self args st)) = messages st \<and>
   answered (snd (call_search_tools env self args st)) = answered st"
  by (simp add: call_search_tools_def search_tools_def search_loop_state
      split: json.split option.split sum.split)

lemma search_calls_single_state:
  "messages (snd (search_calls env self [tc] tools st)) =
     messages st @ (case fst (search_calls env self [tc] tools st) of
                      Inl err \<Rightarrow> []
                    | Inr found \<Rightarrow> [ToolMsg (tc_id tc) ''search_tools'' ''Successfully provided suitable tools.'']) \<and>
   answered (snd (search_calls env self [tc] tools st)) = answered st"
proof (cases "json_loads env (tc_arguments tc)")
  case (Inl err)
  then show ?thesis by simp
next
  case (Inr args)
  let ?st0 = "emit (LogInfo (ToolSearchInfo args)) st"
  obtain res st1 where c: "call_search_tools env self args ?st0 = (res, st1)"
    by (cases "call_search_tools env self args ?st0")
  with call_search_tools_state[of env self args ?st0]
  have m: "messages st1 = messages st" "answered st1 = answered st"
    by (simp_all add: emit_def)
  show ?thesis
    using Inr c m
    by (cases res; cases "tc_name tc = ''search_tools''") (simp_all add: append_message_def emit_def)
qed

lemma search_phase_sound:
  assumes "search_phase env self st = Some (sres, st2)"
  shows "\<exists>errs rm evs.
     answers env (answered st) errs rm \<and>
     sres = search_outcome env self rm \<and>
     messages st2 = messages st @ [UserMsg search_prompt, AssistantMsg rm] @
       (case sres of
          Inl err \<Rightarrow> []
        | Inr found \<Rightarrow> [ToolMsg (tc_id (hd (requested rm))) ''search_tools''
                          ''Successfully provided suitable tools.'']) \<and>
     answered st2 = Suc (answered st) \<and>
     trace st2 = trace st @
       attempts \<lparr>rq_model = agent_model self,
                 rq_messages = messages st @ [UserMsg search_prompt],
                 rq_tools = Some [search_tools_description],
                 rq_temperature = temperature self,
                 rq_tool_choice = search_tools_choice\<rparr> errs @ evs"
proof -
  let ?st1 = "append_message (UserMsg search_prompt) st"
  let ?rq = "make_request self (messages ?st1) None None (Some [search_tools_description]) search_tools_choice"
  from assms obtain rm st2' where
    g: "get_response env self (messages ?st1) None None (Some [search_tools_description])
          search_tools_choice ?st1 = Some (rm, st2')"
    by (auto simp: search_phase_def Let_def split: option.splits)
  from get_response_sound[OF g] obtain errs where
    a1: "answers env (answered ?st1) errs rm" and
    s2: "st2' = ?st1\<lparr>trace := trace ?st1 @ attempts ?rq errs, answered := Suc (answered ?st1)\<rparr>"
    by blast
  from a1 have a: "answers env (answered st) errs rm" by (simp add: append_message_def)
  let ?st3 = "append_message (AssistantMsg rm) st2'"
  have m3: "messages ?st3 = messages st @ [UserMsg search_prompt, AssistantMsg rm]"
    and a3: "answered ?st3 = Suc (answered st)"
    and t3: "trace ?st3 = trace st @ attempts ?rq errs"
    unfolding s2 by (simp_all add: append_message_def)
  have rq: "?rq = \<lparr>rq_model = agent_model self,
                 rq_messages = messages st @ [UserMsg search_prompt],
                 rq_tools = Some [search_tools_description],
                 rq_temperature = temperature self,
                 rq_tool_choice = search_tools_choice\<rparr>"
    by (simp add: make_request_def append_message_def)
  from search_phase_answers[OF a, of self] assms
  have o: "sres = search_outcome env self rm"
    by (simp add: search_outcome_def)
  have "messages st2 = messages ?st3 @
       (case sres of
          Inl err \<Rightarrow> []
        | Inr found \<Rightarrow> [ToolMsg (tc_id (hd (requested rm))) ''search_tools''
                          ''Successfully provided suitable tools.'']) \<and>
     answered st2 = answered ?st3 \<and> (\<exists>evs. trace st2 = trace ?st3 @ evs)"
  proof (cases "tool_calls rm")
    case None
    with assms g have "sres = Inl TypeError" "st2 = ?st3"
      by (simp_all add: search_phase_def Let_def)
    then show ?thesis by simp
  next
    case (Some tcs)
    show ?thesis
    proof (cases "length tcs = 1")
      case False
      with Some assms g have "sres = Inl (AssertNotExactlyOne (length tcs))" "st2 = ?st3"
        by (simp_all add: search_phase_def Let_def)
      then show ?thesis by simp
    next
      case True
      then obtain tc where tcs: "tcs = [tc]" by (cases tcs) auto
      with Some assms g have r: "search_calls env self [tc] [] ?st3 = (sres, st2)"
        by (simp add: search_phase_def Let_def)
      from Some tcs have h: "hd (requested rm) = tc" by (simp add: requested_def)
      from search_calls_extends[of ?st3 env self "[tc]" "[]"] r
      have "\<exists>evs. trace st2 = trace ?st3 @ evs"
        by (auto simp: extends_iff)
      with search_calls_single_state[of env self tc "[]" ?st3] r h show ?thesis
        by (simp del: search_calls.simps cong: sum.case_cong)
    qed
  qed
  with a o m3 a3 t3 rq show ?thesis by auto
qed

lemma solve_sound:
  assumes "solve env self am tools st = Some (res, st')"
  shows "\<exists>script blocks.
     script \<noteq> [] \<and>
     served env (answered st) script \<and>
     list_all (asks_ok env self) (butlast (map snd script)) \<and>
     \<not> asks_ok env self (last (map snd script)) \<and>
     list_all2 (\<lambda>r b. list_all2 (tool_reply env self) (takeWhile (tool_call_ok env self) (requested r)) b)
       (map snd script) blocks \<and>
     messages st' = messages st @ UserMsg (solve_prompt (content am)) # rounds (map snd script) blocks"
proof -
  let ?st1 = "append_message (UserMsg (solve_prompt (content am))) st"
  from assms obtain rm st2 where
    g: "get_response env self (messages ?st1) None None (Some tools) (JStr ''auto'') ?st1 = Some (rm, st2)"
    and l: "tool_loop env self tools rm st2 = Some (res, st')"
    by (auto simp: solve_def Let_def split: option.splits)
  from get_response_sound[OF g] obtain errs where
    a: "answers env (answered st) errs rm" and
    a2: "answered st2 = Suc (answered st)" and
    m2: "messages st2 = messages st @ [UserMsg (solve_prompt (content am))]"
    by (auto simp: append_message_def)
  from tool_loop_script[OF l] obtain later where
    1: "served env (answered st2) later" and
    2: "list_all (asks_ok env self) (butlast (rm # map snd later))" and
    3: "\<not> asks_ok env self (last (rm # map snd later))"
    by blast
  from tool_loop_run[OF 1 2 3, of tools] l obtain blocks where
    b: "list_all2 (\<lambda>r b. list_all2 (tool_reply env self) (takeWhile (tool_call_ok env self) (requested r)) b)
         (rm # map snd later) blocks" and
    m: "messages st' = messages st2 @ rounds (rm # map snd later) blocks"
    by auto
  let ?script = "(errs, rm) # later"
  have "?script \<noteq> []" "served env (answered st) ?script"
    using a 1 a2 by simp_all
  moreover have "list_all (asks_ok env self) (butlast (map snd ?script))"
    "\<not> asks_ok env self (last (map snd ?script))"
    using 2 3 by simp_all
  moreover have "list_all2 (\<lambda>r b. list_all2 (tool_reply env self) (takeWhile (tool_call_ok env self) (requested r)) b)
       (map snd ?script) blocks"
    using b by simp
  moreover have "messages st' = messages st @ UserMsg (solve_prompt (content am)) # rounds (map snd ?script) blocks"
    using m m2 by simp
  ultimately show ?thesis by blast
qed

text \<open>
  Claim C6, as amended. \<^verbatim>\<open>query\<close> only appends to the messages, and the messages
  belong to the agent, not to one query. Whether a query returns or aborts, the messages
  it ends with are the messages it started from followed by exactly what it appended, in
  order: the decomposition request and its answer, the search request and its answer
  and, unless the search aborts, the tool message of the search, the request to solve
  and the answers of the tool loop, each followed by the tool messages of its calls.
  Nothing that was appended is removed or changed afterwards: every completion request
  of the query is sent a list that begins with the messages from before the query and is
  itself a beginning of the final messages. What the query appended stays with the
  agent, which \<^verbatim>\<open>__init__\<close> gave its messages: the next query on the agent is sent all
  of it (the run after the theorem).
\<close>

theorem query_appends_to_agent_transcript:
  "query env self prompt st = Some (res, st') \<Longrightarrow>
   \<exists>errs0 am errs1 rm evs.
     answers env (answered st) errs0 am \<and>
     answers env (Suc (answered st)) errs1 rm \<and>
     trace st' = trace st @ evs \<and>
     list_all (sends_prefix (messages st)) evs \<and>
     list_all (sent_within (messages st')) evs \<and>
     (case search_outcome env self rm of
        Inl err \<Rightarrow>
          res = Inl err \<and>
          messages st' =
            messages st @
            [UserMsg (decomposition_prompt prompt), AssistantMsg am,
             UserMsg search_prompt, AssistantMsg rm]
      | Inr tools \<Rightarrow>
          (\<exists>script blocks.
             script \<noteq> [] \<and>
             served env (Suc (Suc (answered st))) script \<and>
             list_all (asks_ok env self) (butlast (map snd script)) \<and>
             \<not> asks_ok env self (last (map snd script)) \<and>
             list_all2 (\<lambda>r b. list_all2 (tool_reply env self)
                                  (takeWhile (tool_call_ok env self) (requested r)) b)
               (map snd script) blocks \<and>
             messages st' =
               messages st @
               [UserMsg (decomposition_prompt prompt), AssistantMsg am,
                UserMsg search_prompt, AssistantMsg rm,
                ToolMsg (tc_id (hd (requested rm))) ''search_tools''
                  ''Successfully provided suitable tools.'',
                UserMsg (solve_prompt (content am))] @
               rounds (map snd script) blocks))"
proof -
  assume q: "query env self prompt st = Some (res, st')"
  then obtain am st1 where d: "decompose env self prompt st = Some (am, st1)"
    by (auto simp: query_def split: option.splits)
  with q obtain sres st2 where s: "search_phase env self st1 = Some (sres, st2)"
    by (auto simp: query_def split: option.splits)
  from decompose_sound[OF d] obtain errs0 where
    a0: "answers env (answered st) errs0 am" and
    m1: "messages st1 = messages st @ [UserMsg (decomposition_prompt prompt), AssistantMsg am]" and
    n1: "answered st1 = Suc (answered st)"
    by auto
  from search_phase_sound[OF s] n1 obtain errs1 rm where
    a1: "answers env (Suc (answered st)) errs1 rm" and
    o: "sres = search_outcome env self rm" and
    m2: "messages st2 = messages st1 @ [UserMsg search_prompt, AssistantMsg rm] @
       (case sres of
          Inl err \<Rightarrow> []
        | Inr found \<Rightarrow> [ToolMsg (tc_id (hd (requested rm))) ''search_tools''
                          ''Successfully provided suitable tools.''])" and
    n2: "answered st2 = Suc (Suc (answered st))"
    by auto
  from query_extends[OF q] obtain evs where
    e: "trace st' = trace st @ evs" "list_all (sends_prefix (messages st)) evs"
       "list_all (sent_within (messages st')) evs"
    by (auto simp: extends_iff)
  have "case search_outcome env self rm of
        Inl err \<Rightarrow>
          res = Inl err \<and>
          messages st' =
            messages st @
            [UserMsg (decomposition_prompt prompt), AssistantMsg am,
             UserMsg search_prompt, AssistantMsg rm]
      | Inr tools \<Rightarrow>
          (\<exists>script blocks.
             script \<noteq> [] \<and>
             served env (Suc (Suc (answered st))) script \<and>
             list_all (asks_ok env self) (butlast (map snd script)) \<and>
             \<not> asks_ok env self (last (map snd script)) \<and>
             list_all2 (\<lambda>r b. list_all2 (tool_reply env self)
                                  (takeWhile (tool_call_ok env self) (requested r)) b)
               (map snd script) blocks \<and>
             messages st' =
               messages st @
               [UserMsg (decomposition_prompt prompt), AssistantMsg am,
                UserMsg search_prompt, AssistantMsg rm,
                ToolMsg (tc_id (hd (requested rm))) ''search_tools''
                  ''Successfully provided suitable tools.'',
                UserMsg (solve_prompt (content am))] @
               rounds (map snd script) blocks)"
  proof (cases sres)
    case (Inl err)
    with q d s have "res = Inl err" "st' = st2" by (simp_all add: query_def)
    with Inl o m1 m2 show ?thesis by simp
  next
    case (Inr tools)
    with q d s have "solve env self am tools st2 = Some (res, st')" by (simp add: query_def)
    from solve_sound[OF this] n2 obtain script blocks where
      "script \<noteq> []" "served env (Suc (Suc (answered st))) script"
      "list_all (asks_ok env self) (butlast (map snd script))"
      "\<not> asks_ok env self (last (map snd script))"
      "list_all2 (\<lambda>r b. list_all2 (tool_reply env self)
                                  (takeWhile (tool_call_ok env self) (requested r)) b)
               (map snd script) blocks"
      "messages st' = messages st2 @ UserMsg (solve_prompt (content am)) # rounds (map snd script) blocks"
      by auto
    with Inr o m1 m2 show ?thesis by auto
  qed
  with a0 a1 e show ?thesis by blast
qed

lemma example_run:
  "map_option fst (query (example_env example_script) example_agent ''What is the capital of France?''
       (init_state example_agent)) = Some (Inr (Some ''The capital of France is Paris.''))"
  by code_simp

theorem query_appends_to_agent_transcript_witness:
  "query (example_env example_script) example_agent ''What is the capital of France?'' (init_state example_agent) =
     Some (Inr (Some ''The capital of France is Paris.''), snd (the (query (example_env example_script) example_agent ''What is the capital of France?'' (init_state example_agent)))) \<and>
   (\<exists>errs0 am errs1 rm evs.
     answers (example_env example_script) (answered (init_state example_agent)) errs0 am \<and>
     answers (example_env example_script) (Suc (answered (init_state example_agent))) errs1 rm \<and>
     trace (snd (the (query (example_env example_script) example_agent ''What is the capital of France?'' (init_state example_agent)))) = trace (init_state example_agent) @ evs \<and>
     list_all (sends_prefix (messages (init_state example_agent))) evs \<and>
     list_all (sent_within (messages (snd (the (query (example_env example_script) example_agent ''What is the capital of France?'' (init_state example_agent)))))) evs \<and>
     (case search_outcome (example_env example_script) example_agent rm of
        Inl err \<Rightarrow>
          (Inr (Some ''The capital of France is Paris.'') :: pyerr + string option) = Inl err \<and>
          messages (snd (the (query (example_env example_script) example_agent ''What is the capital of France?'' (init_state example_agent)))) =
            messages (init_state example_agent) @
            [UserMsg (decomposition_prompt ''What is the capital of France?''), AssistantMsg am,
             UserMsg search_prompt, AssistantMsg rm]
      | Inr tools \<Rightarrow>
          (\<exists>script blocks.
             script \<noteq> [] \<and>
             served (example_env example_script) (Suc (Suc (answered (init_state example_agent)))) script \<and>
             list_all (asks_ok (example_env example_script) example_agent) (butlast (map snd script)) \<and>
             \<not> asks_ok (example_env example_script) example_agent (last (map snd script)) \<and>
             list_all2 (\<lambda>r b. list_all2 (tool_reply (example_env example_script) example_agent)
                                  (takeWhile (tool_call_ok (example_env example_script) example_agent) (requested r)) b)
               (map snd script) blocks \<and>
             messages (snd (the (query (example_env example_script) example_agent ''What is the capital of France?'' (init_state example_agent)))) =
               messages (init_state example_agent) @
               [UserMsg (decomposition_prompt ''What is the capital of France?''), AssistantMsg am,
                UserMsg search_prompt, AssistantMsg rm,
                ToolMsg (tc_id (hd (requested rm))) ''search_tools''
                  ''Successfully provided suitable tools.'',
                UserMsg (solve_prompt (content am))] @
               rounds (map snd script) blocks)))"
proof -
  have r: "query (example_env example_script) example_agent ''What is the capital of France?'' (init_state example_agent) = Some (Inr (Some ''The capital of France is Paris.''), snd (the (query (example_env example_script) example_agent ''What is the capital of France?'' (init_state example_agent))))"
    using example_run by (cases "query (example_env example_script) example_agent ''What is the capital of France?'' (init_state example_agent)") auto
  from r query_appends_to_agent_transcript[OF r] show ?thesis by (rule conjI)
qed

theorem transcript_kept_for_next_query:
  "map_option (messages \<circ> snd)
     (query (example_env example_script) example_agent ''What is the capital of France?''
        (init_state example_agent)) =
     Some [SystemMsg ''You are a helpful agent.'',
           UserMsg (decomposition_prompt ''What is the capital of France?''),
           AssistantMsg steps_answer,
           UserMsg search_prompt,
           AssistantMsg (calls_answer [search_call search_arguments]),
           ToolMsg ''call_1'' ''search_tools'' ''Successfully provided suitable tools.'',
           UserMsg (solve_prompt (Some ''1. Find the capital of France.'')),
           AssistantMsg (calls_answer [capital_call france_arguments]),
           ToolMsg ''call_2'' ''capital'' ''Paris'',
           AssistantMsg paris_answer] \<and>
   map_option (hd \<circ> sent_messages \<circ> drop 14 \<circ> trace \<circ> snd)
     (query (example_env example_script) example_agent ''What is the language of Italy?''
        (snd (the (query (example_env example_script) example_agent ''What is the capital of France?''
                     (init_state example_agent))))) =
     Some [SystemMsg ''You are a helpful agent.'',
           UserMsg (decomposition_prompt ''What is the capital of France?''),
           AssistantMsg steps_answer,
           UserMsg search_prompt,
           AssistantMsg (calls_answer [search_call search_arguments]),
           ToolMsg ''call_1'' ''search_tools'' ''Successfully provided suitable tools.'',
           UserMsg (solve_prompt (Some ''1. Find the capital of France.'')),
           AssistantMsg (calls_answer [capital_call france_arguments]),
           ToolMsg ''call_2'' ''capital'' ''Paris'',
           AssistantMsg paris_answer,
           UserMsg (decomposition_prompt ''What is the language of Italy?'')]"
  by code_simp

section \<open>What a query executes\<close>

lemma search_loop_executions:
  "filter is_execution (trace (snd (search_loop env self ads json_res hash_res st))) =
   filter is_execution (trace st)"
proof (induction ads arbitrary: json_res hash_res st)
  case Nil
  show ?case by simp
next
  case (Cons ad ads)
  show ?case
    by (simp add: Let_def Cons.IH emit_def split: sum.split list.split)
qed

lemma call_search_tools_executions:
  "filter is_execution (trace (snd (call_search_tools env self args st))) =
   filter is_execution (trace st)"
  by (simp add: call_search_tools_def search_tools_def search_loop_executions
      split: json.split option.split sum.split)

lemma search_calls_executions:
  "filter is_execution (trace (snd (search_calls env self tcs tools st))) =
   filter is_execution (trace st)"
proof (induction tcs arbitrary: tools st)
  case Nil
  show ?case by simp
next
  case (Cons tc tcs)
  show ?case
  proof (cases "json_loads env (tc_arguments tc)")
    case (Inl err)
    then show ?thesis by simp
  next
    case (Inr args)
    let ?st0 = "emit (LogInfo (ToolSearchInfo args)) st"
    obtain res st1 where c: "call_search_tools env self args ?st0 = (res, st1)"
      by (cases "call_search_tools env self args ?st0")
    with call_search_tools_executions[of env self args ?st0]
    have t: "filter is_execution (trace st1) = filter is_execution (trace st)"
      by (simp add: emit_def)
    show ?thesis
      using Inr c t
      by (cases res; cases "tc_name tc = ''search_tools''")
         (simp_all add: Cons.IH append_message_def emit_def)
  qed
qed

lemma search_phase_executions:
  assumes "search_phase env self st = Some (sres, st2)"
  shows "filter is_execution (trace st2) = filter is_execution (trace st)"
proof -
  let ?st1 = "append_message (UserMsg search_prompt) st"
  from assms obtain rm st2' where
    g: "get_response env self (messages ?st1) None None (Some [search_tools_description])
          search_tools_choice ?st1 = Some (rm, st2')"
    by (auto simp: search_phase_def Let_def split: option.splits)
  from get_response_sound[OF g]
  have t: "filter is_execution (trace st2') = filter is_execution (trace st)"
    by (auto simp: no_execution_in_attempts append_message_def)
  let ?st3 = "append_message (AssistantMsg rm) st2'"
  from t have t3: "filter is_execution (trace ?st3) = filter is_execution (trace st)"
    by (simp add: append_message_def)
  show ?thesis
  proof (cases "tool_calls rm")
    case None
    with assms g have "st2 = ?st3" by (simp add: search_phase_def Let_def)
    with t3 show ?thesis by simp
  next
    case (Some tcs)
    show ?thesis
    proof (cases "length tcs = 1")
      case False
      with Some assms g have "st2 = ?st3" by (simp add: search_phase_def Let_def)
      with t3 show ?thesis by simp
    next
      case True
      with Some assms g have "search_calls env self tcs [] ?st3 = (sres, st2)"
        by (simp add: search_phase_def Let_def)
      then have "st2 = snd (search_calls env self tcs [] ?st3)" by simp
      with t3 show ?thesis by (simp only: search_calls_executions)
    qed
  qed
qed

lemma solve_executions:
  assumes "solve env self am tools st = Some (res, st')"
  shows "\<exists>script evs.
     script \<noteq> [] \<and>
     served env (answered st) script \<and>
     trace st' = trace st @ evs \<and>
     list_all2 (tool_invocation env)
       (concat (map (\<lambda>r. attempted env self (requested r)) (map snd script)))
       (filter is_execution evs)"
proof -
  let ?st1 = "append_message (UserMsg (solve_prompt (content am))) st"
  let ?rq = "make_request self (messages ?st1) None None (Some tools) (JStr ''auto'')"
  from assms obtain rm st2 where
    g: "get_response env self (messages ?st1) None None (Some tools) (JStr ''auto'') ?st1 = Some (rm, st2)"
    and l: "tool_loop env self tools rm st2 = Some (res, st')"
    by (auto simp: solve_def Let_def split: option.splits)
  from get_response_sound[OF g] obtain errs where
    a: "answers env (answered st) errs rm" and
    a2: "answered st2 = Suc (answered st)" and
    t2: "trace st2 = trace st @ attempts ?rq errs"
    by (auto simp: append_message_def)
  from tool_loop_script[OF l] obtain later where
    1: "served env (answered st2) later" and
    2: "list_all (asks_ok env self) (butlast (rm # map snd later))" and
    3: "\<not> asks_ok env self (last (rm # map snd later))"
    by blast
  from tool_loop_run[OF 1 2 3, of tools] l obtain evs where
    t: "trace st' = trace st2 @ evs" and
    e: "list_all2 (tool_invocation env)
       (concat (map (\<lambda>r. attempted env self (requested r)) (rm # map snd later)))
       (filter is_execution evs)"
    by auto
  let ?script = "(errs, rm) # later"
  have "?script \<noteq> []" "served env (answered st) ?script"
    using a 1 a2 by simp_all
  moreover have "trace st' = trace st @ (attempts ?rq errs @ evs)"
    using t t2 by simp
  moreover have "list_all2 (tool_invocation env)
       (concat (map (\<lambda>r. attempted env self (requested r)) (map snd ?script)))
       (filter is_execution (attempts ?rq errs @ evs))"
    using e by (simp add: no_execution_in_attempts)
  ultimately show ?thesis by blast
qed

text \<open>
  Claim C7, as amended. In the Decompose state \<^verbatim>\<open>query\<close> sends the messages so far
  followed by the user request wrapped in the instruction that \<^verbatim>\<open>query\<close> builds itself:
  the sentence \<^verbatim>\<open>Considering the following user request, what are the necessary atomic
  actions you need to execute?\<close>, a line break, a blank, the request between backquotes,
  a line break and \<^verbatim>\<open>Return a numbered list of steps.\<close>; the request has
  \<^verbatim>\<open>tool_choice\<close> \<^verbatim>\<open>"none"\<close> and is repeated after every API error. The answer is
  appended to the messages and logged. The instruction is not the template
  \<^verbatim>\<open>TASK_DECOMPOSITION\<close> of the prompts module, which has no blank before the request and
  ends with a line break (the run after the theorem). No tool call of the answer is
  executed: in every query that ends, the request of the search phase follows the answer
  directly, and the tools executed during the query are those that the answers of the
  tool loop ask for, from the third completion on, and none when the search aborts.
\<close>

theorem decompose_sends_instruction:
  "let instruction =
         ''Considering the following user request, what are the necessary atomic actions you need to execute?''
         @ [CHR 0x0A] @ '' `'' @ prompt @ ''`'' @ [CHR 0x0A] @ ''Return a numbered list of steps.'';
       rq = \<lparr>rq_model = agent_model self,
             rq_messages = messages st @ [UserMsg instruction],
             rq_tools = Some [search_tools_description],
             rq_temperature = temperature self,
             rq_tool_choice = JStr ''none''\<rparr>
   in
     (\<forall>errs r. answers env (answered st) errs r \<longrightarrow>
        decompose env self prompt st =
          Some (r, st\<lparr>messages := messages st @ [UserMsg instruction, AssistantMsg r],
                      trace := trace st @ [LogInfo (QueryInfo prompt)] @ attempts rq errs @
                               [LogInfo (ActionsInfo r)],
                      answered := Suc (answered st)\<rparr>)) \<and>
     (\<forall>res st'. query env self prompt st = Some (res, st') \<longrightarrow>
        (\<exists>errs0 am errs1 rm later evs.
           answers env (answered st) errs0 am \<and>
           answers env (Suc (answered st)) errs1 rm \<and>
           messages st' =
             messages st @ [UserMsg instruction, AssistantMsg am, UserMsg search_prompt, AssistantMsg rm] @
             later \<and>
           trace st' =
             trace st @ [LogInfo (QueryInfo prompt)] @ attempts rq errs0 @ [LogInfo (ActionsInfo am)] @
             attempts \<lparr>rq_model = agent_model self,
                       rq_messages = messages st @
                         [UserMsg instruction, AssistantMsg am, UserMsg search_prompt],
                       rq_tools = Some [search_tools_description],
                       rq_temperature = temperature self,
                       rq_tool_choice = search_tools_choice\<rparr> errs1 @
             evs \<and>
           (case search_outcome env self rm of
              Inl err \<Rightarrow> filter is_execution evs = []
            | Inr tools \<Rightarrow>
                (\<exists>script.
                   script \<noteq> [] \<and>
                   served env (Suc (Suc (answered st))) script \<and>
                   list_all2 (tool_invocation env)
                     (concat (map (\<lambda>r. attempted env self (requested r)) (map snd script)))
                     (filter is_execution evs)))))"
proof -
  let ?rq = "\<lparr>rq_model = agent_model self,
             rq_messages = messages st @ [UserMsg (decomposition_prompt prompt)],
             rq_tools = Some [search_tools_description],
             rq_temperature = temperature self,
             rq_tool_choice = JStr ''none''\<rparr>"
  have A: "\<forall>errs r. answers env (answered st) errs r \<longrightarrow>
        decompose env self prompt st =
          Some (r, st\<lparr>messages := messages st @ [UserMsg (decomposition_prompt prompt), AssistantMsg r],
                      trace := trace st @ [LogInfo (QueryInfo prompt)] @ attempts ?rq errs @
                               [LogInfo (ActionsInfo r)],
                      answered := Suc (answered st)\<rparr>)"
    by (simp add: decompose_answers)
  have B: "\<forall>res st'. query env self prompt st = Some (res, st') \<longrightarrow>
        (\<exists>errs0 am errs1 rm later evs.
           answers env (answered st) errs0 am \<and>
           answers env (Suc (answered st)) errs1 rm \<and>
           messages st' =
             messages st @ [UserMsg (decomposition_prompt prompt), AssistantMsg am,
                            UserMsg search_prompt, AssistantMsg rm] @
             later \<and>
           trace st' =
             trace st @ [LogInfo (QueryInfo prompt)] @ attempts ?rq errs0 @ [LogInfo (ActionsInfo am)] @
             attempts \<lparr>rq_model = agent_model self,
                       rq_messages = messages st @
                         [UserMsg (decomposition_prompt prompt), AssistantMsg am, UserMsg search_prompt],
                       rq_tools = Some [search_tools_description],
                       rq_temperature = temperature self,
                       rq_tool_choice = search_tools_choice\<rparr> errs1 @
             evs \<and>
           (case search_outcome env self rm of
              Inl err \<Rightarrow> filter is_execution evs = []
            | Inr tools \<Rightarrow>
                (\<exists>script.
                   script \<noteq> [] \<and>
                   served env (Suc (Suc (answered st))) script \<and>
                   list_all2 (tool_invocation env)
                     (concat (map (\<lambda>r. attempted env self (requested r)) (map snd script)))
                     (filter is_execution evs))))"
  proof (intro allI impI)
    fix res st'
    assume q: "query env self prompt st = Some (res, st')"
    then obtain am st1 where d: "decompose env self prompt st = Some (am, st1)"
      by (auto simp: query_def split: option.splits)
    with q obtain sres st2 where s: "search_phase env self st1 = Some (sres, st2)"
      by (auto simp: query_def split: option.splits)
    from decompose_sound[OF d] obtain errs0 where
      a0: "answers env (answered st) errs0 am" and
      m1: "messages st1 = messages st @ [UserMsg (decomposition_prompt prompt), AssistantMsg am]" and
      n1: "answered st1 = Suc (answered st)" and
      t1: "trace st1 = trace st @ [LogInfo (QueryInfo prompt)] @ attempts ?rq errs0 @
             [LogInfo (ActionsInfo am)]"
      by auto
    let ?rq1 = "\<lparr>rq_model = agent_model self,
                 rq_messages = messages st1 @ [UserMsg search_prompt],
                 rq_tools = Some [search_tools_description],
                 rq_temperature = temperature self,
                 rq_tool_choice = search_tools_choice\<rparr>"
    from search_phase_sound[OF s] n1 obtain errs1 rm evs1 where
      a1: "answers env (Suc (answered st)) errs1 rm" and
      o: "sres = search_outcome env self rm" and
      m2: "messages st2 = messages st1 @ [UserMsg search_prompt, AssistantMsg rm] @
         (case sres of
            Inl err \<Rightarrow> []
          | Inr found \<Rightarrow> [ToolMsg (tc_id (hd (requested rm))) ''search_tools''
                            ''Successfully provided suitable tools.''])" and
      n2: "answered st2 = Suc (Suc (answered st))" and
      t2: "trace st2 = trace st1 @ attempts ?rq1 errs1 @ evs1"
      by auto
    from search_phase_executions[OF s] t2
    have x1: "filter is_execution evs1 = []"
      by (simp add: no_execution_in_attempts)
    have "\<exists>later evs.
           messages st' = messages st2 @ later \<and>
           trace st' = trace st2 @ evs \<and>
           (case search_outcome env self rm of
              Inl err \<Rightarrow> filter is_execution evs = []
            | Inr tools \<Rightarrow>
                (\<exists>script.
                   script \<noteq> [] \<and>
                   served env (Suc (Suc (answered st))) script \<and>
                   list_all2 (tool_invocation env)
                     (concat (map (\<lambda>r. attempted env self (requested r)) (map snd script)))
                     (filter is_execution evs)))"
    proof (cases sres)
      case (Inl err)
      with q d s have "st' = st2" by (simp add: query_def)
      with Inl o have "messages st' = messages st2 @ [] \<and> trace st' = trace st2 @ [] \<and>
           (case search_outcome env self rm of
              Inl err \<Rightarrow> filter is_execution ([] :: event list) = []
            | Inr tools \<Rightarrow>
                (\<exists>script.
                   script \<noteq> [] \<and>
                   served env (Suc (Suc (answered st))) script \<and>
                   list_all2 (tool_invocation env)
                     (concat (map (\<lambda>r. attempted env self (requested r)) (map snd script)))
                     (filter is_execution ([] :: event list))))"
        by (simp cong: sum.case_cong)
      then show ?thesis by blast
    next
      case (Inr tools)
      with q d s have sv: "solve env self am tools st2 = Some (res, st')" by (simp add: query_def)
      from solve_extends[OF sv] obtain later where ml: "messages st' = messages st2 @ later"
        by (auto simp: extends_iff)
      from solve_executions[OF sv] n2 obtain script evs where
        "script \<noteq> []" "served env (Suc (Suc (answered st))) script"
        "trace st' = trace st2 @ evs"
        "list_all2 (tool_invocation env)
           (concat (map (\<lambda>r. attempted env self (requested r)) (map snd script)))
           (filter is_execution evs)"
        by auto
      with Inr o ml show ?thesis by auto
    qed
    then obtain later evs where
      ml: "messages st' = messages st2 @ later" and
      tl: "trace st' = trace st2 @ evs" and
      c: "case search_outcome env self rm of
              Inl err \<Rightarrow> filter is_execution evs = []
            | Inr tools \<Rightarrow>
                (\<exists>script.
                   script \<noteq> [] \<and>
                   served env (Suc (Suc (answered st))) script \<and>
                   list_all2 (tool_invocation env)
                     (concat (map (\<lambda>r. attempted env self (requested r)) (map snd script)))
                     (filter is_execution evs))"
      by blast
    let ?later = "(case sres of
            Inl err \<Rightarrow> []
          | Inr found \<Rightarrow> [ToolMsg (tc_id (hd (requested rm))) ''search_tools''
                            ''Successfully provided suitable tools.'']) @ later"
    have M: "messages st' =
             messages st @ [UserMsg (decomposition_prompt prompt), AssistantMsg am,
                            UserMsg search_prompt, AssistantMsg rm] @ ?later"
      using ml m2 m1 by simp
    have T: "trace st' =
             trace st @ [LogInfo (QueryInfo prompt)] @ attempts ?rq errs0 @ [LogInfo (ActionsInfo am)] @
             attempts \<lparr>rq_model = agent_model self,
                       rq_messages = messages st @
                         [UserMsg (decomposition_prompt prompt), AssistantMsg am, UserMsg search_prompt],
                       rq_tools = Some [search_tools_description],
                       rq_temperature = temperature self,
                       rq_tool_choice = search_tools_choice\<rparr> errs1 @
             (evs1 @ evs)"
      using tl t2 t1 m1 by simp
    have C: "case search_outcome env self rm of
              Inl err \<Rightarrow> filter is_execution (evs1 @ evs) = []
            | Inr tools \<Rightarrow>
                (\<exists>script.
                   script \<noteq> [] \<and>
                   served env (Suc (Suc (answered st))) script \<and>
                   list_all2 (tool_invocation env)
                     (concat (map (\<lambda>r. attempted env self (requested r)) (map snd script)))
                     (filter is_execution (evs1 @ evs)))"
      using c x1 by (simp cong: sum.case_cong)
    from a0 a1 M T C show "\<exists>errs0 am errs1 rm later evs.
           answers env (answered st) errs0 am \<and>
           answers env (Suc (answered st)) errs1 rm \<and>
           messages st' =
             messages st @ [UserMsg (decomposition_prompt prompt), AssistantMsg am,
                            UserMsg search_prompt, AssistantMsg rm] @
             later \<and>
           trace st' =
             trace st @ [LogInfo (QueryInfo prompt)] @ attempts ?rq errs0 @ [LogInfo (ActionsInfo am)] @
             attempts \<lparr>rq_model = agent_model self,
                       rq_messages = messages st @
                         [UserMsg (decomposition_prompt prompt), AssistantMsg am, UserMsg search_prompt],
                       rq_tools = Some [search_tools_description],
                       rq_temperature = temperature self,
                       rq_tool_choice = search_tools_choice\<rparr> errs1 @
             evs \<and>
           (case search_outcome env self rm of
              Inl err \<Rightarrow> filter is_execution evs = []
            | Inr tools \<Rightarrow>
                (\<exists>script.
                   script \<noteq> [] \<and>
                   served env (Suc (Suc (answered st))) script \<and>
                   list_all2 (tool_invocation env)
                     (concat (map (\<lambda>r. attempted env self (requested r)) (map snd script)))
                     (filter is_execution evs)))"
      by blast
  qed
  from A B show ?thesis
    unfolding Let_def decomposition_prompt_def by (rule conjI)
qed

lemma eager_run:
  "map_option fst (query (example_env eager_script) example_agent ''What is the capital of France?''
       (init_state example_agent)) = Some (Inr (Some ''The capital of France is Paris.''))"
  by code_simp

lemma eager_run_executions:
  "map_option (filter is_execution \<circ> trace \<circ> snd)
     (query (example_env eager_script) example_agent ''What is the capital of France?''
        (init_state example_agent)) =
   Some [LibExecute ''capital'' (JObj [(''country'', JStr ''France'')])]"
  by code_simp

theorem decompose_sends_instruction_witness:
  "answers (example_env eager_script) (answered (init_state example_agent))
     [''Rate limit reached.''] eager_steps_answer \<and>
   (let rq = \<lparr>rq_model = ''gpt-4-0125-preview'',
              rq_messages = [SystemMsg ''You are a helpful agent.'', UserMsg (''Considering the following user request, what are the necessary atomic actions you need to execute?''
           @ [CHR 0x0A] @ '' `What is the capital of France?`'' @ [CHR 0x0A]
           @ ''Return a numbered list of steps.'')],
              rq_tools = Some [search_tools_description],
              rq_temperature = 0,
              rq_tool_choice = JStr ''none''\<rparr>
    in decompose (example_env eager_script) example_agent ''What is the capital of France?''
         (init_state example_agent) =
       Some (eager_steps_answer,
             \<lparr>messages = [SystemMsg ''You are a helpful agent.'', UserMsg (''Considering the following user request, what are the necessary atomic actions you need to execute?''
           @ [CHR 0x0A] @ '' `What is the capital of France?`'' @ [CHR 0x0A]
           @ ''Return a numbered list of steps.''),
                          AssistantMsg eager_steps_answer],
              trace = [LogInfo (QueryInfo ''What is the capital of France?''),
                       ApiCall rq, LogError ''Rate limit reached.'', ApiCall rq,
                       LogInfo (ActionsInfo eager_steps_answer)],
              answered = 1\<rparr>)) \<and>
   (query (example_env eager_script) example_agent ''What is the capital of France?'' (init_state example_agent)) = Some (Inr (Some ''The capital of France is Paris.''), snd (the (query (example_env eager_script) example_agent ''What is the capital of France?'' (init_state example_agent)))) \<and>
   (\<exists>errs0 am errs1 rm later evs.
      answers (example_env eager_script) (answered (init_state example_agent)) errs0 am \<and>
      answers (example_env eager_script) (Suc (answered (init_state example_agent))) errs1 rm \<and>
      messages (snd (the (query (example_env eager_script) example_agent ''What is the capital of France?'' (init_state example_agent)))) =
        messages (init_state example_agent) @
        [UserMsg (''Considering the following user request, what are the necessary atomic actions you need to execute?''
           @ [CHR 0x0A] @ '' `What is the capital of France?`'' @ [CHR 0x0A]
           @ ''Return a numbered list of steps.''), AssistantMsg am, UserMsg search_prompt, AssistantMsg rm] @
        later \<and>
      trace (snd (the (query (example_env eager_script) example_agent ''What is the capital of France?'' (init_state example_agent)))) =
        trace (init_state example_agent) @ [LogInfo (QueryInfo ''What is the capital of France?'')] @
        attempts \<lparr>rq_model = agent_model example_agent,
                  rq_messages = messages (init_state example_agent) @ [UserMsg (''Considering the following user request, what are the necessary atomic actions you need to execute?''
           @ [CHR 0x0A] @ '' `What is the capital of France?`'' @ [CHR 0x0A]
           @ ''Return a numbered list of steps.'')],
                  rq_tools = Some [search_tools_description],
                  rq_temperature = temperature example_agent,
                  rq_tool_choice = JStr ''none''\<rparr> errs0 @
        [LogInfo (ActionsInfo am)] @
        attempts \<lparr>rq_model = agent_model example_agent,
                  rq_messages = messages (init_state example_agent) @
                    [UserMsg (''Considering the following user request, what are the necessary atomic actions you need to execute?''
           @ [CHR 0x0A] @ '' `What is the capital of France?`'' @ [CHR 0x0A]
           @ ''Return a numbered list of steps.''), AssistantMsg am, UserMsg search_prompt],
                  rq_tools = Some [search_tools_description],
                  rq_temperature = temperature example_agent,
                  rq_tool_choice = search_tools_choice\<rparr> errs1 @
        evs \<and>
      (case search_outcome (example_env eager_script) example_agent rm of
         Inl err \<Rightarrow> filter is_execution evs = []
       | Inr tools \<Rightarrow>
           (\<exists>script.
              script \<noteq> [] \<and>
              served (example_env eager_script) (Suc (Suc (answered (init_state example_agent)))) script \<and>
              list_all2 (tool_invocation (example_env eager_script))
                (concat (map (\<lambda>r. attempted (example_env eager_script) example_agent (requested r)) (map snd script)))
                (filter is_execution evs)))) \<and>
   filter is_execution (trace (snd (the (query (example_env eager_script) example_agent ''What is the capital of France?'' (init_state example_agent))))) =
     [LibExecute ''capital'' (JObj [(''country'', JStr ''France'')])]"
proof -
  let ?env = "example_env eager_script"
  let ?P = "''What is the capital of France?''"
  note at_run = decompose_sends_instruction[where env = ?env and self = example_agent
      and prompt = ?P and st = "init_state example_agent", unfolded Let_def]
  have a: "answers ?env (answered (init_state example_agent)) [''Rate limit reached.''] eager_steps_answer"
    by (simp add: answers_def example_env_def init_state_def eager_script_def)
  from at_run[THEN conjunct1, THEN spec, THEN spec, THEN mp, OF a]
  have d: "let rq = \<lparr>rq_model = ''gpt-4-0125-preview'',
              rq_messages = [SystemMsg ''You are a helpful agent.'', UserMsg (''Considering the following user request, what are the necessary atomic actions you need to execute?''
           @ [CHR 0x0A] @ '' `What is the capital of France?`'' @ [CHR 0x0A]
           @ ''Return a numbered list of steps.'')],
              rq_tools = Some [search_tools_description],
              rq_temperature = 0,
              rq_tool_choice = JStr ''none''\<rparr>
    in decompose ?env example_agent ?P (init_state example_agent) =
       Some (eager_steps_answer,
             \<lparr>messages = [SystemMsg ''You are a helpful agent.'', UserMsg (''Considering the following user request, what are the necessary atomic actions you need to execute?''
           @ [CHR 0x0A] @ '' `What is the capital of France?`'' @ [CHR 0x0A]
           @ ''Return a numbered list of steps.''),
                          AssistantMsg eager_steps_answer],
              trace = [LogInfo (QueryInfo ''What is the capital of France?''),
                       ApiCall rq, LogError ''Rate limit reached.'', ApiCall rq,
                       LogInfo (ActionsInfo eager_steps_answer)],
              answered = 1\<rparr>)"
    by (simp add: Let_def init_state_def example_agent_def attempts_def)
  have r: "(query (example_env eager_script) example_agent ''What is the capital of France?'' (init_state example_agent)) = Some (Inr (Some ''The capital of France is Paris.''), snd (the (query (example_env eager_script) example_agent ''What is the capital of France?'' (init_state example_agent))))"
    using eager_run by (cases "(query (example_env eager_script) example_agent ''What is the capital of France?'' (init_state example_agent))") auto
  have x: "filter is_execution (trace (snd (the (query (example_env eager_script) example_agent ''What is the capital of France?'' (init_state example_agent))))) =
     [LibExecute ''capital'' (JObj [(''country'', JStr ''France'')])]"
    using eager_run_executions by (cases "(query (example_env eager_script) example_agent ''What is the capital of France?'' (init_state example_agent))") auto
  from at_run[THEN conjunct2, THEN spec, THEN spec, THEN mp, OF r]
  have i: "(\<exists>errs0 am errs1 rm later evs.
      answers (example_env eager_script) (answered (init_state example_agent)) errs0 am \<and>
      answers (example_env eager_script) (Suc (answered (init_state example_agent))) errs1 rm \<and>
      messages (snd (the (query (example_env eager_script) example_agent ''What is the capital of France?'' (init_state example_agent)))) =
        messages (init_state example_agent) @
        [UserMsg (''Considering the following user request, what are the necessary atomic actions you need to execute?''
           @ [CHR 0x0A] @ '' `What is the capital of France?`'' @ [CHR 0x0A]
           @ ''Return a numbered list of steps.''), AssistantMsg am, UserMsg search_prompt, AssistantMsg rm] @
        later \<and>
      trace (snd (the (query (example_env eager_script) example_agent ''What is the capital of France?'' (init_state example_agent)))) =
        trace (init_state example_agent) @ [LogInfo (QueryInfo ''What is the capital of France?'')] @
        attempts \<lparr>rq_model = agent_model example_agent,
                  rq_messages = messages (init_state example_agent) @ [UserMsg (''Considering the following user request, what are the necessary atomic actions you need to execute?''
           @ [CHR 0x0A] @ '' `What is the capital of France?`'' @ [CHR 0x0A]
           @ ''Return a numbered list of steps.'')],
                  rq_tools = Some [search_tools_description],
                  rq_temperature = temperature example_agent,
                  rq_tool_choice = JStr ''none''\<rparr> errs0 @
        [LogInfo (ActionsInfo am)] @
        attempts \<lparr>rq_model = agent_model example_agent,
                  rq_messages = messages (init_state example_agent) @
                    [UserMsg (''Considering the following user request, what are the necessary atomic actions you need to execute?''
           @ [CHR 0x0A] @ '' `What is the capital of France?`'' @ [CHR 0x0A]
           @ ''Return a numbered list of steps.''), AssistantMsg am, UserMsg search_prompt],
                  rq_tools = Some [search_tools_description],
                  rq_temperature = temperature example_agent,
                  rq_tool_choice = search_tools_choice\<rparr> errs1 @
        evs \<and>
      (case search_outcome (example_env eager_script) example_agent rm of
         Inl err \<Rightarrow> filter is_execution evs = []
       | Inr tools \<Rightarrow>
           (\<exists>script.
              script \<noteq> [] \<and>
              served (example_env eager_script) (Suc (Suc (answered (init_state example_agent)))) script \<and>
              list_all2 (tool_invocation (example_env eager_script))
                (concat (map (\<lambda>r. attempted (example_env eager_script) example_agent (requested r)) (map snd script)))
                (filter is_execution evs))))" by simp
  from a d r i x show ?thesis by (intro conjI)
qed

theorem instruction_is_not_task_decomposition:
  "map_option (sent_messages \<circ> trace \<circ> snd)
     (decompose (example_env example_script) example_agent ''What is the capital of France?''
        (init_state example_agent)) =
     Some [[SystemMsg ''You are a helpful agent.'', UserMsg (''Considering the following user request, what are the necessary atomic actions you need to execute?''
           @ [CHR 0x0A] @ '' `What is the capital of France?`'' @ [CHR 0x0A]
           @ ''Return a numbered list of steps.'')]] \<and>
   UserMsg (TASK_DECOMPOSITION ''What is the capital of France?'') \<notin>
     set [SystemMsg ''You are a helpful agent.'', UserMsg (''Considering the following user request, what are the necessary atomic actions you need to execute?''
           @ [CHR 0x0A] @ '' `What is the capital of France?`'' @ [CHR 0x0A]
           @ ''Return a numbered list of steps.'')]"
  by code_simp

end
